theory Spec2Isabelle
  imports Main "HOL-Library.AList"
begin

section \<open>Derived Encodable/Decodable conformances: the declarations\<close>

text \<open>
  A shallow embedding of \<^verbatim>\<open>lib/Sema/DerivedConformanceCodable.cpp\<close>. Declarations are
  values, the diagnostics a function emits are returned as a list beside its result, a
  member added to a type is appended to the member list of the returned type, and an
  \<^verbatim>\<open>llvm_unreachable\<close>, a failing \<^verbatim>\<open>assert\<close> or the use of a null pointer is the \<open>Inl\<close> of
  a sum.
\<close>

type_synonym Identifier = string

datatype KnownProtocolKind = Encodable | Decodable

datatype AccessLevel = Private | FilePrivate | Internal | Public | Open

text \<open>
  Types, as far as the synthesizer looks into them: a nominal type, or a generic type
  bound to arguments. \<open>Optional<T>\<close> is the generic enum \<open>Optional\<close> bound to \<open>T\<close>.
\<close>

datatype Type = NominalType Identifier | BoundGenericType Identifier "Type list"

text \<open>
  Modelled from the spec: \<^verbatim>\<open>TypeBase::getOptionalObjectType\<close> is declared outside the
  file. It strips one level of \<open>Optional\<close> and is null for every other type.
\<close>

fun getOptionalObjectType :: "Type \<Rightarrow> Type option" where
  "getOptionalObjectType (BoundGenericType n [t]) = (if n = ''Optional'' then Some t else None)"
| "getOptionalObjectType _ = None"

text \<open>
  A variable: a stored or computed property of a type, or a parameter of an enum case
  (\<^verbatim>\<open>ParamDecl\<close> is a \<^verbatim>\<open>VarDecl\<close>). An unnamed parameter has the empty identifier.
  \<open>getParentPatternBinding\<close> is \<open>None\<close> without a pattern binding and otherwise holds
  \<^verbatim>\<open>isDefaultInitializable()\<close> of the binding.
\<close>

record VarDecl =
  getName :: Identifier
  getValueInterfaceType :: Type
  isStatic :: bool
  isLet :: bool
  hasStorage :: bool
  isUserAccessible :: bool
  isParentInitialized :: bool
  getParentPatternBinding :: "bool option"
  hasDefaultExpr :: bool
  getOriginalWrappedProperty :: "Identifier option"

record EnumElementDecl =
  getBaseIdentifier :: Identifier
  getParameterList :: "VarDecl list option"

text \<open>
  A nested enum that may serve as a key enum. Only the names of its members matter:
  a case, or any other member.
\<close>

datatype EnumMember = ElementM Identifier | OtherM Identifier

record EnumDecl =
  enumName :: Identifier
  enumMembers :: "EnumMember list"
  enumIsImplicit :: bool
  enumAccess :: AccessLevel
  conformsToCodingKey :: bool

text \<open>
  A nominal type a name can resolve to: an enum, or a struct, class or protocol, of
  which only the name and whether its type conforms to \<open>CodingKey\<close> are looked at.
\<close>

datatype NominalRef = EnumT EnumDecl | StructT Identifier bool

text \<open>
  The members of the target type. A property carries its property-wrapper backing
  property, when it has one. A type alias resolves to a nominal type or to none (a
  tuple or function type, which conforms to no protocol).
\<close>

datatype Decl =
    VarD VarDecl "VarDecl option"
  | EnumElementD EnumElementDecl
  | TypeD NominalRef
  | TypeAliasD Identifier "NominalRef option"
  | FuncD Identifier

datatype DeclBaseName = BaseIdentifier Identifier | Constructor

text \<open>A declaration name: a base name, and the argument labels of a compound name.\<close>

type_synonym DeclName = "DeclBaseName \<times> Identifier list option"

record ConstructorDecl =
  ctorName :: DeclName
  isDesignatedInit :: bool
  isAccessibleFrom :: bool
  isFailable :: bool
  hasThrows :: bool

text \<open>
  The superclass of a class: whether it conforms to each protocol, the initializers
  it declares itself (\<^verbatim>\<open>lookupDirect\<close>) and the ones it inherits, which the qualified
  \<^verbatim>\<open>TypeChecker::lookupMember\<close> finds as well. \<open>superConformsTo\<close> stands both for the
  module's \<^verbatim>\<open>lookupConformance\<close> and for \<^verbatim>\<open>TypeChecker::conformsToProtocol\<close> on the
  superclass type, which are declared outside the file and taken to agree.
\<close>

record SuperclassDecl =
  superConformsTo :: "KnownProtocolKind \<Rightarrow> bool"
  superInits :: "ConstructorDecl list"
  superInheritedInits :: "ConstructorDecl list"

datatype NominalKind = StructKind | ClassKind | EnumKind | ProtocolKind

record NominalTypeDecl =
  nominalName :: Identifier
  kind :: NominalKind
  members :: "Decl list"
  isFinal :: bool
  getFormalAccess :: AccessLevel
  getSuperclassDecl :: "SuperclassDecl option"
  conformsToEncodable :: bool

datatype Diagnostic =
    codable_extraneous_codingkey_case_here Identifier
  | codable_non_conforming_property_here Identifier
  | codable_non_decoded_property_here Identifier
  | codable_codingkeys_type_is_not_an_enum_here
  | codable_codingkeys_type_does_not_conform_here
  | decodable_no_super_init_here
  | decodable_super_init_not_designated_here
  | decodable_inaccessible_super_init_here
  | decodable_super_init_is_failable_here
  | decodable_property_will_not_be_decoded Identifier
  | decodable_property_init_or_codingkeys_implicit Identifier
  | decodable_property_init_or_codingkeys_explicit Identifier
  | decodable_make_property_mutable Identifier
  | broken_encodable_requirement
  | broken_decodable_requirement
  | type_does_not_conform
  | no_witnesses

datatype DeclAttr = RequiredAttr bool | OverrideAttr bool

text \<open>
  What stops the compiler inside a function of the file before the function returns:
  an \<^verbatim>\<open>llvm_unreachable\<close>, a failing \<^verbatim>\<open>assert\<close>, or the use of a null pointer (a member
  access, or a \<^verbatim>\<open>dyn_cast\<close>, which requires a declaration).
\<close>

datatype Abort = Unreachable | AssertionFailed | NullDereference

datatype BodySynthesizer =
    deriveBodyEncodable_encode_fn
  | deriveBodyEncodable_enum_encode_fn
  | deriveBodyDecodable_init_fn
  | deriveBodyDecodable_enum_init_fn

text \<open>The synthesized witness: \<open>encode(to:)\<close> or \<open>init(from:)\<close>.\<close>

record WitnessDecl =
  witnessName :: DeclName
  witnessThrows :: bool
  witnessFailable :: bool
  witnessAttrs :: "DeclAttr list"
  witnessAccess :: AccessLevel
  witnessBodySynthesizer :: BodySynthesizer

text \<open>
  The derivation in progress. \<open>conformsToProtocol\<close> is the type checker's answer for a
  member's type mapped into the conformance context; \<open>disallowedContext\<close> holds what
  \<^verbatim>\<open>checkAndDiagnoseDisallowedContext\<close> diagnoses when it refuses the context;
  \<open>copyFormalAccessFrom\<close> is the access a declaration gets from the formal access of
  its parent context. The three are declared outside the file and taken as given.
\<close>

record DerivedConformance =
  Nominal :: NominalTypeDecl
  Protocol :: KnownProtocolKind
  conformsToProtocol :: "Type \<Rightarrow> KnownProtocolKind \<Rightarrow> bool"
  disallowedContext :: "Diagnostic list option"
  copyFormalAccessFrom :: "AccessLevel \<Rightarrow> AccessLevel"
  conformanceContextMembers :: "WitnessDecl list"

section \<open>Names and lookup\<close>

definition Id_CodingKeys :: Identifier where
  "Id_CodingKeys = ''CodingKeys''"

definition Id_super :: Identifier where
  "Id_super = ''super''"

fun declName :: "Decl \<Rightarrow> Identifier" where
  "declName (VarD v b) = getName v"
| "declName (EnumElementD e) = getBaseIdentifier e"
| "declName (TypeD (EnumT e)) = enumName e"
| "declName (TypeD (StructT n c)) = n"
| "declName (TypeAliasD n r) = n"
| "declName (FuncD n) = n"

definition lookupDirect :: "Decl list \<Rightarrow> Identifier \<Rightarrow> Decl list" where
  "lookupDirect ms n = filter (\<lambda>d. declName d = n) ms"

fun memberName :: "EnumMember \<Rightarrow> Identifier" where
  "memberName (ElementM n) = n"
| "memberName (OtherM n) = n"

definition enumLookupDirect :: "EnumDecl \<Rightarrow> Identifier \<Rightarrow> EnumMember list" where
  "enumLookupDirect e n = filter (\<lambda>m. memberName m = n) (enumMembers e)"

text \<open>The cases of a key enum, in declaration order.\<close>

definition enumAllElements :: "EnumDecl \<Rightarrow> Identifier list" where
  "enumAllElements e = concat (map (\<lambda>m. case m of ElementM n \<Rightarrow> [n] | OtherM n \<Rightarrow> []) (enumMembers e))"

text \<open>The cases of the target enum, in declaration order.\<close>

definition getAllElements :: "NominalTypeDecl \<Rightarrow> EnumElementDecl list" where
  "getAllElements t = concat (map (\<lambda>d. case d of EnumElementD e \<Rightarrow> [e] | _ \<Rightarrow> []) (members t))"

text \<open>
  Modelled from the spec: \<^verbatim>\<open>getStoredProperties\<close> is declared outside the file. The
  stored properties are the instance variables with storage, in declaration order.
\<close>

definition getStoredProperties :: "NominalTypeDecl \<Rightarrow> VarDecl list" where
  "getStoredProperties t =
     concat (map (\<lambda>d. case d of VarD v b \<Rightarrow> (if hasStorage v \<and> \<not> isStatic v then [v] else []) | _ \<Rightarrow> [])
       (members t))"

definition hasAssociatedValues :: "EnumElementDecl \<Rightarrow> bool" where
  "hasAssociatedValues e = (getParameterList e \<noteq> None)"

text \<open>
  Modelled from the spec: \<^verbatim>\<open>EnumElementDecl::hasAnyUnnamedParameters\<close> is declared
  outside the file. A case has an unnamed parameter when one of its parameters has
  no label; a case without parameters has none.
\<close>

definition hasAnyUnnamedParameters :: "EnumElementDecl \<Rightarrow> bool" where
  "hasAnyUnnamedParameters e =
     (case getParameterList e of None \<Rightarrow> False | Some ps \<Rightarrow> list_ex (\<lambda>p. getName p = []) ps)"

definition superclassConformsTo :: "NominalTypeDecl \<Rightarrow> KnownProtocolKind \<Rightarrow> bool" where
  "superclassConformsTo target kpk =
     (if kind target \<noteq> ClassKind then False
      else case getSuperclassDecl target of
             None \<Rightarrow> False
           | Some superclass \<Rightarrow> superConformsTo superclass kpk)"

definition getVarNameForCoding :: "VarDecl \<Rightarrow> Identifier" where
  "getVarNameForCoding var =
     (case getOriginalWrappedProperty var of Some n \<Rightarrow> n | None \<Rightarrow> getName var)"

definition combineIdentifiers :: "Identifier \<Rightarrow> Identifier \<Rightarrow> Identifier" where
  "combineIdentifiers first second = first @ ''_'' @ second"

section \<open>Validation of key enums\<close>

text \<open>
  The \<^verbatim>\<open>SmallMapVector\<close> of properties by coding name: an association list in insertion
  order, in which storing under a present key replaces the value in place.
\<close>

definition collectProperties :: "VarDecl list \<Rightarrow> (Identifier \<times> VarDecl) list" where
  "collectProperties vars =
     foldl (\<lambda>properties varDecl.
              if \<not> isUserAccessible varDecl then properties
              else AList.update (getVarNameForCoding varDecl) varDecl properties)
       [] vars"

text \<open>
  The loop over the cases of a key enum, the same in both validators: the properties
  left, whether every case so far was valid, and the diagnostics.
\<close>

fun validateCases ::
  "DerivedConformance \<Rightarrow> Identifier list \<Rightarrow> (Identifier \<times> VarDecl) list \<Rightarrow> bool \<Rightarrow> Diagnostic list
     \<Rightarrow> (Identifier \<times> VarDecl) list \<times> bool \<times> Diagnostic list" where
  "validateCases derived [] properties propertiesAreValid diags =
     (properties, propertiesAreValid, diags)"
| "validateCases derived (elt # elts) properties propertiesAreValid diags =
     (case map_of properties elt of
        None \<Rightarrow>
          validateCases derived elts properties False
            (diags @ [codable_extraneous_codingkey_case_here elt])
      | Some var \<Rightarrow>
          if \<not> conformsToProtocol derived (getValueInterfaceType var) (Protocol derived)
          then validateCases derived elts properties False
                 (diags @ [codable_non_conforming_property_here (getName var)])
          else validateCases derived elts (AList.delete elt properties) propertiesAreValid diags)"

definition validateCodingKeysEnum ::
  "DerivedConformance \<Rightarrow> EnumDecl \<Rightarrow> bool \<times> Diagnostic list" where
  "validateCodingKeysEnum derived codingKeysDecl =
     (case validateCases derived (enumAllElements codingKeysDecl)
             (collectProperties (getStoredProperties (Nominal derived))) True [] of
        (properties, propertiesAreValid, diags) \<Rightarrow>
          if \<not> propertiesAreValid then (False, diags)
          else if Protocol derived = Decodable then
            (let notDecoded =
                   filter (\<lambda>entry. \<not> (getParentPatternBinding (snd entry) = Some True)
                                   \<and> \<not> isParentInitialized (snd entry)) properties
             in (notDecoded = [],
                 diags @ map (\<lambda>entry. codable_non_decoded_property_here (fst entry)) notDecoded))
          else (True, diags))"

definition validateCaseCodingKeysEnum ::
  "DerivedConformance \<Rightarrow> EnumElementDecl \<Rightarrow> EnumDecl \<Rightarrow> bool \<times> Diagnostic list" where
  "validateCaseCodingKeysEnum derived elementDecl codingKeysDecl =
     (case validateCases derived (enumAllElements codingKeysDecl)
             (case getParameterList elementDecl of
                None \<Rightarrow> []
              | Some params \<Rightarrow> collectProperties params) True [] of
        (properties, propertiesAreValid, diags) \<Rightarrow>
          if \<not> propertiesAreValid then (False, diags)
          else if Protocol derived = Decodable then
            (let notDecoded = filter (\<lambda>entry. \<not> hasDefaultExpr (snd entry)) properties
             in (notDecoded = [],
                 diags @ map (\<lambda>entry. codable_non_decoded_property_here (fst entry)) notDecoded))
          else (True, diags))"

datatype CodingKeysClassification = Invalid | NeedsSynthesizedCodingKeys | Valid

text \<open>
  Whether a declaration is an enum conforming to \<open>CodingKey\<close>; a type alias is followed
  to the nominal type it names.
\<close>

fun validateCodingKeysProtocolConformance :: "Decl \<Rightarrow> EnumDecl option \<times> Diagnostic list" where
  "validateCodingKeysProtocolConformance (TypeD (EnumT e)) =
     (if \<not> conformsToCodingKey e then (None, [codable_codingkeys_type_does_not_conform_here])
      else (Some e, []))"
| "validateCodingKeysProtocolConformance (TypeD (StructT n c)) =
     (if \<not> c then (None, [codable_codingkeys_type_does_not_conform_here])
      else (None, [codable_codingkeys_type_is_not_an_enum_here]))"
| "validateCodingKeysProtocolConformance (TypeAliasD n (Some (EnumT e))) =
     (if \<not> conformsToCodingKey e then (None, [codable_codingkeys_type_does_not_conform_here])
      else (Some e, []))"
| "validateCodingKeysProtocolConformance (TypeAliasD n (Some (StructT m c))) =
     (if \<not> c then (None, [codable_codingkeys_type_does_not_conform_here])
      else (None, [codable_codingkeys_type_is_not_an_enum_here]))"
| "validateCodingKeysProtocolConformance (TypeAliasD n None) =
     (None, [codable_codingkeys_type_does_not_conform_here])"
| "validateCodingKeysProtocolConformance decl =
     (None, [codable_codingkeys_type_is_not_an_enum_here])"

text \<open>
  The loop of \<open>classifyCodingKeys\<close> over the cases of a target enum: a case without a
  \<open>CodingKeys_<case>\<close> declaration asks for synthesis, and a declaration that is there is
  validated against the parameters of the case.
\<close>

fun classifyCases ::
  "DerivedConformance \<Rightarrow> EnumElementDecl list \<Rightarrow> bool \<Rightarrow> Diagnostic list
     \<Rightarrow> CodingKeysClassification \<times> Diagnostic list" where
  "classifyCases derived [] needsSynthesis diags =
     (if needsSynthesis then NeedsSynthesizedCodingKeys else Valid, diags)"
| "classifyCases derived (elt # elts) needsSynthesis diags =
     (case lookupDirect (members (Nominal derived))
             (combineIdentifiers Id_CodingKeys (getBaseIdentifier elt)) of
        [] \<Rightarrow> classifyCases derived elts True diags
      | front # others \<Rightarrow>
          (case validateCodingKeysProtocolConformance front of
             (None, ds) \<Rightarrow> (Invalid, diags @ ds)
           | (Some caseCodingKeysEnum, ds) \<Rightarrow>
               (case validateCaseCodingKeysEnum derived elt caseCodingKeysEnum of
                  (False, ds') \<Rightarrow> (Invalid, diags @ ds @ ds')
                | (True, ds') \<Rightarrow> classifyCases derived elts needsSynthesis (diags @ ds @ ds'))))"

definition classifyCodingKeys ::
  "DerivedConformance \<Rightarrow> CodingKeysClassification \<times> Diagnostic list" where
  "classifyCodingKeys derived =
     (case lookupDirect (members (Nominal derived)) Id_CodingKeys of
        [] \<Rightarrow>
          if kind (Nominal derived) = EnumKind
          then classifyCases derived (getAllElements (Nominal derived)) True []
          else (NeedsSynthesizedCodingKeys, [])
      | front # others \<Rightarrow>
          (case validateCodingKeysProtocolConformance front of
             (None, ds) \<Rightarrow> (Invalid, ds)
           | (Some codingKeysEnum, ds) \<Rightarrow>
               if kind (Nominal derived) = EnumKind
               then classifyCases derived (getAllElements (Nominal derived)) False ds
               else (case validateCodingKeysEnum derived codingKeysEnum of
                       (True, ds') \<Rightarrow> (Valid, ds @ ds')
                     | (False, ds') \<Rightarrow> (Invalid, ds @ ds'))))"

text \<open>
  The key enum a name of the target resolves to, through a type alias if need be. A
  type alias that names no nominal type leaves a null declaration, on which the final
  \<^verbatim>\<open>dyn_cast<EnumDecl>\<close> stops the compiler; every other declaration that is no enum
  gives null.
\<close>

definition lookupEvaluatedCodingKeysEnum ::
  "Decl list \<Rightarrow> Identifier \<Rightarrow> Abort + EnumDecl option" where
  "lookupEvaluatedCodingKeysEnum ms identifier =
     (case lookupDirect ms identifier of
        [] \<Rightarrow> Inr None
      | TypeD (EnumT e) # others \<Rightarrow> Inr (Some e)
      | TypeAliasD n (Some (EnumT e)) # others \<Rightarrow> Inr (Some e)
      | TypeAliasD n None # others \<Rightarrow> Inl NullDereference
      | other # others \<Rightarrow> Inr None)"

definition lookupEnumCase :: "EnumDecl \<Rightarrow> Identifier \<Rightarrow> Identifier option" where
  "lookupEnumCase target identifier =
     (case enumLookupDirect target identifier of
        [] \<Rightarrow> None
      | ElementM n # others \<Rightarrow> Some n
      | OtherM n # others \<Rightarrow> None)"

section \<open>Synthesis of key enums\<close>

text \<open>
  A synthesized key enum: implicit, private, one case per name. The conformance check
  forced on it (\<^verbatim>\<open>checkConformancesInContext\<close>) derives its \<open>CodingKey\<close> conformance.
\<close>

definition implicitKeyEnum :: "Identifier \<Rightarrow> Identifier list \<Rightarrow> EnumDecl" where
  "implicitKeyEnum name cases =
     \<lparr>enumName = name, enumMembers = map ElementM cases, enumIsImplicit = True,
      enumAccess = Private, conformsToCodingKey = True\<rparr>"

definition addMember :: "Decl \<Rightarrow> DerivedConformance \<Rightarrow> DerivedConformance" where
  "addMember decl derived =
     derived\<lparr>Nominal := (Nominal derived)\<lparr>members := members (Nominal derived) @ [decl]\<rparr>\<rparr>"

text \<open>
  The \<open>add\<close> closure of \<open>synthesizeCodingKeysEnum_enum\<close> over the parameters of one
  case. \<open>allConform = allConform && add(...)\<close> stops calling \<open>add\<close> once a parameter
  failed to conform.
\<close>

fun addParams ::
  "DerivedConformance \<Rightarrow> VarDecl list \<Rightarrow> Identifier list \<Rightarrow> bool \<Rightarrow> Diagnostic list
     \<Rightarrow> Identifier list \<times> bool \<times> Diagnostic list" where
  "addParams derived [] cases allConform diags = (cases, allConform, diags)"
| "addParams derived (varDecl # vars) cases allConform diags =
     (if \<not> allConform then addParams derived vars cases False diags
      else if \<not> isUserAccessible varDecl then addParams derived vars cases True diags
      else if \<not> conformsToProtocol derived (getValueInterfaceType varDecl) (Protocol derived)
      then addParams derived vars cases False
             (diags @ [codable_non_conforming_property_here (getName varDecl)])
      else addParams derived vars (cases @ [getVarNameForCoding varDecl]) True diags)"

text \<open>
  The loop over the cases of the target enum that adds the nested
  \<open>CodingKeys_<case>\<close> enums; the derivation carries the members added so far.
\<close>

fun synthesizeCaseEnums ::
  "EnumDecl \<Rightarrow> EnumElementDecl list \<Rightarrow> DerivedConformance \<Rightarrow> bool \<Rightarrow> Diagnostic list
     \<Rightarrow> DerivedConformance \<times> bool \<times> Diagnostic list" where
  "synthesizeCaseEnums codingKeysEnum [] derived allConform diags = (derived, allConform, diags)"
| "synthesizeCaseEnums codingKeysEnum (elementDecl # elts) derived allConform diags =
     (let enumIdentifier = combineIdentifiers Id_CodingKeys (getBaseIdentifier elementDecl) in
      if lookupEnumCase codingKeysEnum (getBaseIdentifier elementDecl) = None
      then synthesizeCaseEnums codingKeysEnum elts derived allConform diags
      else if lookupDirect (members (Nominal derived)) enumIdentifier \<noteq> []
      then synthesizeCaseEnums codingKeysEnum elts derived allConform diags
      else if hasAnyUnnamedParameters elementDecl
      then synthesizeCaseEnums codingKeysEnum elts derived allConform diags
      else (case addParams derived
                   (case getParameterList elementDecl of None \<Rightarrow> [] | Some params \<Rightarrow> params)
                   [] allConform diags of
              (cases, allConform', diags') \<Rightarrow>
                synthesizeCaseEnums codingKeysEnum elts
                  (addMember (TypeD (EnumT (implicitKeyEnum enumIdentifier cases))) derived)
                  allConform' diags'))"

definition synthesizeCodingKeysEnum_enum ::
  "DerivedConformance \<Rightarrow> Abort + bool \<times> DerivedConformance \<times> Diagnostic list" where
  "synthesizeCodingKeysEnum_enum derived =
     (let target = Nominal derived in
      case lookupEvaluatedCodingKeysEnum (members target) Id_CodingKeys of
        Inl abort \<Rightarrow> Inl abort
      | Inr found \<Rightarrow>
          (case (case found of
                   Some codingKeysEnum \<Rightarrow> (codingKeysEnum, derived)
                 | None \<Rightarrow>
                     (let enumDecl = implicitKeyEnum Id_CodingKeys
                                       (map getBaseIdentifier (getAllElements target))
                      in (enumDecl, addMember (TypeD (EnumT enumDecl)) derived))) of
             (codingKeysEnum, derived') \<Rightarrow>
               (case synthesizeCaseEnums codingKeysEnum (getAllElements target) derived' True [] of
                  (derived'', allConform, diags) \<Rightarrow> Inr (allConform, derived'', diags))))"

text \<open>The loop of \<open>synthesizeCodingKeysEnum\<close> over the stored properties.\<close>

fun addStoredProperties ::
  "DerivedConformance \<Rightarrow> VarDecl list \<Rightarrow> Identifier list \<Rightarrow> bool \<Rightarrow> Diagnostic list
     \<Rightarrow> Identifier list \<times> bool \<times> Diagnostic list" where
  "addStoredProperties derived [] cases allConform diags = (cases, allConform, diags)"
| "addStoredProperties derived (varDecl # vars) cases allConform diags =
     (if \<not> isUserAccessible varDecl then addStoredProperties derived vars cases allConform diags
      else if \<not> conformsToProtocol derived (getValueInterfaceType varDecl) (Protocol derived)
      then addStoredProperties derived vars cases False
             (diags @ [codable_non_conforming_property_here (getName varDecl)])
      else addStoredProperties derived vars (cases @ [getVarNameForCoding varDecl]) allConform diags)"

definition synthesizeCodingKeysEnum ::
  "DerivedConformance \<Rightarrow> Abort + bool \<times> DerivedConformance \<times> Diagnostic list" where
  "synthesizeCodingKeysEnum derived =
     (let target = Nominal derived in
      if kind target = EnumKind then synthesizeCodingKeysEnum_enum derived
      else
        (case addStoredProperties derived (getStoredProperties target)
                (if superclassConformsTo target Encodable \<or> superclassConformsTo target Decodable
                 then [Id_super] else [])
                True [] of
           (cases, allConform, diags) \<Rightarrow>
             if \<not> allConform then Inr (False, derived, diags)
             else Inr (True, addMember (TypeD (EnumT (implicitKeyEnum Id_CodingKeys cases))) derived,
                       diags)))"

section \<open>The synthesis gate\<close>

definition lookupMember :: "SuperclassDecl \<Rightarrow> DeclName \<Rightarrow> ConstructorDecl list" where
  "lookupMember superclassDecl name =
     filter (\<lambda>c. ctorName c = name) (superInits superclassDecl @ superInheritedInits superclassDecl)"

text \<open>
  The pre-check of \<open>canSynthesize\<close> on the superclass initializer: \<open>None\<close> when the
  check passes, and otherwise the diagnostics emitted before returning false.
\<close>

definition checkSuperInit :: "DerivedConformance \<Rightarrow> DeclName \<Rightarrow> Diagnostic list option" where
  "checkSuperInit derived requirement =
     (if Protocol derived = Decodable \<and> kind (Nominal derived) = ClassKind then
        (case getSuperclassDecl (Nominal derived) of
           None \<Rightarrow> None
         | Some superclassDecl \<Rightarrow>
             (let memberName =
                    (if superConformsTo superclassDecl (Protocol derived) then requirement
                     else (Constructor, Some []))
              in case lookupMember superclassDecl memberName of
                   [] \<Rightarrow> Some [decodable_no_super_init_here]
                 | [initializer] \<Rightarrow>
                     if \<not> isDesignatedInit initializer
                     then Some [decodable_super_init_not_designated_here]
                     else if \<not> isAccessibleFrom initializer
                     then Some [decodable_inaccessible_super_init_here]
                     else if isFailable initializer
                     then Some [decodable_super_init_is_failable_here]
                     else None
                 | initializer # others \<Rightarrow> Some []))
      else None)"

definition canSynthesize ::
  "DerivedConformance \<Rightarrow> DeclName
     \<Rightarrow> Abort + bool \<times> DerivedConformance \<times> Diagnostic list" where
  "canSynthesize derived requirement =
     (case checkSuperInit derived requirement of
        Some diags \<Rightarrow> Inr (False, derived, diags)
      | None \<Rightarrow>
          (case classifyCodingKeys derived of
             (Invalid, diags) \<Rightarrow> Inr (False, derived, diags)
           | (NeedsSynthesizedCodingKeys, diags) \<Rightarrow>
               (case synthesizeCodingKeysEnum derived of
                  Inl abort \<Rightarrow> Inl abort
                | Inr (ok, derived', diags') \<Rightarrow> Inr (ok, derived', diags @ diags'))
           | (Valid, diags) \<Rightarrow> Inr (True, derived, diags)))"

definition addMembersToConformanceContext ::
  "WitnessDecl \<Rightarrow> DerivedConformance \<Rightarrow> DerivedConformance" where
  "addMembersToConformanceContext decl derived =
     derived\<lparr>conformanceContextMembers := conformanceContextMembers derived @ [decl]\<rparr>"

definition deriveEncodable_encode :: "DerivedConformance \<Rightarrow> WitnessDecl \<times> DerivedConformance" where
  "deriveEncodable_encode derived =
     (let encodeDecl =
            \<lparr>witnessName = (BaseIdentifier ''encode'', Some [''to'']),
             witnessThrows = True,
             witnessFailable = False,
             witnessAttrs =
               (if superclassConformsTo (Nominal derived) Encodable then [OverrideAttr True] else []),
             witnessAccess = copyFormalAccessFrom derived (getFormalAccess (Nominal derived)),
             witnessBodySynthesizer =
               (if kind (Nominal derived) = EnumKind then deriveBodyEncodable_enum_encode_fn
                else deriveBodyEncodable_encode_fn)\<rparr>
      in (encodeDecl, addMembersToConformanceContext encodeDecl derived))"

definition deriveDecodable_init :: "DerivedConformance \<Rightarrow> WitnessDecl \<times> DerivedConformance" where
  "deriveDecodable_init derived =
     (let initDecl =
            \<lparr>witnessName = (Constructor, Some [''from'']),
             witnessThrows = True,
             witnessFailable = False,
             witnessAttrs =
               (if kind (Nominal derived) = ClassKind \<and> \<not> isFinal (Nominal derived)
                then [RequiredAttr True] else []),
             witnessAccess = copyFormalAccessFrom derived (getFormalAccess (Nominal derived)),
             witnessBodySynthesizer =
               (if kind (Nominal derived) = EnumKind then deriveBodyDecodable_enum_init_fn
                else deriveBodyDecodable_init_fn)\<rparr>
      in (initDecl, addMembersToConformanceContext initDecl derived))"

text \<open>
  The two entry points. The diagnostics of a failed derivation follow the two
  diagnostics posted when the transaction opens; a successful derivation aborts the
  transaction, which discards all of them.
\<close>

definition deriveEncodable ::
  "DerivedConformance \<Rightarrow> DeclName
     \<Rightarrow> Abort + WitnessDecl option \<times> DerivedConformance \<times> Diagnostic list" where
  "deriveEncodable derived requirement =
     (if kind (Nominal derived) \<noteq> StructKind \<and> kind (Nominal derived) \<noteq> ClassKind
         \<and> kind (Nominal derived) \<noteq> EnumKind
      then Inr (None, derived, [])
      else if fst requirement \<noteq> BaseIdentifier ''encode''
      then Inr (None, derived, [broken_encodable_requirement])
      else case disallowedContext derived of
             Some diags \<Rightarrow> Inr (None, derived, diags)
           | None \<Rightarrow>
               (case canSynthesize derived requirement of
                  Inl abort \<Rightarrow> Inl abort
                | Inr (True, derived', diags) \<Rightarrow>
                    (case deriveEncodable_encode derived' of
                       (encodeDecl, derived'') \<Rightarrow> Inr (Some encodeDecl, derived'', []))
                | Inr (False, derived', diags) \<Rightarrow>
                    Inr (None, derived', [type_does_not_conform, no_witnesses] @ diags)))"

definition deriveDecodable ::
  "DerivedConformance \<Rightarrow> DeclName
     \<Rightarrow> Abort + WitnessDecl option \<times> DerivedConformance \<times> Diagnostic list" where
  "deriveDecodable derived requirement =
     (if kind (Nominal derived) \<noteq> StructKind \<and> kind (Nominal derived) \<noteq> ClassKind
         \<and> kind (Nominal derived) \<noteq> EnumKind
      then Inr (None, derived, [])
      else if fst requirement \<noteq> Constructor
      then Inr (None, derived, [broken_decodable_requirement])
      else case disallowedContext derived of
             Some diags \<Rightarrow> Inr (None, derived, diags)
           | None \<Rightarrow>
               (case canSynthesize derived requirement of
                  Inl abort \<Rightarrow> Inl abort
                | Inr (True, derived', diags) \<Rightarrow>
                    (case deriveDecodable_init derived' of
                       (initDecl, derived'') \<Rightarrow> Inr (Some initDecl, derived'', []))
                | Inr (False, derived', diags) \<Rightarrow>
                    Inr (None, derived', [type_does_not_conform, no_witnesses] @ diags)))"

section \<open>The synthesized bodies\<close>

datatype Introducer = IntroducerLet | IntroducerVar

datatype Expr =
    DeclRefExpr Identifier
  | SelfDeclRef
  | SuperRefExpr
  | MemberRefExpr Expr Identifier
  | UnresolvedDotExpr Expr DeclName
  | UnresolvedDeclRefExpr Identifier
  | DotSyntaxCallExpr Expr Expr
  | TypeExpr Type
  | DotSelfExpr Expr
  | CallExpr Expr "Expr list" "Identifier list"
  | TryExpr Expr
  | AssignExpr Expr Expr
  | StringLiteralExpr string
  | TypeCheckedDefaultExpr Identifier

datatype Pattern =
    NamedPattern Identifier
  | EnumElementPattern Type Identifier "Pattern option"
  | OptionalSomePattern Pattern
  | TuplePattern "(Identifier \<times> Pattern) list"
  | ParenPattern Pattern
  | AnyPattern

datatype CaseLabelItem = CaseLabelItem Pattern | CaseLabelDefault Pattern

datatype ASTNode =
    ExprNode Expr
  | PatternBindingDecl Pattern Expr
  | VarDeclNode Introducer Identifier Type
  | SwitchStmt Expr "CaseStmt list"
and CaseStmt = CaseStmt CaseLabelItem "ASTNode list" "Identifier list option"

definition Id_container :: Identifier where
  "Id_container = ''container''"

definition Id_nestedContainer :: Identifier where
  "Id_nestedContainer = ''nestedContainer''"

definition getDeclaredType :: "EnumDecl \<Rightarrow> Type" where
  "getDeclaredType e = NominalType (enumName e)"

definition createKeyedContainer :: "Identifier \<Rightarrow> Type \<Rightarrow> Introducer \<Rightarrow> Identifier \<Rightarrow> ASTNode" where
  "createKeyedContainer keyedContainerDecl keyType introducer name =
     VarDeclNode introducer name (BoundGenericType keyedContainerDecl [keyType])"

definition createUnkeyedContainer :: "Identifier \<Rightarrow> Introducer \<Rightarrow> Identifier \<Rightarrow> ASTNode" where
  "createUnkeyedContainer unkeyedContainerDecl introducer name =
     VarDeclNode introducer name (NominalType unkeyedContainerDecl)"

text \<open>\<open>base.container(keyedBy: CodingKeys.self)\<close>\<close>

definition createContainerKeyedByCall :: "Expr \<Rightarrow> EnumDecl \<Rightarrow> Expr" where
  "createContainerKeyedByCall base param =
     CallExpr (UnresolvedDotExpr base (BaseIdentifier ''container'', Some [''keyedBy'']))
       [DotSelfExpr (TypeExpr (getDeclaredType param))] [''keyedBy'']"

text \<open>\<open>base.nestedContainer(keyedBy: CodingKeys_case.self, forKey: CodingKeys.case)\<close>\<close>

definition createNestedContainerKeyedByForKeyCall ::
  "Expr \<Rightarrow> EnumDecl \<Rightarrow> EnumDecl \<Rightarrow> Identifier \<Rightarrow> Expr" where
  "createNestedContainerKeyedByForKeyCall base codingKeysType keyParentEnum key =
     CallExpr (UnresolvedDotExpr base (BaseIdentifier ''nestedContainer'', Some [''keyedBy'', ''forKey'']))
       [DotSelfExpr (TypeExpr (getDeclaredType codingKeysType)),
        MemberRefExpr (TypeExpr (getDeclaredType keyParentEnum)) key]
       [''keyedBy'', ''forKey'']"

text \<open>\<open>base.nestedUnkeyedContainer(forKey: CodingKeys.case)\<close>\<close>

definition createNestedUnkeyedContainerForKeyCall :: "Expr \<Rightarrow> EnumDecl \<Rightarrow> Identifier \<Rightarrow> Expr" where
  "createNestedUnkeyedContainerForKeyCall base keyParentEnum key =
     CallExpr (UnresolvedDotExpr base (BaseIdentifier ''nestedUnkeyedContainer'', Some [''forKey'']))
       [MemberRefExpr (TypeExpr (getDeclaredType keyParentEnum)) key] [''forKey'']"

text \<open>
  The property a case of the key enum stands for: the first non-static variable of
  that name, replaced by its backing property when it has a property wrapper; the type
  to decode, with one level of \<open>Optional\<close> removed; and whether the if-present variant is
  to be used. \<open>None\<close> is the \<^verbatim>\<open>llvm_unreachable\<close> after the loop.
\<close>

fun findVarDecl :: "Decl list \<Rightarrow> (VarDecl \<times> Type \<times> bool) option" where
  "findVarDecl [] = None"
| "findVarDecl (VarD v backingVar # decls) =
     (let vd = (case backingVar of Some b \<Rightarrow> b | None \<Rightarrow> v) in
      if \<not> isStatic vd then
        (case getOptionalObjectType (getValueInterfaceType vd) of
           Some objType \<Rightarrow> Some (vd, objType, True)
         | None \<Rightarrow> Some (vd, getValueInterfaceType vd, False))
      else findVarDecl decls)"
| "findVarDecl (decl # decls) = findVarDecl decls"

definition lookupVarDeclForCodingKeysCase ::
  "Identifier \<Rightarrow> NominalTypeDecl \<Rightarrow> (VarDecl \<times> Type \<times> bool) option" where
  "lookupVarDeclForCodingKeysCase elt targetDecl = findVarDecl (lookupDirect (members targetDecl) elt)"

text \<open>\<open>let/var container = [try] coder.container(keyedBy: CodingKeys.self)\<close>\<close>

definition containerBinding :: "Expr \<Rightarrow> ASTNode" where
  "containerBinding init = PatternBindingDecl (NamedPattern Id_container) init"

text \<open>
  The prelude of an encoding body,
  \<open>var container = encoder.container(keyedBy: CodingKeys.self)\<close>, and of a decoding body,
  \<open>let container = try decoder.container(keyedBy: CodingKeys.self)\<close>: the binding and the
  declaration of the variable.
\<close>

definition encodePrelude :: "EnumDecl \<Rightarrow> ASTNode list" where
  "encodePrelude codingKeysEnum =
     [containerBinding (createContainerKeyedByCall (DeclRefExpr ''encoder'') codingKeysEnum),
      createKeyedContainer ''KeyedEncodingContainer'' (getDeclaredType codingKeysEnum)
        IntroducerVar Id_container]"

definition decodePrelude :: "EnumDecl \<Rightarrow> ASTNode list" where
  "decodePrelude codingKeysEnum =
     [containerBinding (TryExpr (createContainerKeyedByCall (DeclRefExpr ''decoder'') codingKeysEnum)),
      createKeyedContainer ''KeyedDecodingContainer'' (getDeclaredType codingKeysEnum)
        IntroducerLet Id_container]"

text \<open>\<open>try container.encode(self.x, forKey: CodingKeys.x)\<close>, or \<open>encodeIfPresent\<close>\<close>

definition encodeStatement :: "EnumDecl \<Rightarrow> Identifier \<Rightarrow> VarDecl \<Rightarrow> bool \<Rightarrow> ASTNode" where
  "encodeStatement codingKeysEnum elt varDecl useIfPresentVariant =
     ExprNode (TryExpr
       (CallExpr
          (UnresolvedDotExpr (DeclRefExpr Id_container)
             (BaseIdentifier (if useIfPresentVariant then ''encodeIfPresent'' else ''encode''),
              Some [[], ''forKey'']))
          [MemberRefExpr SelfDeclRef (getName varDecl),
           MemberRefExpr (TypeExpr (getDeclaredType codingKeysEnum)) elt]
          [[], ''forKey'']))"

fun encodeElements :: "NominalTypeDecl \<Rightarrow> EnumDecl \<Rightarrow> Identifier list \<Rightarrow> Abort + ASTNode list" where
  "encodeElements targetDecl codingKeysEnum [] = Inr []"
| "encodeElements targetDecl codingKeysEnum (elt # elts) =
     (case lookupVarDeclForCodingKeysCase elt targetDecl of
        None \<Rightarrow> Inl Unreachable
      | Some (varDecl, varType, useIfPresentVariant) \<Rightarrow>
          (case encodeElements targetDecl codingKeysEnum elts of
             Inl abort \<Rightarrow> Inl abort
           | Inr statements \<Rightarrow>
               Inr (encodeStatement codingKeysEnum elt varDecl useIfPresentVariant # statements)))"

text \<open>\<open>try super.encode(to: container.superEncoder())\<close>\<close>

definition superEncodeStatement :: ASTNode where
  "superEncodeStatement =
     ExprNode (TryExpr
       (CallExpr (DotSyntaxCallExpr SuperRefExpr (DeclRefExpr ''encode''))
          [DotSyntaxCallExpr (DeclRefExpr Id_container) (UnresolvedDeclRefExpr ''superEncoder'')]
          [''to'']))"

definition deriveBodyEncodable_encode :: "NominalTypeDecl \<Rightarrow> Abort + ASTNode list" where
  "deriveBodyEncodable_encode targetDecl =
     (case lookupEvaluatedCodingKeysEnum (members targetDecl) Id_CodingKeys of
        Inl abort \<Rightarrow> Inl abort
      | Inr None \<Rightarrow> Inl AssertionFailed
      | Inr (Some codingKeysEnum) \<Rightarrow>
          (case encodeElements targetDecl codingKeysEnum (enumAllElements codingKeysEnum) of
             Inl abort \<Rightarrow> Inl abort
           | Inr statements \<Rightarrow>
               Inr (encodePrelude codingKeysEnum
                    @ statements
                    @ (if superclassConformsTo targetDecl Encodable then [superEncodeStatement]
                       else []))))"

text \<open>\<open>self.x = try container.decode(Type.self, forKey: CodingKeys.x)\<close>, or \<open>decodeIfPresent\<close>\<close>

definition decodeStatement :: "EnumDecl \<Rightarrow> Identifier \<Rightarrow> VarDecl \<Rightarrow> Type \<Rightarrow> bool \<Rightarrow> ASTNode" where
  "decodeStatement codingKeysEnum elt varDecl varType useIfPresentVariant =
     ExprNode (AssignExpr
       (UnresolvedDotExpr SelfDeclRef (BaseIdentifier (getName varDecl), None))
       (TryExpr
          (CallExpr
             (UnresolvedDotExpr (DeclRefExpr Id_container)
                (BaseIdentifier (if useIfPresentVariant then ''decodeIfPresent'' else ''decode''),
                 Some [[], ''forKey'']))
             [DotSelfExpr (TypeExpr varType),
              MemberRefExpr (TypeExpr (getDeclaredType codingKeysEnum)) elt]
             [[], ''forKey''])))"

text \<open>
  The diagnostics for an immutable property with an initial value, which is not
  decoded.
\<close>

definition notDecodedDiagnostics :: "NominalTypeDecl \<Rightarrow> EnumDecl \<Rightarrow> VarDecl \<Rightarrow> Diagnostic list" where
  "notDecodedDiagnostics targetDecl codingKeysEnum varDecl =
     (let keyExistsInCodingKeys =
            list_ex (\<lambda>m. case m of ElementM n \<Rightarrow> n = getName varDecl | OtherM n \<Rightarrow> False)
              (enumLookupDirect codingKeysEnum (getName varDecl));
          conformsToEncodable = conformsToEncodable targetDecl
      in if \<not> enumIsImplicit codingKeysEnum \<and> (conformsToEncodable \<or> \<not> keyExistsInCodingKeys)
         then []
         else [decodable_property_will_not_be_decoded (getName varDecl),
               if enumIsImplicit codingKeysEnum
               then decodable_property_init_or_codingkeys_implicit (getName varDecl)
               else decodable_property_init_or_codingkeys_explicit (getName varDecl)]
              @ (if getParentPatternBinding varDecl \<noteq> None
                 then [decodable_make_property_mutable (getName varDecl)] else []))"

fun decodeElements ::
  "NominalTypeDecl \<Rightarrow> EnumDecl \<Rightarrow> Identifier list \<Rightarrow> Abort + ASTNode list \<times> Diagnostic list" where
  "decodeElements targetDecl codingKeysEnum [] = Inr ([], [])"
| "decodeElements targetDecl codingKeysEnum (elt # elts) =
     (case lookupVarDeclForCodingKeysCase elt targetDecl of
        None \<Rightarrow> Inl Unreachable
      | Some (varDecl, varType, useIfPresentVariant) \<Rightarrow>
          (case decodeElements targetDecl codingKeysEnum elts of
             Inl abort \<Rightarrow> Inl abort
           | Inr (statements, diags) \<Rightarrow>
               if isLet varDecl \<and> isParentInitialized varDecl
               then Inr (statements, notDecodedDiagnostics targetDecl codingKeysEnum varDecl @ diags)
               else Inr (decodeStatement codingKeysEnum elt varDecl varType useIfPresentVariant
                           # statements, diags)))"

text \<open>\<open>try super.init(from: container.superDecoder())\<close>\<close>

definition superInitFromStatement :: ASTNode where
  "superInitFromStatement =
     ExprNode (TryExpr
       (CallExpr (UnresolvedDotExpr SuperRefExpr (Constructor, Some [''from'']))
          [CallExpr (UnresolvedDotExpr (DeclRefExpr Id_container) (BaseIdentifier ''superDecoder'', None))
             [] []]
          [''from'']))"

text \<open>\<open>super.init()\<close>, under \<open>try\<close> when the initializer throws\<close>

definition superInitStatement :: "bool \<Rightarrow> ASTNode" where
  "superInitStatement throws =
     (let callExpr = CallExpr (UnresolvedDotExpr SuperRefExpr (Constructor, Some [])) [] []
      in ExprNode (if throws then TryExpr callExpr else callExpr))"

text \<open>The call of the superclass initializer that ends the body of a class.\<close>

definition superInitStatements :: "NominalTypeDecl \<Rightarrow> Abort + ASTNode list" where
  "superInitStatements targetDecl =
     (if kind targetDecl = ClassKind then
        (case getSuperclassDecl targetDecl of
           None \<Rightarrow> Inr []
         | Some superclassDecl \<Rightarrow>
             if superclassConformsTo targetDecl Decodable then Inr [superInitFromStatement]
             else (case filter (\<lambda>c. ctorName c = (Constructor, Some [])) (superInits superclassDecl) of
                     [] \<Rightarrow> Inl AssertionFailed
                   | superInitDecl # others \<Rightarrow>
                       if isFailable superInitDecl then Inl AssertionFailed
                       else Inr [superInitStatement (hasThrows superInitDecl)]))
      else Inr [])"

definition deriveBodyDecodable_init ::
  "NominalTypeDecl \<Rightarrow> Abort + ASTNode list \<times> Diagnostic list" where
  "deriveBodyDecodable_init targetDecl =
     (case lookupEvaluatedCodingKeysEnum (members targetDecl) Id_CodingKeys of
        Inl abort \<Rightarrow> Inl abort
      | Inr None \<Rightarrow> Inl AssertionFailed
      | Inr (Some codingKeysEnum) \<Rightarrow>
          (case (if enumAllElements codingKeysEnum \<noteq> [] then
                   (case decodeElements targetDecl codingKeysEnum (enumAllElements codingKeysEnum) of
                      Inl abort \<Rightarrow> Inl abort
                    | Inr (statements, diags) \<Rightarrow>
                        Inr (decodePrelude codingKeysEnum @ statements, diags))
                 else Inr ([], [])) of
             Inl abort \<Rightarrow> Inl abort
           | Inr (statements, diags) \<Rightarrow>
               (case superInitStatements targetDecl of
                  Inl abort \<Rightarrow> Inl abort
                | Inr superStatements \<Rightarrow> Inr (statements @ superStatements, diags))))"

subsection \<open>Enum targets\<close>

definition nestedContainerBinding :: "Expr \<Rightarrow> ASTNode" where
  "nestedContainerBinding init = PatternBindingDecl (NamedPattern Id_nestedContainer) init"

text \<open>\<open>try nestedContainer.decode(Type.self)\<close>\<close>

definition unkeyedDecodeCall :: "VarDecl \<Rightarrow> Expr" where
  "unkeyedDecodeCall paramDecl =
     TryExpr (CallExpr
       (UnresolvedDotExpr (DeclRefExpr Id_nestedContainer) (BaseIdentifier ''decode'', Some [[]]))
       [DotSelfExpr (TypeExpr (getValueInterfaceType paramDecl))] [[]])"

text \<open>\<open>try nestedContainer.decode(Type.self, forKey: CodingKeys_case.x)\<close>\<close>

definition keyedDecodeCall :: "EnumDecl \<Rightarrow> VarDecl \<Rightarrow> Identifier \<Rightarrow> Expr" where
  "keyedDecodeCall caseCodingKeys paramDecl caseCodingKey =
     TryExpr (CallExpr
       (UnresolvedDotExpr (DeclRefExpr Id_nestedContainer)
          (BaseIdentifier ''decode'', Some [[], ''forKey'']))
       [DotSelfExpr (TypeExpr (getValueInterfaceType paramDecl)),
        MemberRefExpr (TypeExpr (getDeclaredType caseCodingKeys)) caseCodingKey]
       [[], ''forKey''])"

text \<open>
  The arguments of the case constructor in the keyed form: a parameter without a key
  takes its default expression, which the source asserts to exist.
\<close>

fun keyedDecodeCalls :: "EnumDecl \<Rightarrow> VarDecl list \<Rightarrow> Abort + Expr list" where
  "keyedDecodeCalls caseCodingKeys [] = Inr []"
| "keyedDecodeCalls caseCodingKeys (paramDecl # params) =
     (case (case lookupEnumCase caseCodingKeys (getName paramDecl) of
              None \<Rightarrow>
                if \<not> hasDefaultExpr paramDecl then Inl AssertionFailed
                else Inr (TypeCheckedDefaultExpr (getName paramDecl))
            | Some caseCodingKey \<Rightarrow> Inr (keyedDecodeCall caseCodingKeys paramDecl caseCodingKey)) of
        Inl abort \<Rightarrow> Inl abort
      | Inr decodeCall \<Rightarrow>
          (case keyedDecodeCalls caseCodingKeys params of
             Inl abort \<Rightarrow> Inl abort
           | Inr decodeCalls \<Rightarrow> Inr (decodeCall # decodeCalls)))"

text \<open>\<open>self = Foo.bar(x: ..., y: ...)\<close>\<close>

definition assignCase :: "NominalTypeDecl \<Rightarrow> EnumElementDecl \<Rightarrow> VarDecl list \<Rightarrow> Expr list \<Rightarrow> ASTNode" where
  "assignCase targetEnum elt paramDecls decodeCalls =
     ExprNode (AssignExpr SelfDeclRef
       (CallExpr
          (UnresolvedDotExpr (TypeExpr (NominalType (nominalName targetEnum)))
             (BaseIdentifier (getBaseIdentifier elt), Some (map getVarNameForCoding paramDecls)))
          decodeCalls (map getVarNameForCoding paramDecls)))"

text \<open>The statements of one arm of the decoding switch.\<close>

definition decodeCaseStatements ::
  "NominalTypeDecl \<Rightarrow> EnumDecl \<Rightarrow> EnumElementDecl \<Rightarrow> Identifier \<Rightarrow> Abort + ASTNode list" where
  "decodeCaseStatements targetEnum codingKeysEnum elt codingKeyCase =
     (case getParameterList elt of
        None \<Rightarrow>
          Inr [ExprNode (AssignExpr SelfDeclRef
                 (MemberRefExpr (TypeExpr (NominalType (nominalName targetEnum)))
                    (getBaseIdentifier elt)))]
      | Some paramDecls \<Rightarrow>
          if hasAnyUnnamedParameters elt then
            Inr [nestedContainerBinding
                   (TryExpr (createNestedUnkeyedContainerForKeyCall (DeclRefExpr Id_container)
                              codingKeysEnum codingKeyCase)),
                 createUnkeyedContainer ''UnkeyedDecodingContainer'' IntroducerVar Id_nestedContainer,
                 assignCase targetEnum elt paramDecls (map unkeyedDecodeCall paramDecls)]
          else
            (case lookupEvaluatedCodingKeysEnum (members targetEnum)
                    (combineIdentifiers Id_CodingKeys (getBaseIdentifier elt)) of
               Inl abort \<Rightarrow> Inl abort
             | Inr None \<Rightarrow> Inl NullDereference
             | Inr (Some caseCodingKeys) \<Rightarrow>
                 (case keyedDecodeCalls caseCodingKeys paramDecls of
                    Inl abort \<Rightarrow> Inl abort
                  | Inr decodeCalls \<Rightarrow>
                      Inr [nestedContainerBinding
                             (TryExpr (createNestedContainerKeyedByForKeyCall (DeclRefExpr Id_container)
                                        caseCodingKeys codingKeysEnum codingKeyCase)),
                           createKeyedContainer ''KeyedDecodingContainer''
                             (getDeclaredType caseCodingKeys) IntroducerVar Id_nestedContainer,
                           assignCase targetEnum elt paramDecls decodeCalls])))"

fun decodeCases ::
  "NominalTypeDecl \<Rightarrow> EnumDecl \<Rightarrow> EnumElementDecl list \<Rightarrow> Abort + CaseStmt list" where
  "decodeCases targetEnum codingKeysEnum [] = Inr []"
| "decodeCases targetEnum codingKeysEnum (elt # elts) =
     (case lookupEnumCase codingKeysEnum (getBaseIdentifier elt) of
        None \<Rightarrow> decodeCases targetEnum codingKeysEnum elts
      | Some codingKeyCase \<Rightarrow>
          (case decodeCaseStatements targetEnum codingKeysEnum elt codingKeyCase of
             Inl abort \<Rightarrow> Inl abort
           | Inr caseStatements \<Rightarrow>
               (case decodeCases targetEnum codingKeysEnum elts of
                  Inl abort \<Rightarrow> Inl abort
                | Inr cases \<Rightarrow>
                    Inr (CaseStmt
                           (CaseLabelItem (OptionalSomePattern
                              (EnumElementPattern (getDeclaredType codingKeysEnum) codingKeyCase None)))
                           caseStatements None
                         # cases))))"

text \<open>The default arm of the decoding switch: \<open>fatalError("foo")\<close>.\<close>

definition defaultCase :: CaseStmt where
  "defaultCase =
     CaseStmt (CaseLabelDefault AnyPattern)
       [ExprNode (CallExpr (DeclRefExpr ''fatalError'') [StringLiteralExpr ''foo''] [[]])]
       None"

text \<open>\<open>container.allKeys.first\<close>\<close>

definition allKeysFirst :: Expr where
  "allKeysFirst =
     UnresolvedDotExpr
       (UnresolvedDotExpr (DeclRefExpr Id_container) (BaseIdentifier ''allKeys'', None))
       (BaseIdentifier ''first'', None)"

definition deriveBodyDecodable_enum_init :: "NominalTypeDecl \<Rightarrow> Abort + ASTNode list" where
  "deriveBodyDecodable_enum_init targetEnum =
     (case lookupEvaluatedCodingKeysEnum (members targetEnum) Id_CodingKeys of
        Inl abort \<Rightarrow> Inl abort
      | Inr None \<Rightarrow> Inl AssertionFailed
      | Inr (Some codingKeysEnum) \<Rightarrow>
          if enumAllElements codingKeysEnum \<noteq> [] then
            (case decodeCases targetEnum codingKeysEnum (getAllElements targetEnum) of
               Inl abort \<Rightarrow> Inl abort
             | Inr cases \<Rightarrow>
                 Inr (decodePrelude codingKeysEnum
                      @ [SwitchStmt allKeysFirst (cases @ [defaultCase])]))
          else Inr [])"

text \<open>\<open>try nestedContainer.encode(x)\<close>\<close>

definition unkeyedEncodeStatement :: "VarDecl \<Rightarrow> ASTNode" where
  "unkeyedEncodeStatement payloadVar =
     ExprNode (TryExpr (CallExpr
       (UnresolvedDotExpr (DeclRefExpr Id_nestedContainer) (BaseIdentifier ''encode'', Some [[]]))
       [DeclRefExpr (getName payloadVar)] [[]]))"

text \<open>
  \<open>try nestedContainer.encode(x, forKey: CodingKeys_case.x)\<close>, or \<open>encodeIfPresent\<close>; a
  payload without a key in the enum of the case is skipped.
\<close>

definition keyedEncodeStatements :: "EnumDecl \<Rightarrow> VarDecl \<Rightarrow> ASTNode list" where
  "keyedEncodeStatements caseCodingKeys payloadVar =
     (case lookupEnumCase caseCodingKeys (getName payloadVar) of
        None \<Rightarrow> []
      | Some caseCodingKey \<Rightarrow>
          [ExprNode (TryExpr (CallExpr
             (UnresolvedDotExpr (DeclRefExpr Id_nestedContainer)
                (BaseIdentifier
                   (if getOptionalObjectType (getValueInterfaceType payloadVar) \<noteq> None
                    then ''encodeIfPresent'' else ''encode''),
                 Some [[], ''forKey'']))
             [DeclRefExpr (getName payloadVar),
              MemberRefExpr (TypeExpr (getDeclaredType caseCodingKeys)) caseCodingKey]
             [[], ''forKey'']))])"

text \<open>
  The arms of the encoding switch. \<^verbatim>\<open>DerivedConformance::enumElementPayloadSubpattern\<close> is
  declared outside the file and taken as given: for a case it yields the payload
  pattern and the variables the pattern binds.
\<close>

fun encodeCases ::
  "(EnumElementDecl \<Rightarrow> Pattern option \<times> VarDecl list) \<Rightarrow> NominalTypeDecl \<Rightarrow> EnumDecl
     \<Rightarrow> EnumElementDecl list \<Rightarrow> Abort + CaseStmt list" where
  "encodeCases enumElementPayloadSubpattern enumDecl codingKeysEnum [] = Inr []"
| "encodeCases enumElementPayloadSubpattern enumDecl codingKeysEnum (elt # elts) =
     (case enumElementPayloadSubpattern elt of
        (subpattern, payloadVars) \<Rightarrow>
          (case lookupEnumCase codingKeysEnum (getBaseIdentifier elt) of
             None \<Rightarrow> encodeCases enumElementPayloadSubpattern enumDecl codingKeysEnum elts
           | Some codingKeyCase \<Rightarrow>
               (case (if hasAnyUnnamedParameters elt then
                        Inr ([nestedContainerBinding
                                (createNestedUnkeyedContainerForKeyCall (DeclRefExpr Id_container)
                                   codingKeysEnum codingKeyCase),
                              createUnkeyedContainer ''UnkeyedEncodingContainer'' IntroducerVar
                                Id_nestedContainer]
                             @ map unkeyedEncodeStatement payloadVars)
                      else
                        (case lookupEvaluatedCodingKeysEnum (members enumDecl)
                                (combineIdentifiers Id_CodingKeys (getBaseIdentifier elt)) of
                           Inl abort \<Rightarrow> Inl abort
                         | Inr None \<Rightarrow> Inl NullDereference
                         | Inr (Some caseCodingKeys) \<Rightarrow>
                             Inr ([nestedContainerBinding
                                     (createNestedContainerKeyedByForKeyCall (DeclRefExpr Id_container)
                                        caseCodingKeys codingKeysEnum codingKeyCase),
                                   createKeyedContainer ''KeyedEncodingContainer''
                                     (getDeclaredType caseCodingKeys) IntroducerVar Id_nestedContainer]
                                  @ concat (map (keyedEncodeStatements caseCodingKeys) payloadVars)))) of
                  Inl abort \<Rightarrow> Inl abort
                | Inr caseStatements \<Rightarrow>
                    (case encodeCases enumElementPayloadSubpattern enumDecl codingKeysEnum elts of
                       Inl abort \<Rightarrow> Inl abort
                     | Inr cases \<Rightarrow>
                         Inr (CaseStmt
                                (CaseLabelItem
                                   (EnumElementPattern (NominalType (nominalName enumDecl))
                                      (getBaseIdentifier elt) subpattern))
                                caseStatements
                                (if payloadVars \<noteq> [] then Some (map getName payloadVars) else None)
                              # cases)))))"

definition deriveBodyEncodable_enum_encode ::
  "(EnumElementDecl \<Rightarrow> Pattern option \<times> VarDecl list) \<Rightarrow> NominalTypeDecl \<Rightarrow> Abort + ASTNode list" where
  "deriveBodyEncodable_enum_encode enumElementPayloadSubpattern enumDecl =
     (case lookupEvaluatedCodingKeysEnum (members enumDecl) Id_CodingKeys of
        Inl abort \<Rightarrow> Inl abort
      | Inr None \<Rightarrow> Inl AssertionFailed
      | Inr (Some codingKeysEnum) \<Rightarrow>
          (case encodeCases enumElementPayloadSubpattern enumDecl codingKeysEnum
                  (getAllElements enumDecl) of
             Inl abort \<Rightarrow> Inl abort
           | Inr cases \<Rightarrow>
               Inr (encodePrelude codingKeysEnum @ [SwitchStmt SelfDeclRef cases])))"

section \<open>Predicates of the statements and example declarations\<close>

definition extends :: "DerivedConformance \<Rightarrow> DerivedConformance \<Rightarrow> bool" where
  "extends derived derived' =
     (\<exists>added. derived' = derived\<lparr>Nominal := (Nominal derived)\<lparr>members := members (Nominal derived) @ added\<rparr>\<rparr>)"

definition needsCaseEnum :: "EnumDecl \<Rightarrow> Decl list \<Rightarrow> EnumElementDecl \<Rightarrow> bool" where
  "needsCaseEnum codingKeysEnum ms elt =
     (lookupEnumCase codingKeysEnum (getBaseIdentifier elt) \<noteq> None
      \<and> lookupDirect ms (combineIdentifiers Id_CodingKeys (getBaseIdentifier elt)) = []
      \<and> \<not> hasAnyUnnamedParameters elt)"

definition paramsOf :: "EnumElementDecl \<Rightarrow> VarDecl list" where
  "paramsOf elt = (case getParameterList elt of None \<Rightarrow> [] | Some params \<Rightarrow> params)"

definition storedVar :: "Identifier \<Rightarrow> Type \<Rightarrow> VarDecl" where
  "storedVar n t =
     \<lparr>getName = n, getValueInterfaceType = t, isStatic = False, isLet = False, hasStorage = True,
      isUserAccessible = True, isParentInitialized = False, getParentPatternBinding = Some False,
      hasDefaultExpr = False, getOriginalWrappedProperty = None\<rparr>"

definition userKeyEnum :: "Identifier \<Rightarrow> Identifier list \<Rightarrow> EnumDecl" where
  "userKeyEnum n cases =
     \<lparr>enumName = n, enumMembers = map ElementM cases, enumIsImplicit = False,
      enumAccess = Internal, conformsToCodingKey = True\<rparr>"

definition derivation :: "NominalTypeDecl \<Rightarrow> KnownProtocolKind \<Rightarrow> DerivedConformance" where
  "derivation t p =
     \<lparr>Nominal = t, Protocol = p, conformsToProtocol = (\<lambda>ty kpk. True), disallowedContext = None,
      copyFormalAccessFrom = (\<lambda>a. if a = Private then FilePrivate else a),
      conformanceContextMembers = []\<rparr>"

definition initFrom :: DeclName where
  "initFrom = (Constructor, Some [''from''])"

definition encodeTo :: DeclName where
  "encodeTo = (BaseIdentifier ''encode'', Some [''to''])"

definition designatedInit :: "DeclName \<Rightarrow> ConstructorDecl" where
  "designatedInit n =
     \<lparr>ctorName = n, isDesignatedInit = True, isAccessibleFrom = True, isFailable = False,
      hasThrows = False\<rparr>"

definition codableSuperclass :: SuperclassDecl where
  "codableSuperclass =
     \<lparr>superConformsTo = (\<lambda>kpk. True), superInits = [designatedInit initFrom],
      superInheritedInits = []\<rparr>"

definition exampleDog :: NominalTypeDecl where
  "exampleDog =
     \<lparr>nominalName = ''Dog'', kind = ClassKind,
      members = [VarD (storedVar ''name'' (NominalType ''String'')) None,
                 TypeD (EnumT (userKeyEnum ''CodingKeys'' [''name'']))],
      isFinal = False, getFormalAccess = Private, getSuperclassDecl = Some codableSuperclass,
      conformsToEncodable = True\<rparr>"

definition plainSuperclass :: "ConstructorDecl list \<Rightarrow> SuperclassDecl" where
  "plainSuperclass inits =
     \<lparr>superConformsTo = (\<lambda>kpk. False), superInits = inits, superInheritedInits = []\<rparr>"

definition exampleSubclass :: "SuperclassDecl \<Rightarrow> NominalTypeDecl" where
  "exampleSubclass superclassDecl =
     \<lparr>nominalName = ''Sub'', kind = ClassKind,
      members = [VarD (storedVar ''x'' (NominalType ''Int'')) None],
      isFinal = False, getFormalAccess = Internal, getSuperclassDecl = Some superclassDecl,
      conformsToEncodable = False\<rparr>"

definition initNoArguments :: DeclName where
  "initNoArguments = (Constructor, Some [])"

definition optionalOf :: "Type \<Rightarrow> Type" where
  "optionalOf t = BoundGenericType ''Optional'' [t]"

definition exampleEmpty :: NominalTypeDecl where
  "exampleEmpty =
     \<lparr>nominalName = ''Empty'', kind = StructKind,
      members = [TypeD (EnumT (implicitKeyEnum ''CodingKeys'' []))],
      isFinal = False, getFormalAccess = Internal, getSuperclassDecl = None,
      conformsToEncodable = True\<rparr>"

definition exampleUser :: NominalTypeDecl where
  "exampleUser =
     \<lparr>nominalName = ''User'', kind = StructKind,
      members = [VarD (storedVar ''name'' (NominalType ''String'')) None,
                 VarD (storedVar ''nick'' (optionalOf (NominalType ''String''))) None,
                 TypeD (EnumT (implicitKeyEnum ''CodingKeys'' [''name'', ''nick'']))],
      isFinal = False, getFormalAccess = Internal, getSuperclassDecl = None,
      conformsToEncodable = True\<rparr>"

definition parameter :: "Identifier \<Rightarrow> Type \<Rightarrow> VarDecl" where
  "parameter n t = (storedVar n t)\<lparr>hasStorage := False, getParentPatternBinding := None\<rparr>"

definition exampleShapeCases :: "Decl list" where
  "exampleShapeCases =
     [EnumElementD \<lparr>getBaseIdentifier = ''circle'',
                    getParameterList = Some [parameter ''radius'' (NominalType ''Double'')]\<rparr>,
      EnumElementD \<lparr>getBaseIdentifier = ''pair'',
                    getParameterList = Some [parameter [] (NominalType ''Int''),
                                             parameter [] (NominalType ''Int'')]\<rparr>,
      EnumElementD \<lparr>getBaseIdentifier = ''tagged'',
                    getParameterList = Some [parameter ''tag'' (NominalType ''String''),
                                             parameter [] (NominalType ''Int'')]\<rparr>,
      EnumElementD \<lparr>getBaseIdentifier = ''empty'', getParameterList = None\<rparr>]"

definition exampleShape :: NominalTypeDecl where
  "exampleShape =
     \<lparr>nominalName = ''Shape'', kind = EnumKind, members = exampleShapeCases,
      isFinal = False, getFormalAccess = Internal, getSuperclassDecl = None,
      conformsToEncodable = False\<rparr>"

definition exampleShapeKeys :: "Decl list" where
  "exampleShapeKeys =
     [TypeD (EnumT (implicitKeyEnum ''CodingKeys'' [''circle'', ''pair'', ''tagged'', ''empty''])),
      TypeD (EnumT (implicitKeyEnum ''CodingKeys_circle'' [''radius''])),
      TypeD (EnumT (implicitKeyEnum ''CodingKeys_empty'' []))]"

definition exampleShapeSynthesized :: NominalTypeDecl where
  "exampleShapeSynthesized = exampleShape\<lparr>members := exampleShapeCases @ exampleShapeKeys\<rparr>"

definition labelledPayload :: "EnumElementDecl \<Rightarrow> Pattern option \<times> VarDecl list" where
  "labelledPayload elt =
     (case getParameterList elt of
        None \<Rightarrow> (None, [])
      | Some params \<Rightarrow>
          (Some (TuplePattern (map (\<lambda>p. (getName p, NamedPattern (getName p))) params)), params))"



text \<open>
  The outer key enum the synthesizer works with: the one the target declares, or the
  one it synthesizes, with a case for every case of the target.
\<close>

definition outerKeyEnum :: "NominalTypeDecl \<Rightarrow> EnumDecl" where
  "outerKeyEnum target =
     (case lookupEvaluatedCodingKeysEnum (members target) Id_CodingKeys of
        Inr (Some codingKeysEnum) \<Rightarrow> codingKeysEnum
      | _ \<Rightarrow> implicitKeyEnum Id_CodingKeys (map getBaseIdentifier (getAllElements target)))"

text \<open>
  What the classifier finds under the name \<open>CodingKeys_<case>\<close> for a case of the target:
  nothing, a declaration that is not an enum conforming to \<open>CodingKey\<close>, or a key enum.
\<close>

definition caseKeysMalformed :: "Decl list \<Rightarrow> EnumElementDecl \<Rightarrow> bool" where
  "caseKeysMalformed ms elt =
     (case lookupDirect ms (combineIdentifiers Id_CodingKeys (getBaseIdentifier elt)) of
        [] \<Rightarrow> False
      | front # others \<Rightarrow> fst (validateCodingKeysProtocolConformance front) = None)"

definition caseKeysEnum :: "Decl list \<Rightarrow> EnumElementDecl \<Rightarrow> EnumDecl option" where
  "caseKeysEnum ms elt =
     (case lookupDirect ms (combineIdentifiers Id_CodingKeys (getBaseIdentifier elt)) of
        [] \<Rightarrow> None
      | front # others \<Rightarrow> fst (validateCodingKeysProtocolConformance front))"

definition exampleTagged :: "Identifier list \<Rightarrow> Identifier list \<Rightarrow> NominalTypeDecl" where
  "exampleTagged outerCases caseCases =
     \<lparr>nominalName = ''Tagged'', kind = EnumKind,
      members = [EnumElementD \<lparr>getBaseIdentifier = ''a'',
                               getParameterList = Some [parameter ''x'' (NominalType ''Int'')]\<rparr>,
                 TypeD (EnumT (userKeyEnum ''CodingKeys'' outerCases)),
                 TypeD (EnumT (userKeyEnum ''CodingKeys_a'' caseCases))],
      isFinal = False, getFormalAccess = Internal, getSuperclassDecl = None,
      conformsToEncodable = False\<rparr>"

text \<open>
  The names a well-formed target keeps apart: the coding names of its stored
  properties, the names of its cases, and the labels of the parameters of each case
  whose parameters are all named.
\<close>

definition distinctNames :: "NominalTypeDecl \<Rightarrow> bool" where
  "distinctNames target =
     (distinct (map getVarNameForCoding (filter isUserAccessible (getStoredProperties target)))
      \<and> distinct (map getBaseIdentifier (getAllElements target))
      \<and> (\<forall>elt \<in> set (getAllElements target). \<not> hasAnyUnnamedParameters elt \<longrightarrow>
            distinct (map getVarNameForCoding (filter isUserAccessible (paramsOf elt)))))"

text \<open>Whether some case of the target has no declaration named \<open>CodingKeys_<case>\<close>.\<close>

definition someCaseWithoutKeyEnum :: "NominalTypeDecl \<Rightarrow> bool" where
  "someCaseWithoutKeyEnum target =
     (\<exists>elt \<in> set (getAllElements target).
        lookupDirect (members target) (combineIdentifiers Id_CodingKeys (getBaseIdentifier elt)) = [])"

text \<open>The nested key enum the synthesizer adds for a case whose parameters all conform.\<close>

definition caseKeyEnumDecl :: "EnumElementDecl \<Rightarrow> Decl" where
  "caseKeyEnumDecl elt =
     TypeD (EnumT (implicitKeyEnum (combineIdentifiers Id_CodingKeys (getBaseIdentifier elt))
                     (map getVarNameForCoding (filter isUserAccessible (paramsOf elt)))))"

text \<open>
  The property a key of a struct or class stands for: going through the members in
  order, the first variable of that name whose coded property is not static. The coded
  property of a member with a property wrapper is its backing property, and of every
  other member the member itself.
\<close>

fun codedProperty :: "Decl list \<Rightarrow> Identifier \<Rightarrow> VarDecl option" where
  "codedProperty [] key = None"
| "codedProperty (VarD v None # decls) key =
     (if getName v = key \<and> \<not> isStatic v then Some v else codedProperty decls key)"
| "codedProperty (VarD v (Some backingVar) # decls) key =
     (if getName v = key \<and> \<not> isStatic backingVar then Some backingVar
      else codedProperty decls key)"
| "codedProperty (decl # decls) key = codedProperty decls key"

text \<open>Whether a type is optional at one level, and the type with that level removed.\<close>

fun isOptional :: "Type \<Rightarrow> bool" where
  "isOptional (BoundGenericType n [t]) = (n = ''Optional'')"
| "isOptional t = False"

fun unwrapped :: "Type \<Rightarrow> Type" where
  "unwrapped (BoundGenericType n [t]) = (if n = ''Optional'' then t else BoundGenericType n [t])"
| "unwrapped t = t"

text \<open>
  A struct with the wrapped member \<open>@Wrapper var nick: String?\<close>, whose backing property is
  \<open>_nick: Wrapper<String?>\<close>, and the immutable member \<open>let version = 1\<close>.
\<close>

definition exampleProfile :: NominalTypeDecl where
  "exampleProfile =
     \<lparr>nominalName = ''Profile'', kind = StructKind,
      members =
        [VarD ((storedVar ''nick'' (optionalOf (NominalType ''String'')))\<lparr>hasStorage := False\<rparr>)
           (Some ((storedVar ''_nick'' (BoundGenericType ''Wrapper'' [optionalOf (NominalType ''String'')]))
                    \<lparr>getOriginalWrappedProperty := Some ''nick''\<rparr>)),
         VarD ((storedVar ''_nick'' (BoundGenericType ''Wrapper'' [optionalOf (NominalType ''String'')]))
                 \<lparr>getOriginalWrappedProperty := Some ''nick''\<rparr>) None,
         VarD ((storedVar ''version'' (NominalType ''Int''))
                 \<lparr>isLet := True, isParentInitialized := True\<rparr>) None,
         TypeD (EnumT (implicitKeyEnum ''CodingKeys'' [''nick'', ''version'']))],
      isFinal = False, getFormalAccess = Internal, getSuperclassDecl = None,
      conformsToEncodable = True\<rparr>"


text \<open>
  What the classifier does with one case of an enum target: whether the declaration
  named \<open>CodingKeys_<case>\<close>, if there is one, fails its check, being no enum that conforms
  to \<open>CodingKey\<close> or failing the validator against the parameters of the case; and the
  diagnostics of that check.
\<close>

definition caseKeysFail :: "DerivedConformance \<Rightarrow> EnumElementDecl \<Rightarrow> bool" where
  "caseKeysFail derived elt =
     (caseKeysMalformed (members (Nominal derived)) elt
      \<or> (case caseKeysEnum (members (Nominal derived)) elt of
            None \<Rightarrow> False
          | Some e \<Rightarrow> \<not> fst (validateCaseCodingKeysEnum derived elt e)))"

definition caseKeysDiagnostics :: "DerivedConformance \<Rightarrow> EnumElementDecl \<Rightarrow> Diagnostic list" where
  "caseKeysDiagnostics derived elt =
     (case lookupDirect (members (Nominal derived))
             (combineIdentifiers Id_CodingKeys (getBaseIdentifier elt)) of
        [] \<Rightarrow> []
      | front # others \<Rightarrow>
          snd (validateCodingKeysProtocolConformance front)
          @ (case fst (validateCodingKeysProtocolConformance front) of
               None \<Rightarrow> []
             | Some e \<Rightarrow> snd (validateCaseCodingKeysEnum derived elt e)))"

text \<open>
  An enum with the cases \<open>a(x: Int)\<close> and \<open>b(y: Int)\<close>, the outer key enum, and a key enum
  for each case with the given cases.
\<close>

definition exampleTwoCases :: "Identifier list \<Rightarrow> Identifier list \<Rightarrow> NominalTypeDecl" where
  "exampleTwoCases casesOfA casesOfB =
     \<lparr>nominalName = ''Two'', kind = EnumKind,
      members = [EnumElementD \<lparr>getBaseIdentifier = ''a'',
                               getParameterList = Some [parameter ''x'' (NominalType ''Int'')]\<rparr>,
                 EnumElementD \<lparr>getBaseIdentifier = ''b'',
                               getParameterList = Some [parameter ''y'' (NominalType ''Int'')]\<rparr>,
                 TypeD (EnumT (userKeyEnum ''CodingKeys'' [''a'', ''b''])),
                 TypeD (EnumT (userKeyEnum ''CodingKeys_a'' casesOfA)),
                 TypeD (EnumT (userKeyEnum ''CodingKeys_b'' casesOfB))],
      isFinal = False, getFormalAccess = Internal, getSuperclassDecl = None,
      conformsToEncodable = False\<rparr>"

section \<open>Properties\<close>

lemma synthesizeCaseEnums_skip:
  "\<not> needsCaseEnum ck (members (Nominal d)) e \<Longrightarrow>
   synthesizeCaseEnums ck (e # elts) d ok ds = synthesizeCaseEnums ck elts d ok ds"
  by (cases "lookupEnumCase ck (getBaseIdentifier e)") (simp_all add: needsCaseEnum_def Let_def)

lemma synthesizeCaseEnums_add:
  "needsCaseEnum ck (members (Nominal d)) e \<Longrightarrow>
   addParams d (paramsOf e) [] ok ds = (cs, ok', ds') \<Longrightarrow>
   synthesizeCaseEnums ck (e # elts) d ok ds =
     synthesizeCaseEnums ck elts
       (addMember (TypeD (EnumT (implicitKeyEnum (combineIdentifiers Id_CodingKeys (getBaseIdentifier e)) cs))) d)
       ok' ds'"
  by (cases "lookupEnumCase ck (getBaseIdentifier e)") (simp_all add: needsCaseEnum_def Let_def paramsOf_def)

declare synthesizeCaseEnums.simps(2) [simp del]

lemma extends_refl: "extends d d"
  unfolding extends_def by (rule exI[of _ "[]"]) simp

lemma extends_trans: "extends a b \<Longrightarrow> extends b c \<Longrightarrow> extends a c"
  unfolding extends_def by (elim exE, rule_tac x="added @ addeda" in exI) simp

lemma extends_addMember: "extends d (addMember decl d)"
  unfolding extends_def addMember_def by (rule exI[of _ "[decl]"]) simp

lemma synthesizeCaseEnums_extends:
  "synthesizeCaseEnums ck elts d ok ds = (d', ok', ds') \<Longrightarrow> extends d d'"
proof (induction elts arbitrary: d ok ds)
  case Nil
  then show ?case by (simp add: extends_refl)
next
  case (Cons e elts)
  show ?case
  proof (cases "needsCaseEnum ck (members (Nominal d)) e")
    case False
    with Cons.prems have "synthesizeCaseEnums ck elts d ok ds = (d', ok', ds')"
      by (simp add: synthesizeCaseEnums_skip)
    then show ?thesis by (rule Cons.IH)
  next
    case True
    obtain cs okA dsA where a: "addParams d (paramsOf e) [] ok ds = (cs, okA, dsA)"
      by (metis prod_cases3)
    let ?d1 = "addMember (TypeD (EnumT (implicitKeyEnum (combineIdentifiers Id_CodingKeys (getBaseIdentifier e)) cs))) d"
    from True Cons.prems a have "synthesizeCaseEnums ck elts ?d1 okA dsA = (d', ok', ds')"
      by (simp add: synthesizeCaseEnums_add)
    then have "extends ?d1 d'" by (rule Cons.IH)
    then show ?thesis using extends_addMember extends_trans by blast
  qed
qed

lemma synthesizeCodingKeysEnum_enum_extends:
  "synthesizeCodingKeysEnum_enum d = Inr (ok, d', ds) \<Longrightarrow> extends d d'"
  unfolding synthesizeCodingKeysEnum_enum_def
  by (auto simp: Let_def split: prod.splits option.splits sum.splits
      dest!: synthesizeCaseEnums_extends intro: extends_trans[OF extends_addMember])

lemma synthesizeCodingKeysEnum_extends:
  "synthesizeCodingKeysEnum d = Inr (ok, d', ds) \<Longrightarrow> extends d d'"
  unfolding synthesizeCodingKeysEnum_def
  by (auto simp: Let_def extends_refl extends_addMember split: if_splits prod.splits
      dest: synthesizeCodingKeysEnum_enum_extends)

lemma canSynthesize_extends:
  "canSynthesize d r = Inr (ok, d', ds) \<Longrightarrow> extends d d'"
  unfolding canSynthesize_def
  by (auto simp: extends_refl split: option.splits prod.splits sum.splits
      CodingKeysClassification.splits
      dest: synthesizeCodingKeysEnum_extends)

lemmas lookup_defs = lookupDirect_def enumLookupDirect_def enumAllElements_def getAllElements_def
  getStoredProperties_def lookupEvaluatedCodingKeysEnum_def lookupEnumCase_def lookupMember_def
  Id_CodingKeys_def Id_super_def combineIdentifiers_def getVarNameForCoding_def
  hasAnyUnnamedParameters_def hasAssociatedValues_def superclassConformsTo_def

lemmas gate_defs = deriveDecodable_def deriveEncodable_def canSynthesize_def checkSuperInit_def
  classifyCodingKeys_def validateCodingKeysEnum_def validateCaseCodingKeysEnum_def
  collectProperties_def synthesizeCodingKeysEnum_def synthesizeCodingKeysEnum_enum_def
  implicitKeyEnum_def addMember_def deriveDecodable_init_def deriveEncodable_encode_def
  addMembersToConformanceContext_def

lemmas example_defs = storedVar_def userKeyEnum_def derivation_def initFrom_def encodeTo_def
  designatedInit_def codableSuperclass_def exampleDog_def

lemma deriveDecodable_frame:
  assumes "deriveDecodable derived requirement = Inr (Some initDecl, derived', diags)"
  shows "\<exists>derived0. extends derived derived0 \<and> deriveDecodable_init derived0 = (initDecl, derived')"
proof -
  from assms obtain ok d0 ds where c: "canSynthesize derived requirement = Inr (ok, d0, ds)"
    by (auto simp: deriveDecodable_def split: if_splits option.splits sum.splits)
  with assms have "ok" and "deriveDecodable_init d0 = (initDecl, derived')"
    by (auto simp: deriveDecodable_def split: if_splits option.splits prod.splits bool.splits)
  with canSynthesize_extends[OF c] show ?thesis by blast
qed

lemma deriveEncodable_frame:
  assumes "deriveEncodable derived requirement = Inr (Some encodeDecl, derived', diags)"
  shows "\<exists>derived0. extends derived derived0 \<and> deriveEncodable_encode derived0 = (encodeDecl, derived')"
proof -
  from assms obtain ok d0 ds where c: "canSynthesize derived requirement = Inr (ok, d0, ds)"
    by (auto simp: deriveEncodable_def split: if_splits option.splits sum.splits)
  with assms have "ok" and "deriveEncodable_encode d0 = (encodeDecl, derived')"
    by (auto simp: deriveEncodable_def split: if_splits option.splits prod.splits bool.splits)
  with canSynthesize_extends[OF c] show ?thesis by blast
qed

subsection \<open>C10: the declarations of the witnesses\<close>

text \<open>
  Claim C10. Whenever \<open>deriveDecodable\<close> returns a witness, that \<open>init(from:)\<close> is
  throwing and not failable, its access is the formal access of the target type
  passed through \<open>copyFormalAccessFrom\<close>, and it carries the implicit \<open>required\<close>
  attribute exactly when the target is a class that is not final. Whenever
  \<open>deriveEncodable\<close> returns a witness, that \<open>encode(to:)\<close> carries the implicit
  \<open>override\<close> attribute exactly when the superclass conforms to \<open>Encodable\<close>.
\<close>

theorem C10_witness_declarations:
  "(deriveDecodable derived requirement = Inr (Some initDecl, derived', diags) \<longrightarrow>
      witnessThrows initDecl \<and> \<not> witnessFailable initDecl
      \<and> witnessAccess initDecl = copyFormalAccessFrom derived (getFormalAccess (Nominal derived))
      \<and> (RequiredAttr True \<in> set (witnessAttrs initDecl)
           = (kind (Nominal derived) = ClassKind \<and> \<not> isFinal (Nominal derived))))
   \<and> (deriveEncodable derived requirement2 = Inr (Some encodeDecl, derived2, diags2) \<longrightarrow>
      (OverrideAttr True \<in> set (witnessAttrs encodeDecl))
        = superclassConformsTo (Nominal derived) Encodable)"
proof (intro conjI impI)
  assume a: "deriveDecodable derived requirement = Inr (Some initDecl, derived', diags)"
  from deriveDecodable_frame[OF a] obtain d0 where
    e: "extends derived d0" and i: "deriveDecodable_init d0 = (initDecl, derived')" by blast
  from e obtain added where
    d0: "d0 = derived\<lparr>Nominal := (Nominal derived)\<lparr>members := members (Nominal derived) @ added\<rparr>\<rparr>"
    unfolding extends_def by blast
  from i show "witnessThrows initDecl" "\<not> witnessFailable initDecl"
    "witnessAccess initDecl = copyFormalAccessFrom derived (getFormalAccess (Nominal derived))"
    "RequiredAttr True \<in> set (witnessAttrs initDecl)
       = (kind (Nominal derived) = ClassKind \<and> \<not> isFinal (Nominal derived))"
    unfolding d0 deriveDecodable_init_def by (auto simp: Let_def)
next
  assume a: "deriveEncodable derived requirement2 = Inr (Some encodeDecl, derived2, diags2)"
  from deriveEncodable_frame[OF a] obtain d0 where
    e: "extends derived d0" and i: "deriveEncodable_encode d0 = (encodeDecl, derived2)" by blast
  from e obtain added where
    d0: "d0 = derived\<lparr>Nominal := (Nominal derived)\<lparr>members := members (Nominal derived) @ added\<rparr>\<rparr>"
    unfolding extends_def by blast
  from i show "(OverrideAttr True \<in> set (witnessAttrs encodeDecl))
        = superclassConformsTo (Nominal derived) Encodable"
    unfolding d0 deriveEncodable_encode_def by (auto simp: Let_def superclassConformsTo_def)
qed

lemma exampleDog_init:
  "\<exists>derived'. deriveDecodable (derivation exampleDog Decodable) initFrom =
     Inr (Some \<lparr>witnessName = (Constructor, Some [''from'']), witnessThrows = True,
                witnessFailable = False, witnessAttrs = [RequiredAttr True],
                witnessAccess = FilePrivate,
                witnessBodySynthesizer = deriveBodyDecodable_init_fn\<rparr>, derived', [])"
  by (simp add: gate_defs lookup_defs example_defs Let_def)

lemma exampleDog_encode:
  "\<exists>derived'. deriveEncodable (derivation exampleDog Encodable) encodeTo =
     Inr (Some \<lparr>witnessName = (BaseIdentifier ''encode'', Some [''to'']), witnessThrows = True,
                witnessFailable = False, witnessAttrs = [OverrideAttr True],
                witnessAccess = FilePrivate,
                witnessBodySynthesizer = deriveBodyEncodable_encode_fn\<rparr>, derived', [])"
  by (simp add: gate_defs lookup_defs example_defs Let_def)

theorem C10_witness_declarations_witness:
  "(\<exists>initDecl derived' diags.
      deriveDecodable (derivation exampleDog Decodable) initFrom = Inr (Some initDecl, derived', diags)
      \<and> witnessThrows initDecl \<and> \<not> witnessFailable initDecl
      \<and> witnessAccess initDecl = FilePrivate
      \<and> RequiredAttr True \<in> set (witnessAttrs initDecl))
   \<and> (\<exists>encodeDecl derived' diags.
      deriveEncodable (derivation exampleDog Encodable) encodeTo = Inr (Some encodeDecl, derived', diags)
      \<and> OverrideAttr True \<in> set (witnessAttrs encodeDecl))"
proof -
  obtain initDecl d1 ds1 where
    i: "deriveDecodable (derivation exampleDog Decodable) initFrom = Inr (Some initDecl, d1, ds1)"
    using exampleDog_init by blast
  obtain encodeDecl d2 ds2 where
    e: "deriveEncodable (derivation exampleDog Encodable) encodeTo = Inr (Some encodeDecl, d2, ds2)"
    using exampleDog_encode by blast
  have k: "kind exampleDog = ClassKind" "\<not> isFinal exampleDog" "getFormalAccess exampleDog = Private"
    "superclassConformsTo exampleDog Encodable"
    by (simp_all add: example_defs superclassConformsTo_def)
  from C10_witness_declarations[of "derivation exampleDog Decodable" initFrom initDecl d1 ds1] i k
  have "witnessThrows initDecl \<and> \<not> witnessFailable initDecl
      \<and> witnessAccess initDecl = FilePrivate
      \<and> RequiredAttr True \<in> set (witnessAttrs initDecl)"
    by (simp add: derivation_def)
  moreover
  from C10_witness_declarations[of "derivation exampleDog Encodable" _ _ _ _ encodeTo encodeDecl d2 ds2] e k
  have "OverrideAttr True \<in> set (witnessAttrs encodeDecl)"
    by (simp add: derivation_def)
  ultimately show ?thesis using i e by blast
qed

lemmas example_defs2 = plainSuperclass_def exampleSubclass_def initNoArguments_def

subsection \<open>C8: the pre-check of the superclass initializer\<close>

text \<open>
  Claim C8, amended. Deriving \<open>Decodable\<close> for a class with a superclass, the gate looks up
  \<open>init(from:)\<close> when the superclass conforms to \<open>Decodable\<close> and the initializer without
  arguments otherwise. A missing, a non-designated, an inaccessible and a failable
  initializer each emit their own diagnostic after the two generic ones and no witness
  is returned; an ambiguous lookup returns no witness either, with the two generic
  diagnostics alone. A single designated, accessible, non-failable initializer passes
  the pre-check.
\<close>

theorem C8_super_init_precheck:
  assumes "Protocol derived = Decodable" and "kind (Nominal derived) = ClassKind"
    and "getSuperclassDecl (Nominal derived) = Some superclassDecl"
    and "fst requirement = Constructor" and "disallowedContext derived = None"
    and "found = lookupMember superclassDecl
                   (if superConformsTo superclassDecl Decodable then requirement
                    else (Constructor, Some []))"
  shows "(found = [] \<longrightarrow>
            deriveDecodable derived requirement =
              Inr (None, derived, [type_does_not_conform, no_witnesses, decodable_no_super_init_here]))
       \<and> (1 < length found \<longrightarrow>
            deriveDecodable derived requirement =
              Inr (None, derived, [type_does_not_conform, no_witnesses]))
       \<and> (\<forall>initializer. found = [initializer] \<longrightarrow>
            (\<not> isDesignatedInit initializer \<longrightarrow>
               deriveDecodable derived requirement =
                 Inr (None, derived,
                      [type_does_not_conform, no_witnesses, decodable_super_init_not_designated_here]))
          \<and> (isDesignatedInit initializer \<and> \<not> isAccessibleFrom initializer \<longrightarrow>
               deriveDecodable derived requirement =
                 Inr (None, derived,
                      [type_does_not_conform, no_witnesses, decodable_inaccessible_super_init_here]))
          \<and> (isDesignatedInit initializer \<and> isAccessibleFrom initializer \<and> isFailable initializer \<longrightarrow>
               deriveDecodable derived requirement =
                 Inr (None, derived,
                      [type_does_not_conform, no_witnesses, decodable_super_init_is_failable_here]))
          \<and> (isDesignatedInit initializer \<and> isAccessibleFrom initializer \<and> \<not> isFailable initializer \<longrightarrow>
               checkSuperInit derived requirement = None))"
proof -
  have gate: "\<And>diags. checkSuperInit derived requirement = Some diags \<Longrightarrow>
      deriveDecodable derived requirement =
        Inr (None, derived, [type_does_not_conform, no_witnesses] @ diags)"
    using assms(2,4,5) by (simp add: deriveDecodable_def canSynthesize_def)
  have pre: "checkSuperInit derived requirement =
      (case found of
         [] \<Rightarrow> Some [decodable_no_super_init_here]
       | [initializer] \<Rightarrow>
           if \<not> isDesignatedInit initializer then Some [decodable_super_init_not_designated_here]
           else if \<not> isAccessibleFrom initializer then Some [decodable_inaccessible_super_init_here]
           else if isFailable initializer then Some [decodable_super_init_is_failable_here]
           else None
       | initializer # others \<Rightarrow> Some [])"
    using assms(1,2,3,6) by (simp add: checkSuperInit_def Let_def)
  show ?thesis
  proof (cases found)
    case Nil
    with pre gate show ?thesis by simp
  next
    case (Cons i rest)
    show ?thesis
    proof (cases rest)
      case Nil
      with Cons pre gate show ?thesis by simp
    next
      case (Cons j rest')
      with \<open>found = i # rest\<close> pre gate show ?thesis by simp
    qed
  qed
qed

text \<open>
  Claim C8 as stated fails for an ambiguous initializer: with two initializers without
  arguments on the superclass no witness is produced, and no diagnostic is emitted
  besides the two generic ones.
\<close>

theorem C8_counterexample:
  "length (lookupMember (plainSuperclass [designatedInit initNoArguments, designatedInit initNoArguments])
             initNoArguments) = 2
   \<and> deriveDecodable
         (derivation (exampleSubclass
            (plainSuperclass [designatedInit initNoArguments, designatedInit initNoArguments]))
            Decodable) initFrom
       = Inr (None,
              derivation (exampleSubclass
                (plainSuperclass [designatedInit initNoArguments, designatedInit initNoArguments]))
                Decodable,
              [type_does_not_conform, no_witnesses])"
  by (simp add: gate_defs lookup_defs example_defs example_defs2 Let_def)

theorem C8_super_init_precheck_witness:
  "deriveDecodable
     (derivation (exampleSubclass (plainSuperclass [(designatedInit initNoArguments)\<lparr>isFailable := True\<rparr>]))
        Decodable) initFrom =
   Inr (None,
        derivation (exampleSubclass (plainSuperclass [(designatedInit initNoArguments)\<lparr>isFailable := True\<rparr>]))
          Decodable,
        [type_does_not_conform, no_witnesses, decodable_super_init_is_failable_here])"
  using C8_super_init_precheck[of
      "derivation (exampleSubclass (plainSuperclass [(designatedInit initNoArguments)\<lparr>isFailable := True\<rparr>])) Decodable"
      "plainSuperclass [(designatedInit initNoArguments)\<lparr>isFailable := True\<rparr>]"
      initFrom
      "[(designatedInit initNoArguments)\<lparr>isFailable := True\<rparr>]"]
  by (simp add: example_defs example_defs2 lookupMember_def)

lemmas body_defs = deriveBodyEncodable_encode_def deriveBodyDecodable_init_def
  deriveBodyDecodable_enum_init_def deriveBodyEncodable_enum_encode_def
  superInitStatements_def lookupVarDeclForCodingKeysCase_def notDecodedDiagnostics_def

lemmas prelude_defs = encodePrelude_def decodePrelude_def containerBinding_def
  createContainerKeyedByCall_def createKeyedContainer_def getDeclaredType_def Id_container_def

lemmas example_defs3 = optionalOf_def exampleEmpty_def exampleUser_def implicitKeyEnum_def

lemmas example_defs4 = parameter_def exampleShapeCases_def exampleShape_def exampleShapeKeys_def
  exampleShapeSynthesized_def

lemma superInitStatements_expressions:
  "superInitStatements t = Inr stmts \<Longrightarrow> \<forall>stmt \<in> set stmts. \<exists>e. stmt = ExprNode e"
  by (auto simp: superInitStatements_def superInitFromStatement_def
      superInitStatement_def Let_def split: if_splits option.splits list.splits)

lemma exampleEmpty_bodies:
  "deriveBodyEncodable_encode exampleEmpty = Inr (encodePrelude (implicitKeyEnum ''CodingKeys'' []))"
  "deriveBodyDecodable_init exampleEmpty = Inr ([], [])"
  by (simp_all add: body_defs lookup_defs example_defs3)

lemma exampleUser_bodies:
  "deriveBodyEncodable_encode exampleUser =
     Inr (encodePrelude (implicitKeyEnum ''CodingKeys'' [''name'', ''nick''])
          @ [encodeStatement (implicitKeyEnum ''CodingKeys'' [''name'', ''nick'']) ''name''
               (storedVar ''name'' (NominalType ''String'')) False,
             encodeStatement (implicitKeyEnum ''CodingKeys'' [''name'', ''nick'']) ''nick''
               (storedVar ''nick'' (optionalOf (NominalType ''String''))) True])"
  "deriveBodyDecodable_init exampleUser =
     Inr (decodePrelude (implicitKeyEnum ''CodingKeys'' [''name'', ''nick''])
          @ [decodeStatement (implicitKeyEnum ''CodingKeys'' [''name'', ''nick'']) ''name''
               (storedVar ''name'' (NominalType ''String'')) (NominalType ''String'') False,
             decodeStatement (implicitKeyEnum ''CodingKeys'' [''name'', ''nick'']) ''nick''
               (storedVar ''nick'' (optionalOf (NominalType ''String''))) (NominalType ''String'') True], [])"
  by (simp_all add: body_defs lookup_defs example_defs3 storedVar_def)

lemma exampleShape_synthesis:
  "synthesizeCodingKeysEnum (derivation exampleShape Decodable) =
     Inr (True, derivation exampleShapeSynthesized Decodable, [])"
  by (simp add: gate_defs lookup_defs example_defs example_defs4 synthesizeCaseEnums.simps Let_def)

lemma exampleShape_decode_body:
  "\<exists>cases. deriveBodyDecodable_enum_init exampleShapeSynthesized =
     Inr (decodePrelude (implicitKeyEnum ''CodingKeys'' [''circle'', ''pair'', ''tagged'', ''empty''])
          @ [SwitchStmt allKeysFirst cases])"
  by (simp add: body_defs lookup_defs example_defs example_defs4 implicitKeyEnum_def
      decodeCaseStatements_def)

lemma exampleShape_encode_body:
  "\<exists>cases. deriveBodyEncodable_enum_encode labelledPayload exampleShapeSynthesized =
     Inr (encodePrelude (implicitKeyEnum ''CodingKeys'' [''circle'', ''pair'', ''tagged'', ''empty''])
          @ [SwitchStmt SelfDeclRef cases])"
  by (simp add: body_defs lookup_defs example_defs example_defs4 implicitKeyEnum_def
      labelledPayload_def)

lemma exampleShape_codingKeys:
  "lookupEvaluatedCodingKeysEnum (members exampleShapeSynthesized) Id_CodingKeys =
     Inr (Some (implicitKeyEnum ''CodingKeys'' [''circle'', ''pair'', ''tagged'', ''empty'']))"
  "enumAllElements (implicitKeyEnum ''CodingKeys'' [''circle'', ''pair'', ''tagged'', ''empty''])
     = [''circle'', ''pair'', ''tagged'', ''empty'']"
  by (simp_all add: lookup_defs example_defs example_defs4 implicitKeyEnum_def)

lemma exampleEmpty_codingKeys:
  "lookupEvaluatedCodingKeysEnum (members exampleEmpty) Id_CodingKeys
     = Inr (Some (implicitKeyEnum ''CodingKeys'' []))"
  "enumAllElements (implicitKeyEnum ''CodingKeys'' []) = []"
  by (simp_all add: lookup_defs example_defs3)

lemma exampleUser_codingKeys:
  "lookupEvaluatedCodingKeysEnum (members exampleUser) Id_CodingKeys
     = Inr (Some (implicitKeyEnum ''CodingKeys'' [''name'', ''nick'']))"
  "enumAllElements (implicitKeyEnum ''CodingKeys'' [''name'', ''nick'']) = [''name'', ''nick'']"
  by (simp_all add: lookup_defs example_defs3 storedVar_def)

subsection \<open>C7: the container prelude\<close>

text \<open>
  Claim C7. Every body synthesized for \<open>encode(to:)\<close>, of a struct or class and of an
  enum alike, begins with two nodes, whether or not the key enum has cases: the binding
  of \<open>container\<close> to \<open>encoder.container(keyedBy: CodingKeys.self)\<close>, and the declaration of
  \<open>var container: KeyedEncodingContainer<CodingKeys>\<close>. A body synthesized for
  \<open>init(from:)\<close> begins with the binding of \<open>container\<close> to
  \<open>try decoder.container(keyedBy: CodingKeys.self)\<close> and the declaration of
  \<open>let container: KeyedDecodingContainer<CodingKeys>\<close> when the key enum has a case. When it
  has none, the body of a struct or class holds no binding and no declaration, only
  expressions (the call of the superclass initializer, if any), and the body of an enum
  is empty.
\<close>

theorem C7_container_prelude:
  "(deriveBodyEncodable_encode targetDecl = Inr body \<longrightarrow>
      (\<exists>codingKeysEnum.
         lookupEvaluatedCodingKeysEnum (members targetDecl) Id_CodingKeys = Inr (Some codingKeysEnum)
         \<and> take 2 body =
             [PatternBindingDecl (NamedPattern ''container'')
                (CallExpr
                   (UnresolvedDotExpr (DeclRefExpr ''encoder'')
                      (BaseIdentifier ''container'', Some [''keyedBy'']))
                   [DotSelfExpr (TypeExpr (NominalType (enumName codingKeysEnum)))]
                   [''keyedBy'']),
              VarDeclNode IntroducerVar ''container''
                (BoundGenericType ''KeyedEncodingContainer''
                   [NominalType (enumName codingKeysEnum)])]))
   \<and> (deriveBodyEncodable_enum_encode payloadSubpattern targetDecl = Inr body \<longrightarrow>
      (\<exists>codingKeysEnum.
         lookupEvaluatedCodingKeysEnum (members targetDecl) Id_CodingKeys = Inr (Some codingKeysEnum)
         \<and> take 2 body =
             [PatternBindingDecl (NamedPattern ''container'')
                (CallExpr
                   (UnresolvedDotExpr (DeclRefExpr ''encoder'')
                      (BaseIdentifier ''container'', Some [''keyedBy'']))
                   [DotSelfExpr (TypeExpr (NominalType (enumName codingKeysEnum)))]
                   [''keyedBy'']),
              VarDeclNode IntroducerVar ''container''
                (BoundGenericType ''KeyedEncodingContainer''
                   [NominalType (enumName codingKeysEnum)])]))
   \<and> (deriveBodyDecodable_init targetDecl = Inr (body, diags) \<longrightarrow>
      (\<exists>codingKeysEnum.
         lookupEvaluatedCodingKeysEnum (members targetDecl) Id_CodingKeys = Inr (Some codingKeysEnum)
         \<and> (if enumAllElements codingKeysEnum = []
            then \<forall>stmt \<in> set body. \<exists>e. stmt = ExprNode e
            else take 2 body =
                   [PatternBindingDecl (NamedPattern ''container'')
                      (TryExpr
                         (CallExpr
                            (UnresolvedDotExpr (DeclRefExpr ''decoder'')
                               (BaseIdentifier ''container'', Some [''keyedBy'']))
                            [DotSelfExpr (TypeExpr (NominalType (enumName codingKeysEnum)))]
                            [''keyedBy''])),
                    VarDeclNode IntroducerLet ''container''
                      (BoundGenericType ''KeyedDecodingContainer''
                         [NominalType (enumName codingKeysEnum)])])))
   \<and> (deriveBodyDecodable_enum_init targetDecl = Inr body \<longrightarrow>
      (\<exists>codingKeysEnum.
         lookupEvaluatedCodingKeysEnum (members targetDecl) Id_CodingKeys = Inr (Some codingKeysEnum)
         \<and> (if enumAllElements codingKeysEnum = []
            then body = []
            else take 2 body =
                   [PatternBindingDecl (NamedPattern ''container'')
                      (TryExpr
                         (CallExpr
                            (UnresolvedDotExpr (DeclRefExpr ''decoder'')
                               (BaseIdentifier ''container'', Some [''keyedBy'']))
                            [DotSelfExpr (TypeExpr (NominalType (enumName codingKeysEnum)))]
                            [''keyedBy''])),
                    VarDeclNode IntroducerLet ''container''
                      (BoundGenericType ''KeyedDecodingContainer''
                         [NominalType (enumName codingKeysEnum)])])))"
proof (intro conjI impI)
  assume "deriveBodyEncodable_encode targetDecl = Inr body"
  then obtain ck rest where
    "lookupEvaluatedCodingKeysEnum (members targetDecl) Id_CodingKeys = Inr (Some ck)"
    "body = encodePrelude ck @ rest"
    by (auto simp: deriveBodyEncodable_encode_def split: option.splits sum.splits)
  then show "\<exists>codingKeysEnum.
         lookupEvaluatedCodingKeysEnum (members targetDecl) Id_CodingKeys = Inr (Some codingKeysEnum)
         \<and> take 2 body =
             [PatternBindingDecl (NamedPattern ''container'')
                (CallExpr
                   (UnresolvedDotExpr (DeclRefExpr ''encoder'')
                      (BaseIdentifier ''container'', Some [''keyedBy'']))
                   [DotSelfExpr (TypeExpr (NominalType (enumName codingKeysEnum)))]
                   [''keyedBy'']),
              VarDeclNode IntroducerVar ''container''
                (BoundGenericType ''KeyedEncodingContainer''
                   [NominalType (enumName codingKeysEnum)])]"
    by (simp add: prelude_defs)
next
  assume "deriveBodyEncodable_enum_encode payloadSubpattern targetDecl = Inr body"
  then obtain ck rest where
    "lookupEvaluatedCodingKeysEnum (members targetDecl) Id_CodingKeys = Inr (Some ck)"
    "body = encodePrelude ck @ rest"
    by (auto simp: deriveBodyEncodable_enum_encode_def split: option.splits sum.splits)
  then show "\<exists>codingKeysEnum.
         lookupEvaluatedCodingKeysEnum (members targetDecl) Id_CodingKeys = Inr (Some codingKeysEnum)
         \<and> take 2 body =
             [PatternBindingDecl (NamedPattern ''container'')
                (CallExpr
                   (UnresolvedDotExpr (DeclRefExpr ''encoder'')
                      (BaseIdentifier ''container'', Some [''keyedBy'']))
                   [DotSelfExpr (TypeExpr (NominalType (enumName codingKeysEnum)))]
                   [''keyedBy'']),
              VarDeclNode IntroducerVar ''container''
                (BoundGenericType ''KeyedEncodingContainer''
                   [NominalType (enumName codingKeysEnum)])]"
    by (simp add: prelude_defs)
next
  assume a: "deriveBodyDecodable_init targetDecl = Inr (body, diags)"
  then obtain ck where
    ck: "lookupEvaluatedCodingKeysEnum (members targetDecl) Id_CodingKeys = Inr (Some ck)"
    by (auto simp: deriveBodyDecodable_init_def split: option.splits sum.splits)
  have "if enumAllElements ck = []
        then \<forall>stmt \<in> set body. \<exists>e. stmt = ExprNode e
        else take 2 body =
                   [PatternBindingDecl (NamedPattern ''container'')
                      (TryExpr
                         (CallExpr
                            (UnresolvedDotExpr (DeclRefExpr ''decoder'')
                               (BaseIdentifier ''container'', Some [''keyedBy'']))
                            [DotSelfExpr (TypeExpr (NominalType (enumName ck)))]
                            [''keyedBy''])),
                    VarDeclNode IntroducerLet ''container''
                      (BoundGenericType ''KeyedDecodingContainer'' [NominalType (enumName ck)])]"
  proof (cases "enumAllElements ck = []")
    case True
    with a ck have "superInitStatements targetDecl = Inr body"
      by (auto simp: deriveBodyDecodable_init_def split: sum.splits)
    with True show ?thesis using superInitStatements_expressions by simp
  next
    case False
    with a ck have "\<exists>rest. body = decodePrelude ck @ rest"
      by (auto simp: deriveBodyDecodable_init_def split: sum.splits prod.splits)
    with False show ?thesis by (auto simp: prelude_defs)
  qed
  with ck show "\<exists>codingKeysEnum.
         lookupEvaluatedCodingKeysEnum (members targetDecl) Id_CodingKeys = Inr (Some codingKeysEnum)
         \<and> (if enumAllElements codingKeysEnum = []
            then \<forall>stmt \<in> set body. \<exists>e. stmt = ExprNode e
            else take 2 body =
                   [PatternBindingDecl (NamedPattern ''container'')
                      (TryExpr
                         (CallExpr
                            (UnresolvedDotExpr (DeclRefExpr ''decoder'')
                               (BaseIdentifier ''container'', Some [''keyedBy'']))
                            [DotSelfExpr (TypeExpr (NominalType (enumName codingKeysEnum)))]
                            [''keyedBy''])),
                    VarDeclNode IntroducerLet ''container''
                      (BoundGenericType ''KeyedDecodingContainer''
                         [NominalType (enumName codingKeysEnum)])])"
    by blast
next
  assume a: "deriveBodyDecodable_enum_init targetDecl = Inr body"
  then obtain ck where
    ck: "lookupEvaluatedCodingKeysEnum (members targetDecl) Id_CodingKeys = Inr (Some ck)"
    by (auto simp: deriveBodyDecodable_enum_init_def split: option.splits sum.splits)
  with a have "if enumAllElements ck = [] then body = []
        else \<exists>rest. body = decodePrelude ck @ rest"
    by (auto simp: deriveBodyDecodable_enum_init_def split: sum.splits if_splits)
  then have "if enumAllElements ck = []
        then body = []
        else take 2 body =
                   [PatternBindingDecl (NamedPattern ''container'')
                      (TryExpr
                         (CallExpr
                            (UnresolvedDotExpr (DeclRefExpr ''decoder'')
                               (BaseIdentifier ''container'', Some [''keyedBy'']))
                            [DotSelfExpr (TypeExpr (NominalType (enumName ck)))]
                            [''keyedBy''])),
                    VarDeclNode IntroducerLet ''container''
                      (BoundGenericType ''KeyedDecodingContainer'' [NominalType (enumName ck)])]"
    by (auto simp: prelude_defs split: if_splits)
  with ck show "\<exists>codingKeysEnum.
         lookupEvaluatedCodingKeysEnum (members targetDecl) Id_CodingKeys = Inr (Some codingKeysEnum)
         \<and> (if enumAllElements codingKeysEnum = []
            then body = []
            else take 2 body =
                   [PatternBindingDecl (NamedPattern ''container'')
                      (TryExpr
                         (CallExpr
                            (UnresolvedDotExpr (DeclRefExpr ''decoder'')
                               (BaseIdentifier ''container'', Some [''keyedBy'']))
                            [DotSelfExpr (TypeExpr (NominalType (enumName codingKeysEnum)))]
                            [''keyedBy''])),
                    VarDeclNode IntroducerLet ''container''
                      (BoundGenericType ''KeyedDecodingContainer''
                         [NominalType (enumName codingKeysEnum)])])"
    by blast
qed

theorem C7_container_prelude_witness:
  "(\<exists>body. deriveBodyEncodable_encode exampleEmpty = Inr body
      \<and> take 2 body =
          [PatternBindingDecl (NamedPattern ''container'')
             (CallExpr
                (UnresolvedDotExpr (DeclRefExpr ''encoder'')
                   (BaseIdentifier ''container'', Some [''keyedBy'']))
                [DotSelfExpr (TypeExpr (NominalType ''CodingKeys''))] [''keyedBy'']),
           VarDeclNode IntroducerVar ''container''
             (BoundGenericType ''KeyedEncodingContainer'' [NominalType ''CodingKeys''])])
   \<and> (\<exists>body. deriveBodyEncodable_enum_encode labelledPayload exampleShapeSynthesized = Inr body
      \<and> take 2 body =
          [PatternBindingDecl (NamedPattern ''container'')
             (CallExpr
                (UnresolvedDotExpr (DeclRefExpr ''encoder'')
                   (BaseIdentifier ''container'', Some [''keyedBy'']))
                [DotSelfExpr (TypeExpr (NominalType ''CodingKeys''))] [''keyedBy'']),
           VarDeclNode IntroducerVar ''container''
             (BoundGenericType ''KeyedEncodingContainer'' [NominalType ''CodingKeys''])])
   \<and> deriveBodyDecodable_init exampleEmpty = Inr ([], [])
   \<and> (\<exists>body. deriveBodyDecodable_init exampleUser = Inr (body, [])
      \<and> take 2 body =
          [PatternBindingDecl (NamedPattern ''container'')
             (TryExpr
                (CallExpr
                   (UnresolvedDotExpr (DeclRefExpr ''decoder'')
                      (BaseIdentifier ''container'', Some [''keyedBy'']))
                   [DotSelfExpr (TypeExpr (NominalType ''CodingKeys''))] [''keyedBy''])),
           VarDeclNode IntroducerLet ''container''
             (BoundGenericType ''KeyedDecodingContainer'' [NominalType ''CodingKeys''])])
   \<and> (\<exists>body. deriveBodyDecodable_enum_init exampleShapeSynthesized = Inr body
      \<and> take 2 body =
          [PatternBindingDecl (NamedPattern ''container'')
             (TryExpr
                (CallExpr
                   (UnresolvedDotExpr (DeclRefExpr ''decoder'')
                      (BaseIdentifier ''container'', Some [''keyedBy'']))
                   [DotSelfExpr (TypeExpr (NominalType ''CodingKeys''))] [''keyedBy''])),
           VarDeclNode IntroducerLet ''container''
             (BoundGenericType ''KeyedDecodingContainer'' [NominalType ''CodingKeys''])])"
proof -
  obtain b1 where b1: "deriveBodyEncodable_encode exampleEmpty = Inr b1"
    using exampleEmpty_bodies(1) by blast
  obtain b2 where b2: "deriveBodyEncodable_enum_encode labelledPayload exampleShapeSynthesized = Inr b2"
    using exampleShape_encode_body by blast
  obtain b3 where b3: "deriveBodyDecodable_init exampleUser = Inr (b3, [])"
    using exampleUser_bodies(2) by blast
  obtain b4 where b4: "deriveBodyDecodable_enum_init exampleShapeSynthesized = Inr b4"
    using exampleShape_decode_body by blast
  from C7_container_prelude[where targetDecl = exampleEmpty and body = b1] b1 exampleEmpty_codingKeys
  have 1: "take 2 b1 =
          [PatternBindingDecl (NamedPattern ''container'')
             (CallExpr
                (UnresolvedDotExpr (DeclRefExpr ''encoder'')
                   (BaseIdentifier ''container'', Some [''keyedBy'']))
                [DotSelfExpr (TypeExpr (NominalType ''CodingKeys''))] [''keyedBy'']),
           VarDeclNode IntroducerVar ''container''
             (BoundGenericType ''KeyedEncodingContainer'' [NominalType ''CodingKeys''])]"
    by (simp add: implicitKeyEnum_def)
  from C7_container_prelude[where targetDecl = exampleShapeSynthesized and body = b2
      and payloadSubpattern = labelledPayload] b2 exampleShape_codingKeys
  have 2: "take 2 b2 =
          [PatternBindingDecl (NamedPattern ''container'')
             (CallExpr
                (UnresolvedDotExpr (DeclRefExpr ''encoder'')
                   (BaseIdentifier ''container'', Some [''keyedBy'']))
                [DotSelfExpr (TypeExpr (NominalType ''CodingKeys''))] [''keyedBy'']),
           VarDeclNode IntroducerVar ''container''
             (BoundGenericType ''KeyedEncodingContainer'' [NominalType ''CodingKeys''])]"
    by (simp add: implicitKeyEnum_def)
  from C7_container_prelude[where targetDecl = exampleUser and body = b3 and diags = "[]"] b3
    exampleUser_codingKeys
  have 3: "take 2 b3 =
          [PatternBindingDecl (NamedPattern ''container'')
             (TryExpr
                (CallExpr
                   (UnresolvedDotExpr (DeclRefExpr ''decoder'')
                      (BaseIdentifier ''container'', Some [''keyedBy'']))
                   [DotSelfExpr (TypeExpr (NominalType ''CodingKeys''))] [''keyedBy''])),
           VarDeclNode IntroducerLet ''container''
             (BoundGenericType ''KeyedDecodingContainer'' [NominalType ''CodingKeys''])]"
    by (simp add: implicitKeyEnum_def)
  from C7_container_prelude[where targetDecl = exampleShapeSynthesized and body = b4] b4
    exampleShape_codingKeys
  have 4: "take 2 b4 =
          [PatternBindingDecl (NamedPattern ''container'')
             (TryExpr
                (CallExpr
                   (UnresolvedDotExpr (DeclRefExpr ''decoder'')
                      (BaseIdentifier ''container'', Some [''keyedBy'']))
                   [DotSelfExpr (TypeExpr (NominalType ''CodingKeys''))] [''keyedBy''])),
           VarDeclNode IntroducerLet ''container''
             (BoundGenericType ''KeyedDecodingContainer'' [NominalType ''CodingKeys''])]"
    by (simp add: implicitKeyEnum_def)
  from 1 2 3 4 b1 b2 b3 b4 exampleEmpty_bodies(2) show ?thesis by blast
qed

lemma isOptional_iff: "isOptional t = (\<exists>objType. t = BoundGenericType ''Optional'' [objType])"
  by (cases t rule: isOptional.cases) auto

lemma getOptionalObjectType_unwrapped:
  "getOptionalObjectType t = (if isOptional t then Some (unwrapped t) else None)"
  by (cases t rule: isOptional.cases) auto

lemma unwrapped_not_optional: "\<not> isOptional t \<Longrightarrow> unwrapped t = t"
  by (cases t rule: isOptional.cases) auto

lemma findVarDecl_codedProperty:
  "findVarDecl (lookupDirect ms key) =
     map_option (\<lambda>p. (p, unwrapped (getValueInterfaceType p), isOptional (getValueInterfaceType p)))
       (codedProperty ms key)"
proof (induction ms)
  case Nil
  then show ?case by (simp add: lookupDirect_def)
next
  case (Cons m ms)
  then have ih: "findVarDecl (filter (\<lambda>d. declName d = key) ms) =
     map_option (\<lambda>p. (p, unwrapped (getValueInterfaceType p), isOptional (getValueInterfaceType p)))
       (codedProperty ms key)"
    by (simp add: lookupDirect_def)
  show ?case
  proof (cases m)
    case (VarD v backingVar)
    with ih show ?thesis
      by (cases backingVar)
        (simp_all add: lookupDirect_def getOptionalObjectType_unwrapped unwrapped_not_optional Let_def)
  next
    case (EnumElementD e)
    with ih show ?thesis by (simp add: lookupDirect_def)
  next
    case (TypeD r)
    with ih show ?thesis by (cases r) (simp_all add: lookupDirect_def)
  next
    case (TypeAliasD n r)
    with ih show ?thesis by (simp add: lookupDirect_def)
  next
    case (FuncD n)
    with ih show ?thesis by (simp add: lookupDirect_def)
  qed
qed

lemma encodeElements_statements:
  "encodeElements t ck keys = Inr stmts \<Longrightarrow>
   \<exists>properties. map (codedProperty (members t)) keys = map Some properties
     \<and> stmts = map2 (\<lambda>key p. encodeStatement ck key p (isOptional (getValueInterfaceType p)))
                 keys properties"
proof (induction keys arbitrary: stmts)
  case Nil
  then show ?case by simp
next
  case (Cons key keys)
  from Cons.prems obtain p rest where
    l: "codedProperty (members t) key = Some p"
    and r: "encodeElements t ck keys = Inr rest"
    and s: "stmts = encodeStatement ck key p (isOptional (getValueInterfaceType p)) # rest"
    by (auto simp: lookupVarDeclForCodingKeysCase_def findVarDecl_codedProperty
        split: option.splits sum.splits)
  from Cons.IH[OF r] obtain ps where
    "map (codedProperty (members t)) keys = map Some ps"
    "rest = map2 (\<lambda>key p. encodeStatement ck key p (isOptional (getValueInterfaceType p))) keys ps"
    by blast
  with l s show ?case by (intro exI[of _ "p # ps"]) simp
qed

lemma decodeElements_statements:
  "decodeElements t ck keys = Inr (stmts, diags) \<Longrightarrow>
   \<exists>properties. map (codedProperty (members t)) keys = map Some properties
     \<and> stmts = map (\<lambda>(key, p). decodeStatement ck key p (unwrapped (getValueInterfaceType p))
                                (isOptional (getValueInterfaceType p)))
                 (filter (\<lambda>(key, p). \<not> (isLet p \<and> isParentInitialized p)) (zip keys properties))"
proof (induction keys arbitrary: stmts diags)
  case Nil
  then show ?case by simp
next
  case (Cons key keys)
  from Cons.prems obtain p rest ds where
    l: "codedProperty (members t) key = Some p"
    and r: "decodeElements t ck keys = Inr (rest, ds)"
    and s: "stmts = (if isLet p \<and> isParentInitialized p then rest
                     else decodeStatement ck key p (unwrapped (getValueInterfaceType p))
                            (isOptional (getValueInterfaceType p)) # rest)"
    by (auto simp: lookupVarDeclForCodingKeysCase_def findVarDecl_codedProperty
        split: option.splits sum.splits if_splits)
  from Cons.IH[OF r] obtain ps where
    "map (codedProperty (members t)) keys = map Some ps"
    "rest = map (\<lambda>(key, p). decodeStatement ck key p (unwrapped (getValueInterfaceType p))
                                (isOptional (getValueInterfaceType p)))
                 (filter (\<lambda>(key, p). \<not> (isLet p \<and> isParentInitialized p)) (zip keys ps))"
    by blast
  with l s show ?case by (intro exI[of _ "p # ps"]) simp
qed


lemma superInitStatements_shape:
  "superInitStatements t = Inr rest \<Longrightarrow>
   length rest \<le> 1
   \<and> set rest \<subseteq>
       {ExprNode (TryExpr
          (CallExpr (UnresolvedDotExpr SuperRefExpr (Constructor, Some [''from'']))
             [CallExpr (UnresolvedDotExpr (DeclRefExpr ''container'')
                          (BaseIdentifier ''superDecoder'', None)) [] []]
             [''from''])),
        ExprNode (CallExpr (UnresolvedDotExpr SuperRefExpr (Constructor, Some [])) [] []),
        ExprNode (TryExpr (CallExpr (UnresolvedDotExpr SuperRefExpr (Constructor, Some [])) [] []))}"
  by (auto simp: superInitStatements_def superInitFromStatement_def superInitStatement_def
      Id_container_def Let_def split: if_splits option.splits list.splits)

subsection \<open>C6: the if-present variants\<close>

text \<open>
  Claim C6, amended. The body synthesized for \<open>encode(to:)\<close> of a struct or class holds,
  after the two nodes of the prelude, exactly one statement for each case of the key enum,
  in the order of the cases, followed by the call of \<open>super.encode\<close> when the superclass
  conforms to \<open>Encodable\<close>, and nothing else. The statement for the case \<open>m\<close> is on the
  property the case stands for, which is the member \<open>m\<close> or, when \<open>m\<close> has a property
  wrapper, its backing property: \<open>try container.encodeIfPresent(self.p, forKey: CodingKeys.m)\<close>
  when the type of that property is optional at one level, and the same call of \<open>encode\<close>
  otherwise. The body synthesized for \<open>init(from:)\<close> holds, after the prelude, one
  assignment for each case, in order, except for the cases whose property is immutable
  with an initial value, which are not decoded:
  \<open>self.p = try container.decodeIfPresent(T.self, forKey: CodingKeys.m)\<close> when the type of
  the property is \<open>Optional<T>\<close>, and \<open>self.p = try container.decode(Type.self, forKey:
  CodingKeys.m)\<close> otherwise. At most one statement follows, a call of the superclass
  initializer.
\<close>

theorem C6_if_present_variants:
  assumes "lookupEvaluatedCodingKeysEnum (members targetDecl) Id_CodingKeys = Inr (Some codingKeysEnum)"
  shows "(deriveBodyEncodable_encode targetDecl = Inr body \<longrightarrow>
           (\<exists>properties.
              map (codedProperty (members targetDecl)) (enumAllElements codingKeysEnum)
                = map Some properties
              \<and> drop 2 body =
                  map2 (\<lambda>key p.
                          ExprNode (TryExpr
                            (CallExpr
                               (UnresolvedDotExpr (DeclRefExpr ''container'')
                                  (BaseIdentifier
                                     (if isOptional (getValueInterfaceType p)
                                      then ''encodeIfPresent'' else ''encode''),
                                   Some [[], ''forKey'']))
                               [MemberRefExpr SelfDeclRef (getName p),
                                MemberRefExpr (TypeExpr (NominalType (enumName codingKeysEnum))) key]
                               [[], ''forKey''])))
                    (enumAllElements codingKeysEnum) properties
                  @ (if superclassConformsTo targetDecl Encodable
                     then [ExprNode (TryExpr
                             (CallExpr (DotSyntaxCallExpr SuperRefExpr (DeclRefExpr ''encode''))
                                [DotSyntaxCallExpr (DeclRefExpr ''container'')
                                   (UnresolvedDeclRefExpr ''superEncoder'')]
                                [''to'']))]
                     else [])))
       \<and> (deriveBodyDecodable_init targetDecl = Inr (body', diags) \<longrightarrow>
           (\<exists>properties rest.
              map (codedProperty (members targetDecl)) (enumAllElements codingKeysEnum)
                = map Some properties
              \<and> drop (if enumAllElements codingKeysEnum = [] then 0 else 2) body' =
                  map (\<lambda>(key, p).
                         ExprNode (AssignExpr
                           (UnresolvedDotExpr SelfDeclRef (BaseIdentifier (getName p), None))
                           (TryExpr
                             (CallExpr
                                (UnresolvedDotExpr (DeclRefExpr ''container'')
                                   (BaseIdentifier
                                      (if isOptional (getValueInterfaceType p)
                                       then ''decodeIfPresent'' else ''decode''),
                                    Some [[], ''forKey'']))
                                [DotSelfExpr (TypeExpr (unwrapped (getValueInterfaceType p))),
                                 MemberRefExpr (TypeExpr (NominalType (enumName codingKeysEnum))) key]
                                [[], ''forKey'']))))
                    (filter (\<lambda>(key, p). \<not> (isLet p \<and> isParentInitialized p))
                       (zip (enumAllElements codingKeysEnum) properties))
                  @ rest
              \<and> length rest \<le> 1
              \<and> set rest \<subseteq>
                  {ExprNode (TryExpr
                     (CallExpr (UnresolvedDotExpr SuperRefExpr (Constructor, Some [''from'']))
                        [CallExpr (UnresolvedDotExpr (DeclRefExpr ''container'')
                                     (BaseIdentifier ''superDecoder'', None)) [] []]
                        [''from''])),
                   ExprNode (CallExpr (UnresolvedDotExpr SuperRefExpr (Constructor, Some [])) [] []),
                   ExprNode (TryExpr
                     (CallExpr (UnresolvedDotExpr SuperRefExpr (Constructor, Some [])) [] []))}))"
proof (intro conjI impI)
  let ?keys = "enumAllElements codingKeysEnum"
  {
    assume a: "deriveBodyEncodable_encode targetDecl = Inr body"
    with assms obtain stmts where
      e: "encodeElements targetDecl codingKeysEnum ?keys = Inr stmts"
      and b: "body = encodePrelude codingKeysEnum @ stmts
                     @ (if superclassConformsTo targetDecl Encodable then [superEncodeStatement] else [])"
      by (auto simp: deriveBodyEncodable_encode_def split: sum.splits)
    from encodeElements_statements[OF e] obtain ps where
      p: "map (codedProperty (members targetDecl)) ?keys = map Some ps"
      and s: "stmts = map2 (\<lambda>key p. encodeStatement codingKeysEnum key p
                                       (isOptional (getValueInterfaceType p))) ?keys ps"
      by blast
    have d: "drop 2 body = stmts
               @ (if superclassConformsTo targetDecl Encodable then [superEncodeStatement] else [])"
      unfolding b by (simp add: encodePrelude_def)
    show "\<exists>properties.
              map (codedProperty (members targetDecl)) (enumAllElements codingKeysEnum)
                = map Some properties
              \<and> drop 2 body =
                  map2 (\<lambda>key p.
                          ExprNode (TryExpr
                            (CallExpr
                               (UnresolvedDotExpr (DeclRefExpr ''container'')
                                  (BaseIdentifier
                                     (if isOptional (getValueInterfaceType p)
                                      then ''encodeIfPresent'' else ''encode''),
                                   Some [[], ''forKey'']))
                               [MemberRefExpr SelfDeclRef (getName p),
                                MemberRefExpr (TypeExpr (NominalType (enumName codingKeysEnum))) key]
                               [[], ''forKey''])))
                    (enumAllElements codingKeysEnum) properties
                  @ (if superclassConformsTo targetDecl Encodable
                     then [ExprNode (TryExpr
                             (CallExpr (DotSyntaxCallExpr SuperRefExpr (DeclRefExpr ''encode''))
                                [DotSyntaxCallExpr (DeclRefExpr ''container'')
                                   (UnresolvedDeclRefExpr ''superEncoder'')]
                                [''to'']))]
                     else [])"
      using p unfolding d s
      by (intro exI[of _ ps])
        (simp add: encodeStatement_def superEncodeStatement_def Id_container_def getDeclaredType_def)
  }
  {
    assume a: "deriveBodyDecodable_init targetDecl = Inr (body', diags)"
    from a assms obtain stmts ds rest where
      e: "?keys \<noteq> [] \<longrightarrow> decodeElements targetDecl codingKeysEnum ?keys = Inr (stmts, ds)"
      and e0: "?keys = [] \<longrightarrow> stmts = []"
      and r: "superInitStatements targetDecl = Inr rest"
      and b: "body' = (if ?keys = [] then [] else decodePrelude codingKeysEnum) @ stmts @ rest"
      by (auto simp: deriveBodyDecodable_init_def split: sum.splits prod.splits if_splits)
    have "\<exists>ps. map (codedProperty (members targetDecl)) ?keys = map Some ps
       \<and> stmts = map (\<lambda>(key, p). decodeStatement codingKeysEnum key p
                                   (unwrapped (getValueInterfaceType p))
                                   (isOptional (getValueInterfaceType p)))
                 (filter (\<lambda>(key, p). \<not> (isLet p \<and> isParentInitialized p)) (zip ?keys ps))"
    proof (cases "?keys = []")
      case True
      with e0 show ?thesis by simp
    next
      case False
      with e decodeElements_statements show ?thesis by blast
    qed
    then obtain ps where
      p: "map (codedProperty (members targetDecl)) ?keys = map Some ps"
      and s: "stmts = map (\<lambda>(key, p). decodeStatement codingKeysEnum key p
                                   (unwrapped (getValueInterfaceType p))
                                   (isOptional (getValueInterfaceType p)))
                 (filter (\<lambda>(key, p). \<not> (isLet p \<and> isParentInitialized p)) (zip ?keys ps))"
      by blast
    have d: "drop (if ?keys = [] then 0 else 2) body' = stmts @ rest"
      unfolding b by (simp add: decodePrelude_def)
    have m: "(\<lambda>(key, p). decodeStatement codingKeysEnum key p
                                   (unwrapped (getValueInterfaceType p))
                                   (isOptional (getValueInterfaceType p)))
             = (\<lambda>(key, p).
                         ExprNode (AssignExpr
                           (UnresolvedDotExpr SelfDeclRef (BaseIdentifier (getName p), None))
                           (TryExpr
                             (CallExpr
                                (UnresolvedDotExpr (DeclRefExpr ''container'')
                                   (BaseIdentifier
                                      (if isOptional (getValueInterfaceType p)
                                       then ''decodeIfPresent'' else ''decode''),
                                    Some [[], ''forKey'']))
                                [DotSelfExpr (TypeExpr (unwrapped (getValueInterfaceType p))),
                                 MemberRefExpr (TypeExpr (NominalType (enumName codingKeysEnum))) key]
                                [[], ''forKey'']))))"
      by (simp add: decodeStatement_def Id_container_def getDeclaredType_def)
    show "\<exists>properties rest.
              map (codedProperty (members targetDecl)) (enumAllElements codingKeysEnum)
                = map Some properties
              \<and> drop (if enumAllElements codingKeysEnum = [] then 0 else 2) body' =
                  map (\<lambda>(key, p).
                         ExprNode (AssignExpr
                           (UnresolvedDotExpr SelfDeclRef (BaseIdentifier (getName p), None))
                           (TryExpr
                             (CallExpr
                                (UnresolvedDotExpr (DeclRefExpr ''container'')
                                   (BaseIdentifier
                                      (if isOptional (getValueInterfaceType p)
                                       then ''decodeIfPresent'' else ''decode''),
                                    Some [[], ''forKey'']))
                                [DotSelfExpr (TypeExpr (unwrapped (getValueInterfaceType p))),
                                 MemberRefExpr (TypeExpr (NominalType (enumName codingKeysEnum))) key]
                                [[], ''forKey'']))))
                    (filter (\<lambda>(key, p). \<not> (isLet p \<and> isParentInitialized p))
                       (zip (enumAllElements codingKeysEnum) properties))
                  @ rest
              \<and> length rest \<le> 1
              \<and> set rest \<subseteq>
                  {ExprNode (TryExpr
                     (CallExpr (UnresolvedDotExpr SuperRefExpr (Constructor, Some [''from'']))
                        [CallExpr (UnresolvedDotExpr (DeclRefExpr ''container'')
                                     (BaseIdentifier ''superDecoder'', None)) [] []]
                        [''from''])),
                   ExprNode (CallExpr (UnresolvedDotExpr SuperRefExpr (Constructor, Some [])) [] []),
                   ExprNode (TryExpr
                     (CallExpr (UnresolvedDotExpr SuperRefExpr (Constructor, Some [])) [] []))}"
      using p superInitStatements_shape[OF r] unfolding d s m
      by (intro exI[of _ ps] exI[of _ rest]) simp
  }
qed


text \<open>
  Claim C6 as stated fails for a member with a property wrapper. The type of
  \<open>@Wrapper var nick: String?\<close> is optional at one level, yet the statement for it is
  \<open>try container.encode(self._nick, forKey: CodingKeys.nick)\<close>: the plain variant, on the
  backing property, whose type \<open>Wrapper<String?>\<close> is not optional. And the immutable
  member \<open>let version = 1\<close> is encoded, while \<open>init(from:)\<close> holds no statement for it.
\<close>

theorem C6_counterexample:
  "lookupDirect (members exampleProfile) ''nick''
     = [VarD ((storedVar ''nick'' (BoundGenericType ''Optional'' [NominalType ''String'']))
                \<lparr>hasStorage := False\<rparr>)
          (Some ((storedVar ''_nick''
                    (BoundGenericType ''Wrapper'' [BoundGenericType ''Optional'' [NominalType ''String'']]))
                   \<lparr>getOriginalWrappedProperty := Some ''nick''\<rparr>))]
   \<and> deriveBodyEncodable_encode exampleProfile =
       Inr [PatternBindingDecl (NamedPattern ''container'')
              (CallExpr
                 (UnresolvedDotExpr (DeclRefExpr ''encoder'')
                    (BaseIdentifier ''container'', Some [''keyedBy'']))
                 [DotSelfExpr (TypeExpr (NominalType ''CodingKeys''))] [''keyedBy'']),
            VarDeclNode IntroducerVar ''container''
              (BoundGenericType ''KeyedEncodingContainer'' [NominalType ''CodingKeys'']),
            ExprNode (TryExpr
              (CallExpr
                 (UnresolvedDotExpr (DeclRefExpr ''container'')
                    (BaseIdentifier ''encode'', Some [[], ''forKey'']))
                 [MemberRefExpr SelfDeclRef ''_nick'',
                  MemberRefExpr (TypeExpr (NominalType ''CodingKeys'')) ''nick'']
                 [[], ''forKey''])),
            ExprNode (TryExpr
              (CallExpr
                 (UnresolvedDotExpr (DeclRefExpr ''container'')
                    (BaseIdentifier ''encode'', Some [[], ''forKey'']))
                 [MemberRefExpr SelfDeclRef ''version'',
                  MemberRefExpr (TypeExpr (NominalType ''CodingKeys'')) ''version'']
                 [[], ''forKey'']))]
   \<and> deriveBodyDecodable_init exampleProfile =
       Inr ([PatternBindingDecl (NamedPattern ''container'')
               (TryExpr
                  (CallExpr
                     (UnresolvedDotExpr (DeclRefExpr ''decoder'')
                        (BaseIdentifier ''container'', Some [''keyedBy'']))
                     [DotSelfExpr (TypeExpr (NominalType ''CodingKeys''))] [''keyedBy''])),
             VarDeclNode IntroducerLet ''container''
               (BoundGenericType ''KeyedDecodingContainer'' [NominalType ''CodingKeys'']),
             ExprNode (AssignExpr
               (UnresolvedDotExpr SelfDeclRef (BaseIdentifier ''_nick'', None))
               (TryExpr
                  (CallExpr
                     (UnresolvedDotExpr (DeclRefExpr ''container'')
                        (BaseIdentifier ''decode'', Some [[], ''forKey'']))
                     [DotSelfExpr (TypeExpr
                        (BoundGenericType ''Wrapper''
                           [BoundGenericType ''Optional'' [NominalType ''String'']])),
                      MemberRefExpr (TypeExpr (NominalType ''CodingKeys'')) ''nick'']
                     [[], ''forKey''])))],
            [decodable_property_will_not_be_decoded ''version'',
             decodable_property_init_or_codingkeys_implicit ''version'',
             decodable_make_property_mutable ''version''])"
  by (simp add: body_defs lookup_defs prelude_defs exampleProfile_def storedVar_def optionalOf_def
      implicitKeyEnum_def encodeStatement_def decodeStatement_def)

theorem C6_if_present_variants_witness:
  "(\<exists>body. deriveBodyEncodable_encode exampleUser = Inr body
      \<and> drop 2 body =
          [ExprNode (TryExpr
             (CallExpr
                (UnresolvedDotExpr (DeclRefExpr ''container'')
                   (BaseIdentifier ''encode'', Some [[], ''forKey'']))
                [MemberRefExpr SelfDeclRef ''name'',
                 MemberRefExpr (TypeExpr (NominalType ''CodingKeys'')) ''name'']
                [[], ''forKey''])),
           ExprNode (TryExpr
             (CallExpr
                (UnresolvedDotExpr (DeclRefExpr ''container'')
                   (BaseIdentifier ''encodeIfPresent'', Some [[], ''forKey'']))
                [MemberRefExpr SelfDeclRef ''nick'',
                 MemberRefExpr (TypeExpr (NominalType ''CodingKeys'')) ''nick'']
                [[], ''forKey'']))])
   \<and> (\<exists>body. deriveBodyDecodable_init exampleUser = Inr (body, [])
      \<and> drop 2 body =
          [ExprNode (AssignExpr
             (UnresolvedDotExpr SelfDeclRef (BaseIdentifier ''name'', None))
             (TryExpr
                (CallExpr
                   (UnresolvedDotExpr (DeclRefExpr ''container'')
                      (BaseIdentifier ''decode'', Some [[], ''forKey'']))
                   [DotSelfExpr (TypeExpr (NominalType ''String'')),
                    MemberRefExpr (TypeExpr (NominalType ''CodingKeys'')) ''name'']
                   [[], ''forKey'']))),
           ExprNode (AssignExpr
             (UnresolvedDotExpr SelfDeclRef (BaseIdentifier ''nick'', None))
             (TryExpr
                (CallExpr
                   (UnresolvedDotExpr (DeclRefExpr ''container'')
                      (BaseIdentifier ''decodeIfPresent'', Some [[], ''forKey'']))
                   [DotSelfExpr (TypeExpr (NominalType ''String'')),
                    MemberRefExpr (TypeExpr (NominalType ''CodingKeys'')) ''nick'']
                   [[], ''forKey''])))])"
proof -
  let ?name = "storedVar ''name'' (NominalType ''String'')"
  let ?nick = "storedVar ''nick'' (optionalOf (NominalType ''String''))"
  obtain b1 where b1: "deriveBodyEncodable_encode exampleUser = Inr b1"
    using exampleUser_bodies(1) by blast
  obtain b2 where b2: "deriveBodyDecodable_init exampleUser = Inr (b2, [])"
    and l2: "length b2 = 4"
    using exampleUser_bodies(2) by (simp add: decodePrelude_def)
  have c: "map (codedProperty (members exampleUser)) [''name'', ''nick''] = map Some [?name, ?nick]"
    by (simp add: exampleUser_def storedVar_def)
  have u: "\<And>ps. (map Some [?name, ?nick] = map Some ps) = (ps = [?name, ?nick])"
    by (auto simp: map_eq_Cons_conv)
  have k: "\<not> superclassConformsTo exampleUser Encodable"
    by (simp add: superclassConformsTo_def exampleUser_def)
  have t: "isOptional (getValueInterfaceType ?nick)" "\<not> isOptional (getValueInterfaceType ?name)"
    "unwrapped (getValueInterfaceType ?nick) = NominalType ''String''"
    "unwrapped (getValueInterfaceType ?name) = NominalType ''String''"
    "getName ?name = ''name''" "getName ?nick = ''nick''"
    "\<not> isLet ?name" "\<not> isLet ?nick"
    by (simp_all add: storedVar_def optionalOf_def)
  from C6_if_present_variants[where targetDecl = exampleUser and body = b1,
      OF exampleUser_codingKeys(1)] b1
  have 1: "drop 2 b1 =
          [ExprNode (TryExpr
             (CallExpr
                (UnresolvedDotExpr (DeclRefExpr ''container'')
                   (BaseIdentifier ''encode'', Some [[], ''forKey'']))
                [MemberRefExpr SelfDeclRef ''name'',
                 MemberRefExpr (TypeExpr (NominalType ''CodingKeys'')) ''name'']
                [[], ''forKey''])),
           ExprNode (TryExpr
             (CallExpr
                (UnresolvedDotExpr (DeclRefExpr ''container'')
                   (BaseIdentifier ''encodeIfPresent'', Some [[], ''forKey'']))
                [MemberRefExpr SelfDeclRef ''nick'',
                 MemberRefExpr (TypeExpr (NominalType ''CodingKeys'')) ''nick'']
                [[], ''forKey'']))]"
    unfolding exampleUser_codingKeys(2) c u by (simp add: k t implicitKeyEnum_def)
  have s: "superInitStatements exampleUser = Inr []"
    by (simp add: superInitStatements_def exampleUser_def)
  from C6_if_present_variants[where targetDecl = exampleUser and body' = b2 and diags = "[]",
      OF exampleUser_codingKeys(1)] b2
  obtain rest where
    2: "drop 2 b2 =
          [ExprNode (AssignExpr
             (UnresolvedDotExpr SelfDeclRef (BaseIdentifier ''name'', None))
             (TryExpr
                (CallExpr
                   (UnresolvedDotExpr (DeclRefExpr ''container'')
                      (BaseIdentifier ''decode'', Some [[], ''forKey'']))
                   [DotSelfExpr (TypeExpr (NominalType ''String'')),
                    MemberRefExpr (TypeExpr (NominalType ''CodingKeys'')) ''name'']
                   [[], ''forKey'']))),
           ExprNode (AssignExpr
             (UnresolvedDotExpr SelfDeclRef (BaseIdentifier ''nick'', None))
             (TryExpr
                (CallExpr
                   (UnresolvedDotExpr (DeclRefExpr ''container'')
                      (BaseIdentifier ''decodeIfPresent'', Some [[], ''forKey'']))
                   [DotSelfExpr (TypeExpr (NominalType ''String'')),
                    MemberRefExpr (TypeExpr (NominalType ''CodingKeys'')) ''nick'']
                   [[], ''forKey''])))] @ rest"
    unfolding exampleUser_codingKeys(2) c u by (auto simp: t implicitKeyEnum_def)
  from 2 have "length (drop 2 b2) = 2 + length rest" by simp
  with l2 have "rest = []" by simp
  with 1 2 b1 b2 show ?thesis by auto
qed
subsection \<open>C2: the default arm of the decoding switch\<close>

text \<open>
  Claim C2. In the body synthesized for \<open>init(from:)\<close> of an enum, every switch is the
  switch on \<open>container.allKeys.first\<close>, and its last arm is the default arm, whose body is
  the single call \<open>fatalError("foo")\<close>: the placeholder of the claim. When the key enum
  has a case, the body ends with that switch.
\<close>

theorem C2_default_arm:
  "deriveBodyDecodable_enum_init targetEnum = Inr body \<longrightarrow>
     (\<forall>subject cases. SwitchStmt subject cases \<in> set body \<longrightarrow>
        subject =
          UnresolvedDotExpr
            (UnresolvedDotExpr (DeclRefExpr ''container'') (BaseIdentifier ''allKeys'', None))
            (BaseIdentifier ''first'', None)
        \<and> cases \<noteq> []
        \<and> last cases =
            CaseStmt (CaseLabelDefault AnyPattern)
              [ExprNode (CallExpr (DeclRefExpr ''fatalError'') [StringLiteralExpr ''foo''] [[]])]
              None)
     \<and> (\<forall>codingKeysEnum.
          lookupEvaluatedCodingKeysEnum (members targetEnum) Id_CodingKeys
            = Inr (Some codingKeysEnum)
          \<and> enumAllElements codingKeysEnum \<noteq> [] \<longrightarrow>
          (\<exists>cases. body =
             decodePrelude codingKeysEnum
             @ [SwitchStmt
                  (UnresolvedDotExpr
                     (UnresolvedDotExpr (DeclRefExpr ''container'') (BaseIdentifier ''allKeys'', None))
                     (BaseIdentifier ''first'', None))
                  cases]))"
  by (auto simp: deriveBodyDecodable_enum_init_def decodePrelude_def containerBinding_def
      createKeyedContainer_def defaultCase_def allKeysFirst_def Id_container_def
      split: option.splits sum.splits if_splits)

theorem C2_default_arm_witness:
  "\<exists>cases. deriveBodyDecodable_enum_init exampleShapeSynthesized =
     Inr (decodePrelude (implicitKeyEnum ''CodingKeys'' [''circle'', ''pair'', ''tagged'', ''empty''])
          @ [SwitchStmt
               (UnresolvedDotExpr
                  (UnresolvedDotExpr (DeclRefExpr ''container'') (BaseIdentifier ''allKeys'', None))
                  (BaseIdentifier ''first'', None))
               cases])
     \<and> cases \<noteq> []
     \<and> last cases =
            CaseStmt (CaseLabelDefault AnyPattern)
              [ExprNode (CallExpr (DeclRefExpr ''fatalError'') [StringLiteralExpr ''foo''] [[]])]
              None"
proof -
  from exampleShape_decode_body obtain cases where
    b: "deriveBodyDecodable_enum_init exampleShapeSynthesized =
     Inr (decodePrelude (implicitKeyEnum ''CodingKeys'' [''circle'', ''pair'', ''tagged'', ''empty''])
          @ [SwitchStmt allKeysFirst cases])" by blast
  from C2_default_arm[of exampleShapeSynthesized
      "decodePrelude (implicitKeyEnum ''CodingKeys'' [''circle'', ''pair'', ''tagged'', ''empty''])
          @ [SwitchStmt allKeysFirst cases]"] b
  have "cases \<noteq> [] \<and> last cases =
            CaseStmt (CaseLabelDefault AnyPattern)
              [ExprNode (CallExpr (DeclRefExpr ''fatalError'') [StringLiteralExpr ''foo''] [[]])]
              None"
    by simp
  with b show ?thesis unfolding allKeysFirst_def Id_container_def by blast
qed

subsection \<open>C1: the call of the superclass\<close>

text \<open>
  Claim C1, amended. For a class whose superclass conforms to \<open>Decodable\<close>, the body
  synthesized for \<open>init(from:)\<close> ends with \<open>try super.init(from: container.superDecoder())\<close>:
  the call is the last statement, after the prelude and the decoding of the members.
  When the superclass conforms to \<open>Encodable\<close>, the body synthesized for \<open>encode(to:)\<close>
  ends with \<open>try super.encode(to: container.superEncoder())\<close>.
\<close>

theorem C1_super_call_last:
  "(kind targetDecl = ClassKind \<and> superclassConformsTo targetDecl Decodable
      \<and> deriveBodyDecodable_init targetDecl = Inr (body, diags) \<longrightarrow>
        body \<noteq> []
        \<and> last body =
            ExprNode (TryExpr
              (CallExpr (UnresolvedDotExpr SuperRefExpr (Constructor, Some [''from'']))
                 [CallExpr (UnresolvedDotExpr (DeclRefExpr ''container'')
                              (BaseIdentifier ''superDecoder'', None)) [] []]
                 [''from''])))
   \<and> (superclassConformsTo targetDecl Encodable
      \<and> deriveBodyEncodable_encode targetDecl = Inr body' \<longrightarrow>
        body' \<noteq> []
        \<and> last body' =
            ExprNode (TryExpr
              (CallExpr (DotSyntaxCallExpr SuperRefExpr (DeclRefExpr ''encode''))
                 [DotSyntaxCallExpr (DeclRefExpr ''container'') (UnresolvedDeclRefExpr ''superEncoder'')]
                 [''to''])))"
proof (intro conjI impI)
  assume a: "kind targetDecl = ClassKind \<and> superclassConformsTo targetDecl Decodable
      \<and> deriveBodyDecodable_init targetDecl = Inr (body, diags)"
  then have "superInitStatements targetDecl = Inr [superInitFromStatement]"
    by (auto simp: superInitStatements_def superclassConformsTo_def split: option.splits)
  with a have "\<exists>stmts. body = stmts @ [superInitFromStatement]"
    by (auto simp: deriveBodyDecodable_init_def split: option.splits sum.splits prod.splits if_splits)
  then show "body \<noteq> []" "last body =
            ExprNode (TryExpr
              (CallExpr (UnresolvedDotExpr SuperRefExpr (Constructor, Some [''from'']))
                 [CallExpr (UnresolvedDotExpr (DeclRefExpr ''container'')
                              (BaseIdentifier ''superDecoder'', None)) [] []]
                 [''from'']))"
    by (auto simp: superInitFromStatement_def Id_container_def)
next
  assume a: "superclassConformsTo targetDecl Encodable
      \<and> deriveBodyEncodable_encode targetDecl = Inr body'"
  then have "\<exists>stmts. body' = stmts @ [superEncodeStatement]"
    by (auto simp: deriveBodyEncodable_encode_def split: option.splits sum.splits)
  then show "body' \<noteq> []" "last body' =
            ExprNode (TryExpr
              (CallExpr (DotSyntaxCallExpr SuperRefExpr (DeclRefExpr ''encode''))
                 [DotSyntaxCallExpr (DeclRefExpr ''container'') (UnresolvedDeclRefExpr ''superEncoder'')]
                 [''to'']))"
    by (auto simp: superEncodeStatement_def Id_container_def)
qed

lemma exampleDog_bodies:
  "deriveBodyDecodable_init exampleDog =
     Inr (decodePrelude (userKeyEnum ''CodingKeys'' [''name''])
          @ [decodeStatement (userKeyEnum ''CodingKeys'' [''name'']) ''name''
               (storedVar ''name'' (NominalType ''String'')) (NominalType ''String'') False,
             superInitFromStatement], [])"
  "deriveBodyEncodable_encode exampleDog =
     Inr (encodePrelude (userKeyEnum ''CodingKeys'' [''name''])
          @ [encodeStatement (userKeyEnum ''CodingKeys'' [''name'']) ''name''
               (storedVar ''name'' (NominalType ''String'')) False,
             superEncodeStatement])"
  by (simp_all add: body_defs lookup_defs example_defs)

text \<open>
  Claim C1 as stated fails for a class with a member: in the body for \<open>class Dog: Animal\<close>
  with the property \<open>name\<close>, the statement after the prelude is the decoding of \<open>name\<close>,
  and the call of \<open>super.init(from:)\<close> comes after it.
\<close>

theorem C1_counterexample:
  "kind exampleDog = ClassKind \<and> superclassConformsTo exampleDog Decodable
   \<and> deriveBodyDecodable_init exampleDog =
       Inr (decodePrelude (userKeyEnum ''CodingKeys'' [''name''])
            @ [decodeStatement (userKeyEnum ''CodingKeys'' [''name'']) ''name''
                 (storedVar ''name'' (NominalType ''String'')) (NominalType ''String'') False,
               superInitFromStatement], [])
   \<and> decodeStatement (userKeyEnum ''CodingKeys'' [''name'']) ''name''
         (storedVar ''name'' (NominalType ''String'')) (NominalType ''String'') False
       \<noteq> superInitFromStatement"
  using exampleDog_bodies(1)
  by (simp add: example_defs superclassConformsTo_def decodeStatement_def superInitFromStatement_def)

theorem C1_super_call_last_witness:
  "(\<exists>body. deriveBodyDecodable_init exampleDog = Inr (body, [])
      \<and> last body = superInitFromStatement)
   \<and> (\<exists>body. deriveBodyEncodable_encode exampleDog = Inr body
      \<and> last body = superEncodeStatement)"
proof -
  obtain b1 where b1: "deriveBodyDecodable_init exampleDog = Inr (b1, [])"
    using exampleDog_bodies(1) by blast
  obtain b2 where b2: "deriveBodyEncodable_encode exampleDog = Inr b2"
    using exampleDog_bodies(2) by blast
  have k: "kind exampleDog = ClassKind" "superclassConformsTo exampleDog Decodable"
    "superclassConformsTo exampleDog Encodable"
    by (simp_all add: example_defs superclassConformsTo_def)
  from C1_super_call_last[where targetDecl = exampleDog and body = b1 and diags = "[]"] b1 k
  have "last b1 = superInitFromStatement"
    by (simp add: superInitFromStatement_def Id_container_def)
  moreover
  from C1_super_call_last[where targetDecl = exampleDog and body' = b2] b2 k
  have "last b2 = superEncodeStatement"
    by (simp add: superEncodeStatement_def Id_container_def)
  ultimately show ?thesis using b1 b2 by blast
qed

lemma validateCases_all_valid:
  "distinct elts \<Longrightarrow>
   \<forall>elt \<in> set elts. \<exists>var. map_of properties elt = Some var
       \<and> conformsToProtocol derived (getValueInterfaceType var) (Protocol derived) \<Longrightarrow>
   validateCases derived elts properties ok diags =
     (filter (\<lambda>entry. fst entry \<notin> set elts) properties, ok, diags)"
proof (induction elts arbitrary: properties)
  case Nil
  then show ?case by simp
next
  case (Cons elt elts)
  from Cons.prems(2) obtain var where
    v: "map_of properties elt = Some var"
       "conformsToProtocol derived (getValueInterfaceType var) (Protocol derived)" by auto
  have d: "AList.delete elt properties = filter (\<lambda>entry. fst entry \<noteq> elt) properties"
    by (simp add: AList.delete_eq case_prod_unfold eq_commute)
  have "\<forall>k \<in> set elts. \<exists>var. map_of (AList.delete elt properties) k = Some var
       \<and> conformsToProtocol derived (getValueInterfaceType var) (Protocol derived)"
    using Cons.prems by (auto simp: AList.delete_conv')
  with Cons.IH[of "AList.delete elt properties"] Cons.prems(1)
  have "validateCases derived elts (AList.delete elt properties) ok diags =
     (filter (\<lambda>entry. fst entry \<notin> set elts) (AList.delete elt properties), ok, diags)"
    by simp
  with v show ?case by (simp add: d conj_commute)
qed

lemma validateCases_mono:
  "validateCases d keys props ok ds = (props', ok', ds') \<Longrightarrow>
   set ds \<subseteq> set ds' \<and> (\<not> ok \<longrightarrow> \<not> ok') \<and> fst ` set props' \<subseteq> fst ` set props"
proof (induction keys arbitrary: props ok ds)
  case Nil
  then show ?case by auto
next
  case (Cons k keys)
  show ?case
  proof (cases "map_of props k")
    case None
    with Cons.prems have "validateCases d keys props False
            (ds @ [codable_extraneous_codingkey_case_here k]) = (props', ok', ds')" by simp
    from Cons.IH[OF this] show ?thesis by auto
  next
    case (Some v)
    show ?thesis
    proof (cases "conformsToProtocol d (getValueInterfaceType v) (Protocol d)")
      case False
      with Some Cons.prems have "validateCases d keys props False
                 (ds @ [codable_non_conforming_property_here (getName v)]) = (props', ok', ds')" by simp
      from Cons.IH[OF this] show ?thesis by auto
    next
      case True
      with Some Cons.prems have "validateCases d keys (AList.delete k props) ok ds = (props', ok', ds')"
        by simp
      from Cons.IH[OF this] have "set ds \<subseteq> set ds'" "\<not> ok \<longrightarrow> \<not> ok'"
        "fst ` set props' \<subseteq> fst ` set (AList.delete k props)" by blast+
      moreover have "fst ` set (AList.delete k props) \<subseteq> fst ` set props"
        by (rule AList.dom_delete_subset)
      ultimately show ?thesis by blast
    qed
  qed
qed



lemma validateCases_diagnostics:
  "validateCases d keys props ok ds = (props', ok', ds') \<Longrightarrow>
   \<exists>new. ds' = ds @ new
     \<and> (ok \<and> \<not> ok' \<longrightarrow> new \<noteq> [])
     \<and> (ok' \<longrightarrow> new = [])
     \<and> (\<forall>diag \<in> set new.
           (\<exists>key \<in> set keys. diag = codable_extraneous_codingkey_case_here key)
           \<or> (\<exists>name. diag = codable_non_conforming_property_here name))"
proof (induction keys arbitrary: props ok ds)
  case Nil
  then show ?case by simp
next
  case (Cons k keys)
  show ?case
  proof (cases "map_of props k")
    case None
    with Cons.prems have r: "validateCases d keys props False
            (ds @ [codable_extraneous_codingkey_case_here k]) = (props', ok', ds')" by simp
    from validateCases_mono[OF r] have f: "\<not> ok'" by simp
    from Cons.IH[OF r] obtain new where
      "ds' = (ds @ [codable_extraneous_codingkey_case_here k]) @ new"
      "\<forall>diag \<in> set new.
           (\<exists>key \<in> set keys. diag = codable_extraneous_codingkey_case_here key)
           \<or> (\<exists>name. diag = codable_non_conforming_property_here name)" by blast
    with f show ?thesis
      by (intro exI[of _ "codable_extraneous_codingkey_case_here k # new"]) auto
  next
    case (Some v)
    show ?thesis
    proof (cases "conformsToProtocol d (getValueInterfaceType v) (Protocol d)")
      case False
      with Some Cons.prems have r: "validateCases d keys props False
                 (ds @ [codable_non_conforming_property_here (getName v)]) = (props', ok', ds')" by simp
      from validateCases_mono[OF r] have f: "\<not> ok'" by simp
      from Cons.IH[OF r] obtain new where
        "ds' = (ds @ [codable_non_conforming_property_here (getName v)]) @ new"
        "\<forall>diag \<in> set new.
           (\<exists>key \<in> set keys. diag = codable_extraneous_codingkey_case_here key)
           \<or> (\<exists>name. diag = codable_non_conforming_property_here name)" by blast
      with f show ?thesis
        by (intro exI[of _ "codable_non_conforming_property_here (getName v) # new"]) auto
    next
      case True
      with Some Cons.prems have r: "validateCases d keys (AList.delete k props) ok ds = (props', ok', ds')"
        by simp
      from Cons.IH[OF r] obtain new where
        "ds' = ds @ new" "ok \<and> \<not> ok' \<longrightarrow> new \<noteq> []" "ok' \<longrightarrow> new = []"
        "\<forall>diag \<in> set new.
           (\<exists>key \<in> set keys. diag = codable_extraneous_codingkey_case_here key)
           \<or> (\<exists>name. diag = codable_non_conforming_property_here name)" by blast
      then show ?thesis by (intro exI[of _ new]) auto
    qed
  qed
qed

lemma validateCodingKeysProtocolConformance_Some:
  "validateCodingKeysProtocolConformance front = (Some e, ds) \<Longrightarrow>
   ds = [] \<and> (front = TypeD (EnumT e) \<or> (\<exists>n. front = TypeAliasD n (Some (EnumT e))))"
  by (cases front rule: validateCodingKeysProtocolConformance.cases) (auto split: if_splits)

subsection \<open>C5: members a user-declared key enum leaves out\<close>





lemma combineIdentifiers_inject [simp]:
  "(combineIdentifiers a b = combineIdentifiers a c) = (b = c)"
  by (simp add: combineIdentifiers_def)

lemma combineIdentifiers_neq [simp]:
  "combineIdentifiers a b \<noteq> a" "a \<noteq> combineIdentifiers a b"
  by (simp_all add: combineIdentifiers_def)

lemma lookupDirect_append [simp]:
  "lookupDirect (ms @ ms') n = lookupDirect ms n @ lookupDirect ms' n"
  by (simp add: lookupDirect_def)

lemma lookupDirect_Cons:
  "lookupDirect (m # ms) n = (if declName m = n then m # lookupDirect ms n else lookupDirect ms n)"
  by (simp add: lookupDirect_def)

lemma lookupDirect_Nil [simp]: "lookupDirect [] n = []"
  by (simp add: lookupDirect_def)

lemma implicitKeyEnum_simps [simp]:
  "enumName (implicitKeyEnum n cs) = n"
  "enumMembers (implicitKeyEnum n cs) = map ElementM cs"
  "conformsToCodingKey (implicitKeyEnum n cs)"
  "enumIsImplicit (implicitKeyEnum n cs)"
  by (simp_all add: implicitKeyEnum_def)

lemma members_addMember [simp]:
  "members (Nominal (addMember decl d)) = members (Nominal d) @ [decl]"
  by (simp add: addMember_def)

lemma synthesizeCaseEnums_added:
  "synthesizeCaseEnums ck elts d ok ds = (d', ok', ds') \<Longrightarrow>
   \<exists>added. members (Nominal d') = members (Nominal d) @ added
     \<and> (\<forall>n. (lookupDirect added (combineIdentifiers Id_CodingKeys n) \<noteq> [])
             = (\<exists>elt \<in> set elts. getBaseIdentifier elt = n \<and> needsCaseEnum ck (members (Nominal d)) elt))"
proof (induction elts arbitrary: d ok ds)
  case Nil
  then show ?case by simp
next
  case (Cons e elts)
  show ?case
  proof (cases "needsCaseEnum ck (members (Nominal d)) e")
    case False
    with Cons.prems have "synthesizeCaseEnums ck elts d ok ds = (d', ok', ds')"
      by (simp add: synthesizeCaseEnums_skip)
    from Cons.IH[OF this] obtain added where
      a: "members (Nominal d') = members (Nominal d) @ added"
      and b: "\<forall>n. (lookupDirect added (combineIdentifiers Id_CodingKeys n) \<noteq> [])
             = (\<exists>elt \<in> set elts. getBaseIdentifier elt = n \<and> needsCaseEnum ck (members (Nominal d)) elt)"
      by blast
    from b False have "\<forall>n. (lookupDirect added (combineIdentifiers Id_CodingKeys n) \<noteq> [])
             = (\<exists>elt \<in> set (e # elts). getBaseIdentifier elt = n \<and> needsCaseEnum ck (members (Nominal d)) elt)"
      by auto
    with a show ?thesis by blast
  next
    case True
    obtain cs okA dsA where p: "addParams d (paramsOf e) [] ok ds = (cs, okA, dsA)"
      by (metis prod_cases3)
    let ?N = "TypeD (EnumT (implicitKeyEnum (combineIdentifiers Id_CodingKeys (getBaseIdentifier e)) cs))"
    let ?d1 = "addMember ?N d"
    from True Cons.prems p have "synthesizeCaseEnums ck elts ?d1 okA dsA = (d', ok', ds')"
      by (simp add: synthesizeCaseEnums_add)
    from Cons.IH[OF this] obtain added where
      a: "members (Nominal d') = members (Nominal ?d1) @ added"
      and b: "\<forall>n. (lookupDirect added (combineIdentifiers Id_CodingKeys n) \<noteq> [])
             = (\<exists>elt \<in> set elts. getBaseIdentifier elt = n \<and> needsCaseEnum ck (members (Nominal ?d1)) elt)"
      by blast
    have n1: "\<And>elt. needsCaseEnum ck (members (Nominal ?d1)) elt
                 = (needsCaseEnum ck (members (Nominal d)) elt
                    \<and> getBaseIdentifier elt \<noteq> getBaseIdentifier e)"
      by (auto simp: needsCaseEnum_def lookupDirect_Cons)
    have "\<forall>n. (lookupDirect (?N # added) (combineIdentifiers Id_CodingKeys n) \<noteq> [])
             = (\<exists>elt \<in> set (e # elts). getBaseIdentifier elt = n \<and> needsCaseEnum ck (members (Nominal d)) elt)"
      using b True unfolding n1 by (auto simp: lookupDirect_Cons)
    moreover from a have "members (Nominal d') = members (Nominal d) @ (?N # added)" by simp
    ultimately show ?thesis by blast
  qed
qed

subsection \<open>C3: the nested key enums of an enum\<close>

text \<open>
  Claim C3, amended. For an enum target the synthesizer only appends members, and among
  them is a declaration named \<open>CodingKeys_<case>\<close> exactly for the case names that
  are a case of the outer key enum, have no declaration of that name on the target
  yet, and belong to a case of the target without an unnamed parameter: a case whose
  parameters are all named, or a case with no parameters at all. A case with an unnamed
  parameter gets none, also when another of its parameters is named.
\<close>

theorem C3_nested_key_enums:
  assumes "kind (Nominal derived) = EnumKind"
    and "synthesizeCodingKeysEnum derived = Inr (ok, derived', diags)"
  shows "\<exists>added. members (Nominal derived') = members (Nominal derived) @ added
     \<and> (\<forall>n. (lookupDirect added (combineIdentifiers Id_CodingKeys n) \<noteq> [])
             = (\<exists>elt \<in> set (getAllElements (Nominal derived)).
                  getBaseIdentifier elt = n
                  \<and> lookupEnumCase (outerKeyEnum (Nominal derived)) n \<noteq> None
                  \<and> lookupDirect (members (Nominal derived)) (combineIdentifiers Id_CodingKeys n) = []
                  \<and> \<not> hasAnyUnnamedParameters elt))"
proof -
  from assms obtain found where
    f: "lookupEvaluatedCodingKeysEnum (members (Nominal derived)) Id_CodingKeys = Inr found"
    by (auto simp: synthesizeCodingKeysEnum_def synthesizeCodingKeysEnum_enum_def Let_def
        split: sum.splits)
  show ?thesis
  proof (cases found)
    case (Some ck)
    with assms f have "synthesizeCaseEnums ck (getAllElements (Nominal derived)) derived True []
                       = (derived', ok, diags)"
      by (auto simp: synthesizeCodingKeysEnum_def synthesizeCodingKeysEnum_enum_def Let_def
          split: prod.splits)
    from synthesizeCaseEnums_added[OF this] Some f show ?thesis
      by (simp add: outerKeyEnum_def needsCaseEnum_def conj_commute conj_left_commute cong: conj_cong)
  next
    case None
    let ?ck = "implicitKeyEnum Id_CodingKeys (map getBaseIdentifier (getAllElements (Nominal derived)))"
    let ?d0 = "addMember (TypeD (EnumT ?ck)) derived"
    from None assms f have "synthesizeCaseEnums ?ck (getAllElements (Nominal derived)) ?d0 True []
                       = (derived', ok, diags)"
      by (auto simp: synthesizeCodingKeysEnum_def synthesizeCodingKeysEnum_enum_def Let_def
          split: prod.splits)
    from synthesizeCaseEnums_added[OF this] obtain added where
      a: "members (Nominal derived') = members (Nominal ?d0) @ added"
      and b: "\<forall>n. (lookupDirect added (combineIdentifiers Id_CodingKeys n) \<noteq> [])
               = (\<exists>elt \<in> set (getAllElements (Nominal derived)). getBaseIdentifier elt = n
                     \<and> needsCaseEnum ?ck (members (Nominal ?d0)) elt)"
      by blast
    have n0: "\<And>elt. needsCaseEnum ?ck (members (Nominal ?d0)) elt
        = (lookupEnumCase ?ck (getBaseIdentifier elt) \<noteq> None
           \<and> lookupDirect (members (Nominal derived))
                (combineIdentifiers Id_CodingKeys (getBaseIdentifier elt)) = []
           \<and> \<not> hasAnyUnnamedParameters elt)"
      by (auto simp: needsCaseEnum_def lookupDirect_Cons)
    have "\<forall>n. (lookupDirect (TypeD (EnumT ?ck) # added) (combineIdentifiers Id_CodingKeys n) \<noteq> [])
               = (\<exists>elt \<in> set (getAllElements (Nominal derived)).
                    getBaseIdentifier elt = n
                    \<and> lookupEnumCase (outerKeyEnum (Nominal derived)) n \<noteq> None
                    \<and> lookupDirect (members (Nominal derived)) (combineIdentifiers Id_CodingKeys n) = []
                    \<and> \<not> hasAnyUnnamedParameters elt)"
      using b None f unfolding n0 by (auto simp: lookupDirect_Cons outerKeyEnum_def)
    moreover from a have
      "members (Nominal derived') = members (Nominal derived) @ (TypeD (EnumT ?ck) # added)"
      by simp
    ultimately show ?thesis by blast
  qed
qed

text \<open>
  Claim C3 as stated fails in both directions on
  \<open>enum Shape { case circle(radius: Double), pair(Int, Int), tagged(tag: String, Int), empty }\<close>:
  the case \<open>empty\<close>, without parameters, gets the nested enum \<open>CodingKeys_empty\<close>, and the
  case \<open>tagged\<close>, with the named parameter \<open>tag\<close>, gets none.
\<close>

theorem C3_counterexample:
  "synthesizeCodingKeysEnum (derivation exampleShape Decodable)
     = Inr (True, derivation exampleShapeSynthesized Decodable, [])
   \<and> getAllElements exampleShape =
       [\<lparr>getBaseIdentifier = ''circle'',
         getParameterList = Some [parameter ''radius'' (NominalType ''Double'')]\<rparr>,
        \<lparr>getBaseIdentifier = ''pair'',
         getParameterList = Some [parameter [] (NominalType ''Int''), parameter [] (NominalType ''Int'')]\<rparr>,
        \<lparr>getBaseIdentifier = ''tagged'',
         getParameterList = Some [parameter ''tag'' (NominalType ''String''),
                                  parameter [] (NominalType ''Int'')]\<rparr>,
        \<lparr>getBaseIdentifier = ''empty'', getParameterList = None\<rparr>]
   \<and> lookupDirect (members exampleShapeSynthesized) ''CodingKeys_empty''
       = [TypeD (EnumT (implicitKeyEnum ''CodingKeys_empty'' []))]
   \<and> lookupDirect (members exampleShapeSynthesized) ''CodingKeys_tagged'' = []"
  using exampleShape_synthesis
  by (simp add: lookupDirect_def getAllElements_def example_defs4 implicitKeyEnum_def)

theorem C3_nested_key_enums_witness:
  "\<exists>added. members exampleShapeSynthesized = members exampleShape @ added
     \<and> lookupDirect added (combineIdentifiers Id_CodingKeys ''circle'') \<noteq> []
     \<and> lookupDirect added (combineIdentifiers Id_CodingKeys ''empty'') \<noteq> []
     \<and> lookupDirect added (combineIdentifiers Id_CodingKeys ''pair'') = []
     \<and> lookupDirect added (combineIdentifiers Id_CodingKeys ''tagged'') = []"
proof -
  have k: "kind (Nominal (derivation exampleShape Decodable)) = EnumKind"
    by (simp add: derivation_def exampleShape_def)
  have n: "Nominal (derivation exampleShape Decodable) = exampleShape"
    "Nominal (derivation exampleShapeSynthesized Decodable) = exampleShapeSynthesized"
    by (simp_all add: derivation_def)
  have o: "outerKeyEnum exampleShape
             = implicitKeyEnum Id_CodingKeys [''circle'', ''pair'', ''tagged'', ''empty'']"
    by (simp add: outerKeyEnum_def lookupEvaluatedCodingKeysEnum_def lookupDirect_def
        getAllElements_def example_defs4 storedVar_def Id_CodingKeys_def)
  have c: "\<And>n. lookupEnumCase (implicitKeyEnum Id_CodingKeys [''circle'', ''pair'', ''tagged'', ''empty'']) n
                 = (if n \<in> {''circle'', ''pair'', ''tagged'', ''empty''} then Some n else None)"
    by (auto simp: lookupEnumCase_def enumLookupDirect_def)
  have u: "\<And>n. lookupDirect (members exampleShape) (combineIdentifiers Id_CodingKeys n) = []"
    by (simp add: lookupDirect_def example_defs4 combineIdentifiers_def Id_CodingKeys_def)
  from C3_nested_key_enums[OF k exampleShape_synthesis] obtain added where
    a: "members exampleShapeSynthesized = members exampleShape @ added"
    and b: "\<forall>n. (lookupDirect added (combineIdentifiers Id_CodingKeys n) \<noteq> [])
             = (\<exists>elt \<in> set (getAllElements exampleShape).
                  getBaseIdentifier elt = n
                  \<and> lookupEnumCase (outerKeyEnum exampleShape) n \<noteq> None
                  \<and> lookupDirect (members exampleShape) (combineIdentifiers Id_CodingKeys n) = []
                  \<and> \<not> hasAnyUnnamedParameters elt)"
    unfolding n by blast
  have "lookupDirect added (combineIdentifiers Id_CodingKeys ''circle'') \<noteq> []"
    "lookupDirect added (combineIdentifiers Id_CodingKeys ''empty'') \<noteq> []"
    "lookupDirect added (combineIdentifiers Id_CodingKeys ''pair'') = []"
    "lookupDirect added (combineIdentifiers Id_CodingKeys ''tagged'') = []"
    using b[rule_format, of "''circle''"] b[rule_format, of "''empty''"]
      b[rule_format, of "''pair''"] b[rule_format, of "''tagged''"]
    unfolding o c u
    by (simp_all add: getAllElements_def example_defs4 hasAnyUnnamedParameters_def storedVar_def)
  with a show ?thesis by blast
qed

lemma classifyCases_Invalid:
  "(fst (classifyCases d elts needs ds) = Invalid)
     = (\<exists>elt \<in> set elts. caseKeysMalformed (members (Nominal d)) elt
          \<or> (\<exists>e. caseKeysEnum (members (Nominal d)) elt = Some e
                 \<and> \<not> fst (validateCaseCodingKeysEnum d elt e)))"
proof (induction elts arbitrary: needs ds)
  case Nil
  then show ?case by simp
next
  case (Cons elt elts)
  show ?case
  proof (cases "lookupDirect (members (Nominal d)) (combineIdentifiers Id_CodingKeys (getBaseIdentifier elt))")
    case Nil
    then show ?thesis using Cons.IH by (simp add: caseKeysMalformed_def caseKeysEnum_def)
  next
    case (Cons front others)
    obtain r ds0 where v: "validateCodingKeysProtocolConformance front = (r, ds0)" by force
    show ?thesis
    proof (cases r)
      case None
      with Cons v show ?thesis by (simp add: caseKeysMalformed_def caseKeysEnum_def)
    next
      case (Some e)
      obtain b ds1 where c: "validateCaseCodingKeysEnum d elt e = (b, ds1)" by force
      from Some Cons v c show ?thesis using Cons.IH
        by (cases b) (simp_all add: caseKeysMalformed_def caseKeysEnum_def)
    qed
  qed
qed

lemma validateCases_extraneous:
  "validateCases d keys props ok ds = (props', ok', ds') \<Longrightarrow>
   key \<in> set keys \<Longrightarrow> key \<notin> fst ` set props \<Longrightarrow>
   \<not> ok' \<and> codable_extraneous_codingkey_case_here key \<in> set ds'"
proof (induction keys arbitrary: props ok ds)
  case Nil
  then show ?case by simp
next
  case (Cons k keys)
  show ?case
  proof (cases "map_of props k")
    case None
    with Cons.prems(1) have r: "validateCases d keys props False
            (ds @ [codable_extraneous_codingkey_case_here k]) = (props', ok', ds')" by simp
    show ?thesis
    proof (cases "key = k")
      case True
      with validateCases_mono[OF r] show ?thesis by auto
    next
      case False
      with Cons.prems(2) have "key \<in> set keys" by simp
      from Cons.IH[OF r this Cons.prems(3)] show ?thesis .
    qed
  next
    case (Some v)
    then have "(k, v) \<in> set props" by (rule map_of_SomeD)
    then have "k \<in> fst ` set props" by force
    with Cons.prems(3) have ne: "key \<noteq> k" by auto
    with Cons.prems(2) have m: "key \<in> set keys" by simp
    show ?thesis
    proof (cases "conformsToProtocol d (getValueInterfaceType v) (Protocol d)")
      case False
      with Some Cons.prems(1) have r: "validateCases d keys props False
                 (ds @ [codable_non_conforming_property_here (getName v)]) = (props', ok', ds')" by simp
      from Cons.IH[OF r m Cons.prems(3)] show ?thesis .
    next
      case True
      with Some Cons.prems(1) have r: "validateCases d keys (AList.delete k props) ok ds = (props', ok', ds')"
        by simp
      have "key \<notin> fst ` set (AList.delete k props)"
        using Cons.prems(3) AList.dom_delete_subset[of k props] by auto
      from Cons.IH[OF r m this] show ?thesis .
    qed
  qed
qed

lemma collectProperties_keys:
  "fst ` set (collectProperties vars) = getVarNameForCoding ` {v \<in> set vars. isUserAccessible v}"
proof -
  have "\<And>acc. fst ` set (foldl (\<lambda>properties varDecl.
              if \<not> isUserAccessible varDecl then properties
              else AList.update (getVarNameForCoding varDecl) varDecl properties) acc vars)
        = fst ` set acc \<union> getVarNameForCoding ` {v \<in> set vars. isUserAccessible v}"
  proof (induction vars)
    case Nil
    then show ?case by simp
  next
    case (Cons v vars)
    show ?case unfolding foldl_Cons Cons.IH by (auto simp: AList.dom_update)
  qed
  from this[of "[]"] show ?thesis by (simp add: collectProperties_def)
qed

lemma validateCaseCodingKeysEnum_extraneous:
  assumes "key \<in> set (enumAllElements e)"
    and "key \<notin> getVarNameForCoding ` {p \<in> set (paramsOf elt). isUserAccessible p}"
  shows "\<not> fst (validateCaseCodingKeysEnum d elt e)
         \<and> codable_extraneous_codingkey_case_here key \<in> set (snd (validateCaseCodingKeysEnum d elt e))"
proof -
  let ?props = "case getParameterList elt of None \<Rightarrow> [] | Some params \<Rightarrow> collectProperties params"
  obtain props' ok' ds' where
    v: "validateCases d (enumAllElements e) ?props True [] = (props', ok', ds')"
    by (metis prod_cases3)
  have "fst ` set ?props = getVarNameForCoding ` {p \<in> set (paramsOf elt). isUserAccessible p}"
    by (cases "getParameterList elt") (simp_all add: paramsOf_def collectProperties_keys)
  with assms(2) have "key \<notin> fst ` set ?props" by simp
  from validateCases_extraneous[OF v assms(1) this] v show ?thesis
    by (simp add: validateCaseCodingKeysEnum_def)
qed


lemma validateCaseCodingKeysEnum_True:
  "validateCaseCodingKeysEnum d elt e = (True, ds) \<Longrightarrow> ds = []"
proof -
  assume a: "validateCaseCodingKeysEnum d elt e = (True, ds)"
  let ?props = "case getParameterList elt of None \<Rightarrow> [] | Some params \<Rightarrow> collectProperties params"
  obtain props' ok' ds' where
    v: "validateCases d (enumAllElements e) ?props True [] = (props', ok', ds')"
    by (metis prod_cases3)
  from a v have ok': ok'
    by (auto simp: validateCaseCodingKeysEnum_def Let_def split: if_splits)
  with validateCases_diagnostics[OF v] have "ds' = []" by auto
  with a v ok' show "ds = []"
    by (auto simp: validateCaseCodingKeysEnum_def Let_def split: if_splits)
qed

lemma caseKeys_pass:
  assumes "\<not> caseKeysFail d elt"
    and "lookupDirect (members (Nominal d)) (combineIdentifiers Id_CodingKeys (getBaseIdentifier elt))
           = front # others"
  shows "\<exists>e. validateCodingKeysProtocolConformance front = (Some e, [])
             \<and> validateCaseCodingKeysEnum d elt e = (True, [])"
proof -
  obtain r ds0 where v: "validateCodingKeysProtocolConformance front = (r, ds0)" by force
  with assms obtain e where r: "r = Some e"
    by (cases r) (auto simp: caseKeysFail_def caseKeysMalformed_def)
  from validateCodingKeysProtocolConformance_Some[OF v[unfolded r]] have ds0: "ds0 = []" by simp
  obtain b ds1 where c: "validateCaseCodingKeysEnum d elt e = (b, ds1)" by force
  with assms v r have b: b
    by (auto simp: caseKeysFail_def caseKeysEnum_def)
  from validateCaseCodingKeysEnum_True[OF c[unfolded eqTrueI[OF b]]] have "ds1 = []" .
  with v r ds0 c b show ?thesis by simp
qed

lemma classifyCases_all_pass:
  "\<forall>elt \<in> set elts. \<not> caseKeysFail d elt \<Longrightarrow>
   classifyCases d elts needs ds =
     (if needs \<or> (\<exists>elt \<in> set elts. lookupDirect (members (Nominal d))
                        (combineIdentifiers Id_CodingKeys (getBaseIdentifier elt)) = [])
      then NeedsSynthesizedCodingKeys else Valid, ds)"
proof (induction elts arbitrary: needs)
  case Nil
  then show ?case by simp
next
  case (Cons elt elts)
  from Cons.prems have p: "\<not> caseKeysFail d elt" and ps: "\<forall>e \<in> set elts. \<not> caseKeysFail d e"
    by simp_all
  show ?case
  proof (cases "lookupDirect (members (Nominal d)) (combineIdentifiers Id_CodingKeys (getBaseIdentifier elt))")
    case Nil
    with Cons.IH[OF ps, of True] show ?thesis by simp
  next
    case (Cons front others)
    from caseKeys_pass[OF p Cons] obtain e where
      "validateCodingKeysProtocolConformance front = (Some e, [])"
      "validateCaseCodingKeysEnum d elt e = (True, [])" by blast
    with Cons Cons.IH[OF ps, of needs] show ?thesis by simp
  qed
qed

lemma classifyCases_first_failure:
  "\<forall>elt \<in> set pre. \<not> caseKeysFail d elt \<Longrightarrow> caseKeysFail d elt \<Longrightarrow>
   classifyCases d (pre @ elt # post) needs ds = (Invalid, ds @ caseKeysDiagnostics d elt)"
proof (induction pre arbitrary: needs)
  case Nil
  from Nil(2) obtain front others where
    l: "lookupDirect (members (Nominal d)) (combineIdentifiers Id_CodingKeys (getBaseIdentifier elt))
          = front # others"
    by (cases "lookupDirect (members (Nominal d)) (combineIdentifiers Id_CodingKeys (getBaseIdentifier elt))")
      (auto simp: caseKeysFail_def caseKeysMalformed_def caseKeysEnum_def)
  obtain r ds0 where v: "validateCodingKeysProtocolConformance front = (r, ds0)" by force
  show ?case
  proof (cases r)
    case None
    with l v show ?thesis by (simp add: caseKeysDiagnostics_def)
  next
    case (Some e)
    obtain b ds1 where c: "validateCaseCodingKeysEnum d elt e = (b, ds1)" by force
    with Nil(2) l v Some have "\<not> b"
      by (auto simp: caseKeysFail_def caseKeysMalformed_def caseKeysEnum_def)
    with l v Some c show ?thesis by (simp add: caseKeysDiagnostics_def)
  qed
next
  case (Cons x pre)
  from Cons.prems have p: "\<not> caseKeysFail d x" and ps: "\<forall>e \<in> set pre. \<not> caseKeysFail d e"
    by simp_all
  show ?case
  proof (cases "lookupDirect (members (Nominal d)) (combineIdentifiers Id_CodingKeys (getBaseIdentifier x))")
    case Nil
    with Cons.IH[OF ps Cons.prems(2), of True] show ?thesis by simp
  next
    case (Cons front others)
    from caseKeys_pass[OF p Cons] obtain e where
      "validateCodingKeysProtocolConformance front = (Some e, [])"
      "validateCaseCodingKeysEnum d x e = (True, [])" by blast
    with Cons Cons.IH[OF ps Cons.prems(2), of needs] show ?thesis by simp
  qed
qed

subsection \<open>C4: classification of an enum target\<close>

text \<open>
  Claim C4, amended. For an enum target with a declared outer \<open>CodingKeys\<close>, the classifier
  checks of that declaration only that it is an enum conforming to \<open>CodingKey\<close>: the
  validator is not run on it and its cases are not compared with the cases of the target.
  The declarations named \<open>CodingKeys_<case>\<close> are checked in the order of the cases of the
  target, and the classifier returns at the first one that fails. When none fails there
  is no diagnostic, and the classification is \<open>Valid\<close> when every case has such a
  declaration and \<open>NeedsSynthesizedCodingKeys\<close> otherwise, whatever the cases of the outer
  enum are. When one fails, the classification is \<open>Invalid\<close> and the diagnostics are
  those of the first failing declaration alone; the declarations of later cases are
  neither validated nor diagnosed. In particular, when the first failing declaration is a
  key enum with a case that matches no parameter of its case of the target, that case is
  diagnosed as extraneous.
\<close>

theorem C4_enum_classification:
  assumes "kind (Nominal derived) = EnumKind"
    and "lookupDirect (members (Nominal derived)) Id_CodingKeys = front # others"
    and "validateCodingKeysProtocolConformance front = (Some outerEnum, diags0)"
  shows "((\<forall>elt \<in> set (getAllElements (Nominal derived)). \<not> caseKeysFail derived elt) \<longrightarrow>
            classifyCodingKeys derived =
              (if someCaseWithoutKeyEnum (Nominal derived)
               then NeedsSynthesizedCodingKeys else Valid, []))
       \<and> (\<forall>pre elt post.
             getAllElements (Nominal derived) = pre @ elt # post
             \<and> (\<forall>earlier \<in> set pre. \<not> caseKeysFail derived earlier)
             \<and> caseKeysFail derived elt \<longrightarrow>
             classifyCodingKeys derived = (Invalid, caseKeysDiagnostics derived elt))
       \<and> (\<forall>pre elt post caseEnum key.
             getAllElements (Nominal derived) = pre @ elt # post
             \<and> (\<forall>earlier \<in> set pre. \<not> caseKeysFail derived earlier)
             \<and> caseKeysEnum (members (Nominal derived)) elt = Some caseEnum
             \<and> key \<in> set (enumAllElements caseEnum)
             \<and> key \<notin> getVarNameForCoding ` {p \<in> set (paramsOf elt). isUserAccessible p} \<longrightarrow>
             fst (classifyCodingKeys derived) = Invalid
             \<and> codable_extraneous_codingkey_case_here key \<in> set (snd (classifyCodingKeys derived))
             \<and> snd (classifyCodingKeys derived) = snd (validateCaseCodingKeysEnum derived elt caseEnum))"
proof -
  have d0: "diags0 = []"
    using validateCodingKeysProtocolConformance_Some[OF assms(3)] by simp
  have cl: "classifyCodingKeys derived
              = classifyCases derived (getAllElements (Nominal derived)) False []"
    unfolding classifyCodingKeys_def using assms d0 by simp
  have A: "(\<forall>elt \<in> set (getAllElements (Nominal derived)). \<not> caseKeysFail derived elt) \<longrightarrow>
            classifyCodingKeys derived =
              (if someCaseWithoutKeyEnum (Nominal derived)
               then NeedsSynthesizedCodingKeys else Valid, [])"
    unfolding cl by (simp add: classifyCases_all_pass someCaseWithoutKeyEnum_def)
  have B: "\<And>pre elt post.
             getAllElements (Nominal derived) = pre @ elt # post \<Longrightarrow>
             \<forall>earlier \<in> set pre. \<not> caseKeysFail derived earlier \<Longrightarrow>
             caseKeysFail derived elt \<Longrightarrow>
             classifyCodingKeys derived = (Invalid, caseKeysDiagnostics derived elt)"
    unfolding cl by (simp add: classifyCases_first_failure)
  have C: "\<And>pre elt post caseEnum key.
             getAllElements (Nominal derived) = pre @ elt # post \<Longrightarrow>
             \<forall>earlier \<in> set pre. \<not> caseKeysFail derived earlier \<Longrightarrow>
             caseKeysEnum (members (Nominal derived)) elt = Some caseEnum \<Longrightarrow>
             key \<in> set (enumAllElements caseEnum) \<Longrightarrow>
             key \<notin> getVarNameForCoding ` {p \<in> set (paramsOf elt). isUserAccessible p} \<Longrightarrow>
             fst (classifyCodingKeys derived) = Invalid
             \<and> codable_extraneous_codingkey_case_here key \<in> set (snd (classifyCodingKeys derived))
             \<and> snd (classifyCodingKeys derived) = snd (validateCaseCodingKeysEnum derived elt caseEnum)"
  proof -
    fix pre elt post caseEnum key
    assume g: "getAllElements (Nominal derived) = pre @ elt # post"
      and p: "\<forall>earlier \<in> set pre. \<not> caseKeysFail derived earlier"
      and e: "caseKeysEnum (members (Nominal derived)) elt = Some caseEnum"
      and k: "key \<in> set (enumAllElements caseEnum)"
        "key \<notin> getVarNameForCoding ` {p \<in> set (paramsOf elt). isUserAccessible p}"
    from validateCaseCodingKeysEnum_extraneous[OF k] have
      f: "\<not> fst (validateCaseCodingKeysEnum derived elt caseEnum)"
      and m: "codable_extraneous_codingkey_case_here key
                \<in> set (snd (validateCaseCodingKeysEnum derived elt caseEnum))" by blast+
    from e f have fail: "caseKeysFail derived elt" by (simp add: caseKeysFail_def)
    from e obtain front' others' where
      l: "lookupDirect (members (Nominal derived))
            (combineIdentifiers Id_CodingKeys (getBaseIdentifier elt)) = front' # others'"
      and v: "fst (validateCodingKeysProtocolConformance front') = Some caseEnum"
      by (auto simp: caseKeysEnum_def split: list.splits)
    from v validateCodingKeysProtocolConformance_Some[of front' caseEnum
        "snd (validateCodingKeysProtocolConformance front')"]
    have "snd (validateCodingKeysProtocolConformance front') = []"
      by (metis prod.collapse)
    with l v have dd: "caseKeysDiagnostics derived elt
                         = snd (validateCaseCodingKeysEnum derived elt caseEnum)"
      by (simp add: caseKeysDiagnostics_def)
    from B[OF g p fail] dd m show
      "fst (classifyCodingKeys derived) = Invalid
       \<and> codable_extraneous_codingkey_case_here key \<in> set (snd (classifyCodingKeys derived))
       \<and> snd (classifyCodingKeys derived) = snd (validateCaseCodingKeysEnum derived elt caseEnum)"
      by simp
  qed
  from A B C show ?thesis by blast
qed


text \<open>
  Claim C4 as stated fails on an enum with the case \<open>a(x: Int)\<close>, the declared outer enum
  \<open>CodingKeys { case a, bogus }\<close> and \<open>CodingKeys_a { case x }\<close>: the outer case \<open>bogus\<close>
  matches no case of the target, yet the classification is \<open>Valid\<close> and nothing is
  diagnosed.
\<close>

theorem C4_counterexample:
  "''bogus'' \<in> set (enumAllElements (userKeyEnum ''CodingKeys'' [''a'', ''bogus'']))
   \<and> map getBaseIdentifier (getAllElements (exampleTagged [''a'', ''bogus''] [''x''])) = [''a'']
   \<and> lookupDirect (members (exampleTagged [''a'', ''bogus''] [''x''])) Id_CodingKeys
       = [TypeD (EnumT (userKeyEnum ''CodingKeys'' [''a'', ''bogus'']))]
   \<and> classifyCodingKeys (derivation (exampleTagged [''a'', ''bogus''] [''x'']) Decodable) = (Valid, [])"
  by (simp add: gate_defs lookup_defs example_defs example_defs4 exampleTagged_def)

lemma exampleTwoCases_facts:
  "kind (Nominal (derivation (exampleTwoCases as bs) Decodable)) = EnumKind"
  "lookupDirect (members (Nominal (derivation (exampleTwoCases as bs) Decodable))) Id_CodingKeys
     = TypeD (EnumT (userKeyEnum ''CodingKeys'' [''a'', ''b''])) # []"
  "validateCodingKeysProtocolConformance (TypeD (EnumT (userKeyEnum ''CodingKeys'' [''a'', ''b''])))
     = (Some (userKeyEnum ''CodingKeys'' [''a'', ''b'']), [])"
  "getAllElements (Nominal (derivation (exampleTwoCases as bs) Decodable))
     = [] @ \<lparr>getBaseIdentifier = ''a'',
              getParameterList = Some [parameter ''x'' (NominalType ''Int'')]\<rparr>
          # [\<lparr>getBaseIdentifier = ''b'',
               getParameterList = Some [parameter ''y'' (NominalType ''Int'')]\<rparr>]"
  by (simp_all add: derivation_def exampleTwoCases_def lookup_defs userKeyEnum_def)

theorem C4_enum_classification_witness:
  "classifyCodingKeys (derivation (exampleTwoCases [''bogus1''] [''bogus2'']) Decodable)
     = (Invalid, [codable_extraneous_codingkey_case_here ''bogus1''])
   \<and> classifyCodingKeys (derivation (exampleTwoCases [''x''] [''y'']) Decodable) = (Valid, [])"
proof -
  let ?a = "\<lparr>getBaseIdentifier = ''a'', getParameterList = Some [parameter ''x'' (NominalType ''Int'')]\<rparr>"
  let ?b = "\<lparr>getBaseIdentifier = ''b'', getParameterList = Some [parameter ''y'' (NominalType ''Int'')]\<rparr>"
  let ?D = "derivation (exampleTwoCases [''bogus1''] [''bogus2'']) Decodable"
  let ?V = "derivation (exampleTwoCases [''x''] [''y'']) Decodable"
  have f: "caseKeysFail ?D ?a"
    "caseKeysDiagnostics ?D ?a = [codable_extraneous_codingkey_case_here ''bogus1'']"
    by (simp_all add: caseKeysFail_def caseKeysDiagnostics_def caseKeysMalformed_def caseKeysEnum_def
        validateCaseCodingKeysEnum_def collectProperties_def lookup_defs parameter_def storedVar_def
        userKeyEnum_def derivation_def exampleTwoCases_def)
  have p: "\<not> caseKeysFail ?V ?a" "\<not> caseKeysFail ?V ?b"
    "\<not> someCaseWithoutKeyEnum (Nominal ?V)"
    by (simp_all add: caseKeysFail_def caseKeysMalformed_def caseKeysEnum_def
        someCaseWithoutKeyEnum_def validateCaseCodingKeysEnum_def collectProperties_def lookup_defs
        parameter_def storedVar_def userKeyEnum_def derivation_def exampleTwoCases_def)
  note t1 = C4_enum_classification[OF exampleTwoCases_facts(1,2,3), of "[''bogus1'']" "[''bogus2'']"]
  note t2 = C4_enum_classification[OF exampleTwoCases_facts(1,2,3), of "[''x'']" "[''y'']"]
  from t1 have "getAllElements (Nominal ?D) = [] @ ?a # [?b]
             \<and> (\<forall>earlier \<in> set []. \<not> caseKeysFail ?D earlier)
             \<and> caseKeysFail ?D ?a \<longrightarrow>
             classifyCodingKeys ?D = (Invalid, caseKeysDiagnostics ?D ?a)"
    by blast
  with exampleTwoCases_facts(4)[of "[''bogus1'']" "[''bogus2'']"] f
  have 1: "classifyCodingKeys ?D = (Invalid, [codable_extraneous_codingkey_case_here ''bogus1''])"
    by simp
  from t2 have "(\<forall>elt \<in> set (getAllElements (Nominal ?V)). \<not> caseKeysFail ?V elt) \<longrightarrow>
            classifyCodingKeys ?V =
              (if someCaseWithoutKeyEnum (Nominal ?V)
               then NeedsSynthesizedCodingKeys else Valid, [])"
    by blast
  with exampleTwoCases_facts(4)[of "[''x'']" "[''y'']"] p
  have 2: "classifyCodingKeys ?V = (Valid, [])"
    by simp
  from 1 2 show ?thesis by blast
qed
lemma validateCases_cong:
  "conformsToProtocol d1 = conformsToProtocol d2 \<Longrightarrow> Protocol d1 = Protocol d2 \<Longrightarrow>
   validateCases d1 keys props ok ds = validateCases d2 keys props ok ds"
  by (induction keys arbitrary: props ok ds) (auto split: option.splits)

lemma extends_fields:
  assumes "extends d d'"
  shows "conformsToProtocol d' = conformsToProtocol d" "Protocol d' = Protocol d"
    "kind (Nominal d') = kind (Nominal d)"
    "getSuperclassDecl (Nominal d') = getSuperclassDecl (Nominal d)"
    "\<exists>added. members (Nominal d') = members (Nominal d) @ added"
  using assms unfolding extends_def by auto

lemma validateCaseCodingKeysEnum_extends:
  assumes "extends d d'"
  shows "validateCaseCodingKeysEnum d' elt e = validateCaseCodingKeysEnum d elt e"
  unfolding validateCaseCodingKeysEnum_def
    validateCases_cong[OF extends_fields(1,2)[OF assms]] extends_fields(2)[OF assms] ..

lemma checkSuperInit_extends:
  assumes "extends d d'"
  shows "checkSuperInit d' r = checkSuperInit d r"
  unfolding checkSuperInit_def extends_fields(2,3,4)[OF assms] ..

lemma addParams_True:
  "addParams d vars cs ok ds = (cs', True, ds') \<Longrightarrow>
   ok \<and> ds' = ds \<and> cs' = cs @ map getVarNameForCoding (filter isUserAccessible vars)
   \<and> (\<forall>v \<in> set vars. isUserAccessible v
          \<longrightarrow> conformsToProtocol d (getValueInterfaceType v) (Protocol d))"
proof (induction vars arbitrary: cs ok ds)
  case Nil
  then show ?case by simp
next
  case (Cons v vars)
  have f: "\<And>cs0 ds0. addParams d vars cs0 False ds0 \<noteq> (cs', True, ds')"
  proof
    fix cs0 ds0 assume "addParams d vars cs0 False ds0 = (cs', True, ds')"
    from Cons.IH[OF this] show False by simp
  qed
  show ?case
  proof (cases ok)
    case False
    with Cons.prems f show ?thesis by simp
  next
    case True
    show ?thesis
    proof (cases "isUserAccessible v")
      case False
      with True Cons.prems have "addParams d vars cs True ds = (cs', True, ds')" by simp
      from Cons.IH[OF this] True False show ?thesis by simp
    next
      case ua: True
      show ?thesis
      proof (cases "conformsToProtocol d (getValueInterfaceType v) (Protocol d)")
        case False
        with True ua Cons.prems f show ?thesis by simp
      next
        case c: True
        with True ua Cons.prems have
          "addParams d vars (cs @ [getVarNameForCoding v]) True ds = (cs', True, ds')" by simp
        from Cons.IH[OF this] True ua c show ?thesis by simp
      qed
    qed
  qed
qed

lemma addStoredProperties_True:
  "addStoredProperties d vars cs ok ds = (cs', True, ds') \<Longrightarrow>
   ok \<and> ds' = ds \<and> cs' = cs @ map getVarNameForCoding (filter isUserAccessible vars)
   \<and> (\<forall>v \<in> set vars. isUserAccessible v
          \<longrightarrow> conformsToProtocol d (getValueInterfaceType v) (Protocol d))"
proof (induction vars arbitrary: cs ok ds)
  case Nil
  then show ?case by simp
next
  case (Cons v vars)
  show ?case
  proof (cases "isUserAccessible v")
    case False
    with Cons.prems have "addStoredProperties d vars cs ok ds = (cs', True, ds')" by simp
    from Cons.IH[OF this] False show ?thesis by simp
  next
    case ua: True
    show ?thesis
    proof (cases "conformsToProtocol d (getValueInterfaceType v) (Protocol d)")
      case False
      with ua Cons.prems have "addStoredProperties d vars cs False
             (ds @ [codable_non_conforming_property_here (getName v)]) = (cs', True, ds')" by simp
      from Cons.IH[OF this] show ?thesis by simp
    next
      case c: True
      with ua Cons.prems have
        "addStoredProperties d vars (cs @ [getVarNameForCoding v]) ok ds = (cs', True, ds')" by simp
      from Cons.IH[OF this] ua c show ?thesis by simp
    qed
  qed
qed

lemma collectProperties_distinct:
  assumes "distinct (map getVarNameForCoding (filter isUserAccessible vars))"
  shows "collectProperties vars = map (\<lambda>v. (getVarNameForCoding v, v)) (filter isUserAccessible vars)"
proof -
  have "\<And>acc. distinct (map fst acc @ map getVarNameForCoding (filter isUserAccessible vars)) \<Longrightarrow>
     foldl (\<lambda>properties varDecl.
              if \<not> isUserAccessible varDecl then properties
              else AList.update (getVarNameForCoding varDecl) varDecl properties) acc vars
     = acc @ map (\<lambda>v. (getVarNameForCoding v, v)) (filter isUserAccessible vars)"
  proof (induction vars)
    case Nil
    then show ?case by simp
  next
    case (Cons v vars)
    show ?case
    proof (cases "isUserAccessible v")
      case False
      with Cons show ?thesis by simp
    next
      case True
      with Cons.prems have n: "getVarNameForCoding v \<notin> fst ` set acc" by auto
      have u: "AList.update (getVarNameForCoding v) v acc = acc @ [(getVarNameForCoding v, v)]"
        using n by (induction acc) auto
      from True Cons.prems have
        "distinct (map fst (acc @ [(getVarNameForCoding v, v)])
                   @ map getVarNameForCoding (filter isUserAccessible vars))" by auto
      from Cons.IH[OF this] True u show ?thesis by simp
    qed
  qed
  from this[of "[]"] assms show ?thesis by (simp add: collectProperties_def)
qed

lemma validateCases_own_keys:
  assumes "distinct (map getVarNameForCoding (filter isUserAccessible vars))"
    and "\<forall>v \<in> set vars. isUserAccessible v
          \<longrightarrow> conformsToProtocol d (getValueInterfaceType v) (Protocol d)"
  shows "validateCases d (map getVarNameForCoding (filter isUserAccessible vars))
           (collectProperties vars) True [] = ([], True, [])"
proof -
  let ?vs = "filter isUserAccessible vars"
  let ?props = "map (\<lambda>v. (getVarNameForCoding v, v)) ?vs"
  have m: "\<forall>elt \<in> set (map getVarNameForCoding ?vs). \<exists>var. map_of ?props elt = Some var
       \<and> conformsToProtocol d (getValueInterfaceType var) (Protocol d)"
  proof
    fix elt assume "elt \<in> set (map getVarNameForCoding ?vs)"
    then obtain v where v: "v \<in> set ?vs" "elt = getVarNameForCoding v" by auto
    have "distinct (map fst ?props)" using assms(1) by (simp add: comp_def)
    moreover have "(elt, v) \<in> set ?props" using v by auto
    ultimately have "map_of ?props elt = Some v" by (rule map_of_is_SomeI)
    with v assms(2) show "\<exists>var. map_of ?props elt = Some var
       \<and> conformsToProtocol d (getValueInterfaceType var) (Protocol d)" by auto
  qed
  have "filter (\<lambda>entry. fst entry \<notin> set (map getVarNameForCoding ?vs)) ?props = []"
    by (auto simp: filter_empty_conv)
  with validateCases_all_valid[OF assms(1) m, of True "[]"] collectProperties_distinct[OF assms(1)]
  show ?thesis by simp
qed

lemma needsCaseEnum_addMember:
  "getBaseIdentifier elt \<noteq> getBaseIdentifier e \<Longrightarrow>
   needsCaseEnum ck (ms @ [TypeD (EnumT (implicitKeyEnum
        (combineIdentifiers Id_CodingKeys (getBaseIdentifier e)) cs))]) elt
     = needsCaseEnum ck ms elt"
  by (simp add: needsCaseEnum_def lookupDirect_Cons)

lemma synthesizeCaseEnums_True:
  "distinct (map getBaseIdentifier elts) \<Longrightarrow>
   synthesizeCaseEnums ck elts d ok ds = (d', True, ds') \<Longrightarrow>
   ok \<and> ds' = ds
   \<and> d' = d\<lparr>Nominal := (Nominal d)\<lparr>members := members (Nominal d)
               @ map caseKeyEnumDecl (filter (needsCaseEnum ck (members (Nominal d))) elts)\<rparr>\<rparr>
   \<and> (\<forall>elt \<in> set elts. needsCaseEnum ck (members (Nominal d)) elt \<longrightarrow>
         (\<forall>p \<in> set (paramsOf elt). isUserAccessible p
             \<longrightarrow> conformsToProtocol d (getValueInterfaceType p) (Protocol d)))"
proof (induction elts arbitrary: d ok ds)
  case Nil
  then show ?case by simp
next
  case (Cons e elts)
  from Cons.prems(1) have dist: "distinct (map getBaseIdentifier elts)"
    and ni: "getBaseIdentifier e \<notin> getBaseIdentifier ` set elts" by simp_all
  from ni have ne: "\<forall>elt \<in> set elts. getBaseIdentifier elt \<noteq> getBaseIdentifier e"
    by (metis image_eqI)
  show ?case
  proof (cases "needsCaseEnum ck (members (Nominal d)) e")
    case False
    with Cons.prems(2) have "synthesizeCaseEnums ck elts d ok ds = (d', True, ds')"
      by (simp add: synthesizeCaseEnums_skip)
    from Cons.IH[OF dist this] False show ?thesis by simp
  next
    case True
    obtain cs okA dsA where p: "addParams d (paramsOf e) [] ok ds = (cs, okA, dsA)"
      by (metis prod_cases3)
    let ?N = "TypeD (EnumT (implicitKeyEnum (combineIdentifiers Id_CodingKeys (getBaseIdentifier e)) cs))"
    let ?d1 = "addMember ?N d"
    from True Cons.prems(2) p have r: "synthesizeCaseEnums ck elts ?d1 okA dsA = (d', True, ds')"
      by (simp add: synthesizeCaseEnums_add)
    from Cons.IH[OF dist r] have okA: okA and dsA: "ds' = dsA"
      and d': "d' = ?d1\<lparr>Nominal := (Nominal ?d1)\<lparr>members := members (Nominal ?d1)
               @ map caseKeyEnumDecl (filter (needsCaseEnum ck (members (Nominal ?d1))) elts)\<rparr>\<rparr>"
      and c: "\<forall>elt \<in> set elts. needsCaseEnum ck (members (Nominal ?d1)) elt \<longrightarrow>
         (\<forall>p \<in> set (paramsOf elt). isUserAccessible p
             \<longrightarrow> conformsToProtocol ?d1 (getValueInterfaceType p) (Protocol ?d1))"
      by blast+
    from p okA addParams_True[of d "paramsOf e" "[]" ok ds cs dsA] have
      ok: ok and ds: "dsA = ds"
      and cs: "cs = map getVarNameForCoding (filter isUserAccessible (paramsOf e))"
      and ce: "\<forall>v \<in> set (paramsOf e). isUserAccessible v
          \<longrightarrow> conformsToProtocol d (getValueInterfaceType v) (Protocol d)"
      by auto
    have f: "filter (needsCaseEnum ck (members (Nominal ?d1))) elts
             = filter (needsCaseEnum ck (members (Nominal d))) elts"
      using ne by (intro filter_cong) (auto simp: needsCaseEnum_addMember)
    have N: "?N = caseKeyEnumDecl e" by (simp add: caseKeyEnumDecl_def cs)
    have 1: "d' = d\<lparr>Nominal := (Nominal d)\<lparr>members := members (Nominal d)
               @ map caseKeyEnumDecl (filter (needsCaseEnum ck (members (Nominal d))) (e # elts))\<rparr>\<rparr>"
      using True f unfolding d' by (simp add: addMember_def N)
    have 2: "\<forall>elt \<in> set (e # elts). needsCaseEnum ck (members (Nominal d)) elt \<longrightarrow>
         (\<forall>p \<in> set (paramsOf elt). isUserAccessible p
             \<longrightarrow> conformsToProtocol d (getValueInterfaceType p) (Protocol d))"
      using c ce ne by (auto simp: needsCaseEnum_addMember addMember_def)
    from ok dsA ds 1 2 show ?thesis by blast
  qed
qed

lemma synthesizeCaseEnums_nothing:
  "\<forall>elt \<in> set elts. \<not> needsCaseEnum ck (members (Nominal d)) elt \<Longrightarrow>
   synthesizeCaseEnums ck elts d ok ds = (d, ok, ds)"
  by (induction elts) (simp_all add: synthesizeCaseEnums_skip)

lemma classifyCases_result:
  "fst (classifyCases d elts needs ds) \<noteq> Invalid \<Longrightarrow>
   fst (classifyCases d elts needs ds)
     = (if needs \<or> (\<exists>elt \<in> set elts. lookupDirect (members (Nominal d))
                         (combineIdentifiers Id_CodingKeys (getBaseIdentifier elt)) = [])
        then NeedsSynthesizedCodingKeys else Valid)"
proof (induction elts arbitrary: needs ds)
  case Nil
  then show ?case by simp
next
  case (Cons elt elts)
  show ?case
  proof (cases "lookupDirect (members (Nominal d)) (combineIdentifiers Id_CodingKeys (getBaseIdentifier elt))")
    case Nil
    with Cons.prems have "fst (classifyCases d elts True ds) \<noteq> Invalid" by simp
    from Cons.IH[OF this] Nil show ?thesis by simp
  next
    case (Cons front others)
    obtain r ds0 where v: "validateCodingKeysProtocolConformance front = (r, ds0)" by force
    show ?thesis
    proof (cases r)
      case None
      with Cons v Cons.prems show ?thesis by simp
    next
      case (Some e)
      obtain b ds1 where c: "validateCaseCodingKeysEnum d elt e = (b, ds1)" by force
      show ?thesis
      proof (cases b)
        case False
        with Some Cons v c Cons.prems show ?thesis by simp
      next
        case True
        with Some Cons v c Cons.prems have
          "fst (classifyCases d elts needs (ds @ ds0 @ ds1)) \<noteq> Invalid" by simp
        from Cons.IH[OF this] True Some Cons v c show ?thesis by simp
      qed
    qed
  qed
qed

lemma lookupEvaluatedCodingKeysEnum_valid:
  "lookupDirect ms n = front # others \<Longrightarrow>
   validateCodingKeysProtocolConformance front = (Some e, ds) \<Longrightarrow>
   lookupEvaluatedCodingKeysEnum ms n = Inr (Some e)"
  using validateCodingKeysProtocolConformance_Some[of front e ds]
  by (auto simp: lookupEvaluatedCodingKeysEnum_def)

lemma enumAllElements_implicitKeyEnum [simp]:
  "enumAllElements (implicitKeyEnum n cs) = cs"
  by (induction cs) (simp_all add: enumAllElements_def)

lemma lookupEnumCase_implicitKeyEnum [simp]:
  "lookupEnumCase (implicitKeyEnum n cs) k = (if k \<in> set cs then Some k else None)"
proof -
  have "(case filter (\<lambda>m. memberName m = k) (map ElementM cs) of
           [] \<Rightarrow> None | ElementM c # others \<Rightarrow> Some c | OtherM c # others \<Rightarrow> None)
        = (if k \<in> set cs then Some k else None)"
    by (induction cs) auto
  then show ?thesis by (simp add: lookupEnumCase_def enumLookupDirect_def)
qed

lemma getAllElements_append_types:
  "\<forall>m \<in> set added. \<exists>r. m = TypeD r \<Longrightarrow>
   concat (map (\<lambda>d. case d of EnumElementD e \<Rightarrow> [e] | _ \<Rightarrow> []) (ms @ added))
     = concat (map (\<lambda>d. case d of EnumElementD e \<Rightarrow> [e] | _ \<Rightarrow> []) ms)"
  by (induction added) auto

lemma getStoredProperties_addMember_type [simp]:
  "getStoredProperties (Nominal (addMember (TypeD r) d)) = getStoredProperties (Nominal d)"
  by (simp add: getStoredProperties_def addMember_def)

lemma extends_addMember_fields [simp]:
  "conformsToProtocol (addMember m d) = conformsToProtocol d"
  "Protocol (addMember m d) = Protocol d"
  "kind (Nominal (addMember m d)) = kind (Nominal d)"
  by (simp_all add: addMember_def)

lemma second_run_record:
  assumes k: "kind (Nominal d) \<noteq> EnumKind"
    and l: "lookupDirect (members (Nominal d)) Id_CodingKeys = []"
    and s: "synthesizeCodingKeysEnum d = Inr (True, d', ds)"
    and dist: "distinct (map getVarNameForCoding
                 (filter isUserAccessible (getStoredProperties (Nominal d))))"
    and ns: "\<not> superclassConformsTo (Nominal d) Encodable"
            "\<not> superclassConformsTo (Nominal d) Decodable"
  shows "classifyCodingKeys d' = (Valid, [])"
proof -
  let ?vars = "getStoredProperties (Nominal d)"
  obtain cs ok dsA where a: "addStoredProperties d ?vars [] True [] = (cs, ok, dsA)"
    by (metis prod_cases3)
  let ?K = "implicitKeyEnum Id_CodingKeys cs"
  from s k ns a have ok: ok and d': "d' = addMember (TypeD (EnumT ?K)) d"
    by (auto simp: synthesizeCodingKeysEnum_def Let_def split: if_splits)
  from a ok addStoredProperties_True[of d ?vars "[]" True "[]" cs dsA] have
    cs: "cs = map getVarNameForCoding (filter isUserAccessible ?vars)"
    and c: "\<forall>v \<in> set ?vars. isUserAccessible v
          \<longrightarrow> conformsToProtocol d (getValueInterfaceType v) (Protocol d)"
    by auto
  from c have c': "\<forall>v \<in> set ?vars. isUserAccessible v
          \<longrightarrow> conformsToProtocol d' (getValueInterfaceType v) (Protocol d')"
    by (simp add: d')
  have v: "validateCases d' cs (collectProperties ?vars) True [] = ([], True, [])"
    unfolding cs by (rule validateCases_own_keys[OF dist c'])
  have vk: "validateCodingKeysEnum d' ?K = (True, [])"
    unfolding validateCodingKeysEnum_def by (simp add: d' v[unfolded d'] Let_def)
  have lk: "lookupDirect (members (Nominal d')) Id_CodingKeys = [TypeD (EnumT ?K)]"
    by (simp add: d' l lookupDirect_Cons)
  show ?thesis
    unfolding classifyCodingKeys_def lk using k vk by (simp add: d')
qed

lemma declName_caseKeyEnumDecl [simp]:
  "declName (caseKeyEnumDecl elt) = combineIdentifiers Id_CodingKeys (getBaseIdentifier elt)"
  by (simp add: caseKeyEnumDecl_def)

lemma lookupDirect_caseKeyEnumDecls_outer:
  "lookupDirect (map caseKeyEnumDecl xs) Id_CodingKeys = []"
  by (induction xs) (simp_all add: lookupDirect_Cons)

lemma lookupDirect_caseKeyEnumDecls:
  "distinct (map getBaseIdentifier xs) \<Longrightarrow> elt \<in> set xs \<Longrightarrow>
   lookupDirect (map caseKeyEnumDecl (filter P xs))
       (combineIdentifiers Id_CodingKeys (getBaseIdentifier elt))
     = (if P elt then [caseKeyEnumDecl elt] else [])"
proof (induction xs)
  case Nil
  then show ?case by simp
next
  case (Cons x xs)
  from Cons.prems(1) have dist: "distinct (map getBaseIdentifier xs)"
    and ni: "getBaseIdentifier x \<notin> getBaseIdentifier ` set xs" by simp_all
  have none: "\<And>Q. lookupDirect (map caseKeyEnumDecl (filter Q xs))
                  (combineIdentifiers Id_CodingKeys (getBaseIdentifier x)) = []"
  proof -
    fix Q
    have "\<forall>y \<in> set (filter Q xs). getBaseIdentifier y \<noteq> getBaseIdentifier x"
      using ni by (metis filter_is_subset image_eqI subsetD)
    then show "lookupDirect (map caseKeyEnumDecl (filter Q xs))
                  (combineIdentifiers Id_CodingKeys (getBaseIdentifier x)) = []"
      by (induction "filter Q xs" arbitrary: xs) (auto simp: lookupDirect_def filter_empty_conv)
  qed
  show ?case
  proof (cases "elt = x")
    case True
    then show ?thesis using none[of P] by (simp add: lookupDirect_Cons)
  next
    case False
    with Cons.prems(2) have m: "elt \<in> set xs" by simp
    with ni have "getBaseIdentifier x \<noteq> getBaseIdentifier elt" by (metis image_eqI)
    with Cons.IH[OF dist m] show ?thesis by (simp add: lookupDirect_Cons)
  qed
qed

lemma validateCaseCodingKeysEnum_own:
  assumes "distinct (map getVarNameForCoding (filter isUserAccessible (paramsOf elt)))"
    and "\<forall>p \<in> set (paramsOf elt). isUserAccessible p
          \<longrightarrow> conformsToProtocol d (getValueInterfaceType p) (Protocol d)"
  shows "validateCaseCodingKeysEnum d elt
           (implicitKeyEnum n (map getVarNameForCoding (filter isUserAccessible (paramsOf elt))))
         = (True, [])"
proof -
  have p: "(case getParameterList elt of None \<Rightarrow> [] | Some params \<Rightarrow> collectProperties params)
           = collectProperties (paramsOf elt)"
    by (cases "getParameterList elt") (simp_all add: paramsOf_def collectProperties_def)
  show ?thesis
    unfolding validateCaseCodingKeysEnum_def p
    by (simp add: validateCases_own_keys[OF assms] Let_def)
qed

lemma validateCodingKeysProtocolConformance_caseKeyEnumDecl:
  "validateCodingKeysProtocolConformance (caseKeyEnumDecl elt)
     = (Some (implicitKeyEnum (combineIdentifiers Id_CodingKeys (getBaseIdentifier elt))
                (map getVarNameForCoding (filter isUserAccessible (paramsOf elt)))), [])"
  by (simp add: caseKeyEnumDecl_def)

lemma classifyCodingKeys_enum:
  assumes "kind (Nominal d) = EnumKind"
  shows "classifyCodingKeys d =
     (case lookupDirect (members (Nominal d)) Id_CodingKeys of
        [] \<Rightarrow> classifyCases d (getAllElements (Nominal d)) True []
      | front # others \<Rightarrow>
          (case validateCodingKeysProtocolConformance front of
             (None, ds) \<Rightarrow> (Invalid, ds)
           | (Some ck, ds) \<Rightarrow> classifyCases d (getAllElements (Nominal d)) False ds))"
  using assms by (simp add: classifyCodingKeys_def split: list.splits option.splits prod.splits)

lemma classifyCodingKeys_enum_valid_cases:
  assumes "kind (Nominal d) = EnumKind" and "fst (classifyCodingKeys d) \<noteq> Invalid"
    and "elt \<in> set (getAllElements (Nominal d))"
  shows "\<not> caseKeysMalformed (members (Nominal d)) elt"
    and "caseKeysEnum (members (Nominal d)) elt = Some e \<Longrightarrow> fst (validateCaseCodingKeysEnum d elt e)"
proof -
  from assms(2) obtain needs ds where
    "fst (classifyCases d (getAllElements (Nominal d)) needs ds) \<noteq> Invalid"
    unfolding classifyCodingKeys_enum[OF assms(1)]
    by (auto split: list.splits option.splits prod.splits)
  then have "\<not> (caseKeysMalformed (members (Nominal d)) elt
          \<or> (\<exists>e. caseKeysEnum (members (Nominal d)) elt = Some e
                 \<and> \<not> fst (validateCaseCodingKeysEnum d elt e)))"
    unfolding classifyCases_Invalid using assms(3) by blast
  then show "\<not> caseKeysMalformed (members (Nominal d)) elt"
    and "caseKeysEnum (members (Nominal d)) elt = Some e \<Longrightarrow> fst (validateCaseCodingKeysEnum d elt e)"
    by blast+
qed

lemma second_run_enum:
  assumes k: "kind (Nominal d) = EnumKind"
    and c1: "fst (classifyCodingKeys d) \<noteq> Invalid"
    and s: "synthesizeCodingKeysEnum d = Inr (True, d', ds)"
    and wf: "distinctNames (Nominal d)"
  shows "fst (classifyCodingKeys d') \<noteq> Invalid \<and> synthesizeCodingKeysEnum d' = Inr (True, d', [])
         \<and> lookupDirect (members (Nominal d')) Id_CodingKeys \<noteq> []"
proof -
  let ?ms = "members (Nominal d)"
  let ?elts = "getAllElements (Nominal d)"
  let ?K = "implicitKeyEnum Id_CodingKeys (map getBaseIdentifier ?elts)"
  from wf have dn: "distinct (map getBaseIdentifier ?elts)"
    and dp: "\<forall>elt \<in> set ?elts. \<not> hasAnyUnnamedParameters elt \<longrightarrow>
               distinct (map getVarNameForCoding (filter isUserAccessible (paramsOf elt)))"
    by (simp_all add: distinctNames_def)
  \<comment> \<open>the outer key enum, and what the synthesizer adds for it\<close>
  have se: "synthesizeCodingKeysEnum_enum d = Inr (True, d', ds)"
    using s k by (simp add: synthesizeCodingKeysEnum_def)
  then obtain found where
    lf: "lookupEvaluatedCodingKeysEnum ?ms Id_CodingKeys = Inr found"
    by (auto simp: synthesizeCodingKeysEnum_enum_def Let_def split: sum.splits)
  obtain pre ck where
    o: "(case found of
           Some codingKeysEnum \<Rightarrow> (codingKeysEnum, d)
         | None \<Rightarrow> (?K, addMember (TypeD (EnumT ?K)) d))
        = (ck, d\<lparr>Nominal := (Nominal d)\<lparr>members := ?ms @ pre\<rparr>\<rparr>)"
    and pn: "\<forall>n. lookupDirect pre (combineIdentifiers Id_CodingKeys n) = []"
    and pt: "\<forall>m \<in> set pre. \<exists>r. m = TypeD r"
    and hd: "\<exists>front others. lookupDirect (?ms @ pre) Id_CodingKeys = front # others
               \<and> validateCodingKeysProtocolConformance front = (Some ck, [])"
  proof (cases "lookupDirect ?ms Id_CodingKeys")
    case Nil
    then have "lookupEvaluatedCodingKeysEnum ?ms Id_CodingKeys = Inr None"
      by (simp add: lookupEvaluatedCodingKeysEnum_def)
    with lf have "found = None" by simp
    then have "(case found of
           Some codingKeysEnum \<Rightarrow> (codingKeysEnum, d)
         | None \<Rightarrow> (?K, addMember (TypeD (EnumT ?K)) d))
        = (?K, d\<lparr>Nominal := (Nominal d)\<lparr>members := ?ms @ [TypeD (EnumT ?K)]\<rparr>\<rparr>)"
      by (simp add: addMember_def)
    moreover have "\<forall>n. lookupDirect [TypeD (EnumT ?K)] (combineIdentifiers Id_CodingKeys n) = []"
      by (simp add: lookupDirect_Cons)
    moreover have "\<exists>front others. lookupDirect (?ms @ [TypeD (EnumT ?K)]) Id_CodingKeys = front # others
               \<and> validateCodingKeysProtocolConformance front = (Some ?K, [])"
      using Nil by (simp add: lookupDirect_Cons)
    ultimately show ?thesis using that[of ?K "[TypeD (EnumT ?K)]"] by simp
  next
    case (Cons front others)
    from c1 Cons obtain ck0 ds0 where v: "validateCodingKeysProtocolConformance front = (Some ck0, ds0)"
      unfolding classifyCodingKeys_enum[OF k]
      by (cases "validateCodingKeysProtocolConformance front") (auto split: option.splits)
    from validateCodingKeysProtocolConformance_Some[OF v] have ds0: "ds0 = []" by simp
    from lookupEvaluatedCodingKeysEnum_valid[OF Cons v] lf have "found = Some ck0" by simp
    then have "(case found of
           Some codingKeysEnum \<Rightarrow> (codingKeysEnum, d)
         | None \<Rightarrow> (?K, addMember (TypeD (EnumT ?K)) d))
        = (ck0, d\<lparr>Nominal := (Nominal d)\<lparr>members := ?ms @ []\<rparr>\<rparr>)"
      by simp
    moreover have "\<exists>front others. lookupDirect (?ms @ []) Id_CodingKeys = front # others
               \<and> validateCodingKeysProtocolConformance front = (Some ck0, [])"
      using Cons v ds0 by simp
    ultimately show ?thesis using that[of ck0 "[]"] by simp
  qed
  let ?d0 = "d\<lparr>Nominal := (Nominal d)\<lparr>members := ?ms @ pre\<rparr>\<rparr>"
  let ?needs = "needsCaseEnum ck (?ms @ pre)"
  let ?added = "map caseKeyEnumDecl (filter ?needs ?elts)"
  let ?ms' = "?ms @ pre @ ?added"
  have o': "(case found of
           Some codingKeysEnum \<Rightarrow> (codingKeysEnum, d)
         | None \<Rightarrow> (let enumDecl = ?K in (enumDecl, addMember (TypeD (EnumT enumDecl)) d)))
        = (ck, ?d0)"
    using o by (cases found) (auto simp: Let_def)
  from se have r: "synthesizeCaseEnums ck ?elts ?d0 True [] = (d', True, ds)"
    unfolding synthesizeCodingKeysEnum_enum_def Let_def[of "Nominal d"] lf sum.case o'
    by (simp split: prod.splits)
  from synthesizeCaseEnums_True[OF dn r] have ds: "ds = []"
    and d': "d' = d\<lparr>Nominal := (Nominal d)\<lparr>members := ?ms'\<rparr>\<rparr>"
    and conf: "\<forall>elt \<in> set ?elts. ?needs elt \<longrightarrow>
         (\<forall>p \<in> set (paramsOf elt). isUserAccessible p
             \<longrightarrow> conformsToProtocol d (getValueInterfaceType p) (Protocol d))"
    by simp_all
  have ext: "extends d d'" unfolding extends_def d' by blast
  have k': "kind (Nominal d') = EnumKind" using k by (simp add: d')
  have ms': "members (Nominal d') = ?ms'" by (simp add: d')
  have elts': "getAllElements (Nominal d') = ?elts"
  proof -
    have "\<forall>m \<in> set (pre @ ?added). \<exists>r. m = TypeD r"
      using pt by (auto simp: caseKeyEnumDecl_def)
    from getAllElements_append_types[OF this, of ?ms] show ?thesis
      by (simp add: getAllElements_def d')
  qed
  from hd obtain front others where
    f: "lookupDirect (?ms @ pre) Id_CodingKeys = front # others"
    and fv: "validateCodingKeysProtocolConformance front = (Some ck, [])" by blast
  have f': "lookupDirect ?ms' Id_CodingKeys = front # others"
    using f by (simp add: lookupDirect_caseKeyEnumDecls_outer)
  \<comment> \<open>what the second run finds under the name of each case\<close>
  have look: "\<And>elt. elt \<in> set ?elts \<Longrightarrow>
      lookupDirect ?ms' (combineIdentifiers Id_CodingKeys (getBaseIdentifier elt))
        = lookupDirect ?ms (combineIdentifiers Id_CodingKeys (getBaseIdentifier elt))
          @ (if ?needs elt then [caseKeyEnumDecl elt] else [])"
    using pn by (simp add: lookupDirect_caseKeyEnumDecls[OF dn])
  have cases_ok: "\<And>elt. elt \<in> set ?elts \<Longrightarrow>
      \<not> (caseKeysMalformed ?ms' elt
          \<or> (\<exists>e. caseKeysEnum ?ms' elt = Some e \<and> \<not> fst (validateCaseCodingKeysEnum d' elt e)))"
  proof -
    fix elt assume m: "elt \<in> set ?elts"
    let ?n = "combineIdentifiers Id_CodingKeys (getBaseIdentifier elt)"
    show "\<not> (caseKeysMalformed ?ms' elt
          \<or> (\<exists>e. caseKeysEnum ?ms' elt = Some e \<and> \<not> fst (validateCaseCodingKeysEnum d' elt e)))"
    proof (cases "lookupDirect ?ms ?n")
      case (Cons g gs)
      then have "caseKeysMalformed ?ms' elt = caseKeysMalformed ?ms elt"
        "caseKeysEnum ?ms' elt = caseKeysEnum ?ms elt"
        unfolding caseKeysMalformed_def caseKeysEnum_def look[OF m] by simp_all
      with classifyCodingKeys_enum_valid_cases[OF k c1 m]
        validateCaseCodingKeysEnum_extends[OF ext]
      show ?thesis by auto
    next
      case Nil
      show ?thesis
      proof (cases "?needs elt")
        case False
        with Nil show ?thesis
          unfolding caseKeysMalformed_def caseKeysEnum_def look[OF m] by simp
      next
        case True
        let ?e = "implicitKeyEnum ?n (map getVarNameForCoding (filter isUserAccessible (paramsOf elt)))"
        from True Nil have l: "lookupDirect ?ms' ?n = [caseKeyEnumDecl elt]"
          unfolding look[OF m] by simp
        from True have "\<not> hasAnyUnnamedParameters elt" by (simp add: needsCaseEnum_def)
        then have v: "validateCaseCodingKeysEnum d elt ?e = (True, [])"
          using validateCaseCodingKeysEnum_own[of elt d ?n] dp conf m True by blast
        show ?thesis
          unfolding caseKeysMalformed_def caseKeysEnum_def l
          by (simp add: validateCodingKeysProtocolConformance_caseKeyEnumDecl
              validateCaseCodingKeysEnum_extends[OF ext] v)
      qed
    qed
  qed
  have c2: "fst (classifyCodingKeys d') \<noteq> Invalid"
    unfolding classifyCodingKeys_enum[OF k'] ms' f' elts'
    using fv cases_ok by (simp add: classifyCases_Invalid ms')
  \<comment> \<open>the second synthesis adds nothing\<close>
  have ev: "lookupEvaluatedCodingKeysEnum ?ms' Id_CodingKeys = Inr (Some ck)"
    by (rule lookupEvaluatedCodingKeysEnum_valid[OF f' fv])
  have none: "\<forall>elt \<in> set ?elts. \<not> needsCaseEnum ck (members (Nominal d')) elt"
  proof
    fix elt assume m: "elt \<in> set ?elts"
    show "\<not> needsCaseEnum ck (members (Nominal d')) elt"
    proof
      assume n: "needsCaseEnum ck (members (Nominal d')) elt"
      then have "lookupDirect ?ms' (combineIdentifiers Id_CodingKeys (getBaseIdentifier elt)) = []"
        by (simp add: needsCaseEnum_def ms')
      then have e: "lookupDirect ?ms (combineIdentifiers Id_CodingKeys (getBaseIdentifier elt)) = []"
        and ne: "\<not> ?needs elt"
        unfolding look[OF m] by (simp_all split: if_splits)
      from n e pn have "?needs elt" by (simp add: needsCaseEnum_def)
      with ne show False by contradiction
    qed
  qed
  have "synthesizeCaseEnums ck ?elts d' True [] = (d', True, [])"
    by (rule synthesizeCaseEnums_nothing[OF none])
  then have s2: "synthesizeCodingKeysEnum d' = Inr (True, d', [])"
    using k' ev by (simp add: synthesizeCodingKeysEnum_def synthesizeCodingKeysEnum_enum_def
        Let_def ms' elts')
  from c2 s2 f' show ?thesis by (simp add: ms')
qed

lemma classifyCodingKeys_enum_result:
  assumes "kind (Nominal d) = EnumKind" and "fst (classifyCodingKeys d) \<noteq> Invalid"
  shows "fst (classifyCodingKeys d)
     = (if lookupDirect (members (Nominal d)) Id_CodingKeys = [] \<or> someCaseWithoutKeyEnum (Nominal d)
        then NeedsSynthesizedCodingKeys else Valid)"
proof (cases "lookupDirect (members (Nominal d)) Id_CodingKeys")
  case Nil
  with assms(2) have "fst (classifyCases d (getAllElements (Nominal d)) True []) \<noteq> Invalid"
    unfolding classifyCodingKeys_enum[OF assms(1)] by simp
  from classifyCases_result[OF this] Nil show ?thesis
    unfolding classifyCodingKeys_enum[OF assms(1)] by simp
next
  case (Cons front others)
  with assms(2) obtain ck ds where v: "validateCodingKeysProtocolConformance front = (Some ck, ds)"
    unfolding classifyCodingKeys_enum[OF assms(1)]
    by (cases "validateCodingKeysProtocolConformance front") (auto split: option.splits)
  with Cons assms(2) have "fst (classifyCases d (getAllElements (Nominal d)) False ds) \<noteq> Invalid"
    unfolding classifyCodingKeys_enum[OF assms(1)] by simp
  from classifyCases_result[OF this] Cons v show ?thesis
    unfolding classifyCodingKeys_enum[OF assms(1)] by (simp add: someCaseWithoutKeyEnum_def)
qed

lemma exampleShape_first_run:
  "canSynthesize (derivation exampleShape Decodable) initFrom
     = Inr (True, derivation exampleShapeSynthesized Decodable, [])"
  using exampleShape_synthesis
  by (simp add: canSynthesize_def checkSuperInit_def classifyCodingKeys_def
      lookup_defs example_defs example_defs4)

subsection \<open>C9: a second run of the gate\<close>

text \<open>
  Claim C9, amended. After a successful run of \<open>canSynthesize\<close>, a second run on the
  resulting target with the same protocol and requirement succeeds again and leaves the
  target as it is: no key enum is added. The second classification is \<open>Valid\<close> for a
  struct or class; for an enum it is \<open>Valid\<close> when every case has a declaration named
  \<open>CodingKeys_<case>\<close> by then, and \<open>NeedsSynthesizedCodingKeys\<close> when some case still has
  none, in which case the synthesizer runs again and adds nothing. This is for a target
  whose member names, case names and labels of named parameters are distinct; a class whose
  superclass conforms to \<open>Encodable\<close> or \<open>Decodable\<close> is covered when it declares its
  \<open>CodingKeys\<close> itself.
\<close>

theorem C9_second_run:
  assumes first: "canSynthesize derived requirement = Inr (True, derived', diags)"
    and wf: "distinctNames (Nominal derived)"
    and sup: "superclassConformsTo (Nominal derived) Encodable
                \<or> superclassConformsTo (Nominal derived) Decodable
              \<longrightarrow> lookupDirect (members (Nominal derived)) Id_CodingKeys \<noteq> []"
  shows "(\<exists>diags'. canSynthesize derived' requirement = Inr (True, derived', diags'))
       \<and> fst (classifyCodingKeys derived')
           = (if kind (Nominal derived') = EnumKind \<and> someCaseWithoutKeyEnum (Nominal derived')
              then NeedsSynthesizedCodingKeys else Valid)"
proof -
  obtain c ds1 where cl: "classifyCodingKeys derived = (c, ds1)" by force
  from first have cs: "checkSuperInit derived requirement = None"
    by (auto simp: canSynthesize_def split: option.splits)
  have ext: "extends derived derived'" by (rule canSynthesize_extends[OF first])
  have cs': "checkSuperInit derived' requirement = None"
    using checkSuperInit_extends[OF ext] cs by simp
  have k': "kind (Nominal derived') = kind (Nominal derived)" by (rule extends_fields(3)[OF ext])
  show ?thesis
  proof (cases c)
    case Invalid
    with first cs cl show ?thesis by (simp add: canSynthesize_def)
  next
    case Valid
    with first cs cl have same: "derived' = derived" by (simp add: canSynthesize_def)
    have "fst (classifyCodingKeys derived)
           = (if kind (Nominal derived) = EnumKind \<and> someCaseWithoutKeyEnum (Nominal derived)
              then NeedsSynthesizedCodingKeys else Valid)"
    proof (cases "kind (Nominal derived) = EnumKind")
      case True
      from classifyCodingKeys_enum_result[OF True] cl Valid True show ?thesis
        by (auto split: if_splits)
    next
      case False
      with cl Valid show ?thesis by simp
    qed
    with first same show ?thesis by simp
  next
    case NeedsSynthesizedCodingKeys
    with first cs cl obtain ds2 where
      s: "synthesizeCodingKeysEnum derived = Inr (True, derived', ds2)"
      by (auto simp: canSynthesize_def split: prod.splits sum.splits)
    show ?thesis
    proof (cases "kind (Nominal derived) = EnumKind")
      case True
      from cl NeedsSynthesizedCodingKeys have "fst (classifyCodingKeys derived) \<noteq> Invalid" by simp
      from second_run_enum[OF True this s wf] have
        c2: "fst (classifyCodingKeys derived') \<noteq> Invalid"
        and s2: "synthesizeCodingKeysEnum derived' = Inr (True, derived', [])"
        and l2: "lookupDirect (members (Nominal derived')) Id_CodingKeys \<noteq> []" by blast+
      obtain c' ds' where cl': "classifyCodingKeys derived' = (c', ds')" by force
      from c2 cl' cs' s2 have "\<exists>diags'. canSynthesize derived' requirement = Inr (True, derived', diags')"
        by (cases c') (simp_all add: canSynthesize_def)
      moreover from classifyCodingKeys_enum_result[OF _ c2] True k' l2 have
        "fst (classifyCodingKeys derived')
           = (if kind (Nominal derived') = EnumKind \<and> someCaseWithoutKeyEnum (Nominal derived')
              then NeedsSynthesizedCodingKeys else Valid)" by simp
      ultimately show ?thesis by blast
    next
      case False
      from cl NeedsSynthesizedCodingKeys False have
        l: "lookupDirect (members (Nominal derived)) Id_CodingKeys = []"
        by (auto simp: classifyCodingKeys_def split: list.splits prod.splits option.splits bool.splits)
      with sup have ns: "\<not> superclassConformsTo (Nominal derived) Encodable"
        "\<not> superclassConformsTo (Nominal derived) Decodable" by auto
      from wf have dist: "distinct (map getVarNameForCoding
                 (filter isUserAccessible (getStoredProperties (Nominal derived))))"
        by (simp add: distinctNames_def)
      from second_run_record[OF False l s dist ns] have
        c2: "classifyCodingKeys derived' = (Valid, [])" .
      with cs' False k' show ?thesis by (simp add: canSynthesize_def)
    qed
  qed
qed

text \<open>
  Claim C9 as stated fails on \<open>enum Shape\<close> with the positional case \<open>pair(Int, Int)\<close>:
  the first run succeeds and installs the key enums, and the second run classifies the
  target as \<open>NeedsSynthesizedCodingKeys\<close>, not \<open>Valid\<close>, because \<open>pair\<close> has no
  \<open>CodingKeys_pair\<close>.
\<close>

theorem C9_counterexample:
  "canSynthesize (derivation exampleShape Decodable) initFrom
     = Inr (True, derivation exampleShapeSynthesized Decodable, [])
   \<and> classifyCodingKeys (derivation exampleShapeSynthesized Decodable)
     = (NeedsSynthesizedCodingKeys, [])"
  using exampleShape_first_run
  by (simp add: classifyCodingKeys_def validateCaseCodingKeysEnum_def collectProperties_def
      lookup_defs example_defs example_defs4 implicitKeyEnum_def)

theorem C9_second_run_witness:
  "(\<exists>diags. canSynthesize (derivation exampleShapeSynthesized Decodable) initFrom
               = Inr (True, derivation exampleShapeSynthesized Decodable, diags))
   \<and> fst (classifyCodingKeys (derivation exampleShapeSynthesized Decodable))
       = NeedsSynthesizedCodingKeys"
proof -
  have n: "Nominal (derivation exampleShape Decodable) = exampleShape"
    "Nominal (derivation exampleShapeSynthesized Decodable) = exampleShapeSynthesized"
    by (simp_all add: derivation_def)
  have wf: "distinctNames (Nominal (derivation exampleShape Decodable))"
    unfolding n
    by (simp add: distinctNames_def getStoredProperties_def getAllElements_def paramsOf_def
        example_defs4 storedVar_def getVarNameForCoding_def hasAnyUnnamedParameters_def)
  have sup: "superclassConformsTo (Nominal (derivation exampleShape Decodable)) Encodable
                \<or> superclassConformsTo (Nominal (derivation exampleShape Decodable)) Decodable
              \<longrightarrow> lookupDirect (members (Nominal (derivation exampleShape Decodable))) Id_CodingKeys \<noteq> []"
    unfolding n by (simp add: superclassConformsTo_def exampleShape_def)
  have k: "kind exampleShapeSynthesized = EnumKind"
    by (simp add: example_defs4)
  have w: "someCaseWithoutKeyEnum exampleShapeSynthesized"
    by (simp add: someCaseWithoutKeyEnum_def getAllElements_def lookupDirect_def example_defs4
        implicitKeyEnum_def combineIdentifiers_def Id_CodingKeys_def)
  from C9_second_run[OF exampleShape_first_run wf sup] k w show ?thesis
    unfolding n by simp
qed


subsection \<open>The gate returns\<close>

text \<open>
  The lookup of the evaluated key enum stops the compiler on a type alias that names no
  nominal type. The gate never reaches it on such a declaration: the classifier has
  found the declaration to be no enum conforming to \<open>CodingKey\<close> before, so that
  \<open>canSynthesize\<close> and the two entry points always return.
\<close>

lemma synthesizeCodingKeysEnum_enum_returns:
  assumes "lookupEvaluatedCodingKeysEnum (members (Nominal d)) Id_CodingKeys = Inr found"
  shows "\<exists>ok d' ds. synthesizeCodingKeysEnum_enum d = Inr (ok, d', ds)"
  unfolding synthesizeCodingKeysEnum_enum_def Let_def assms
  by (simp split: prod.splits option.splits)

lemma canSynthesize_returns:
  "\<exists>ok derived' diags. canSynthesize derived requirement = Inr (ok, derived', diags)"
proof (cases "checkSuperInit derived requirement")
  case (Some ds)
  then show ?thesis by (auto simp: canSynthesize_def)
next
  case None
  obtain c ds where cl: "classifyCodingKeys derived = (c, ds)" by force
  show ?thesis
  proof (cases c)
    case Invalid
    with None cl show ?thesis by (auto simp: canSynthesize_def)
  next
    case Valid
    with None cl show ?thesis by (auto simp: canSynthesize_def)
  next
    case NeedsSynthesizedCodingKeys
    have "\<exists>ok d' ds'. synthesizeCodingKeysEnum derived = Inr (ok, d', ds')"
    proof (cases "kind (Nominal derived) = EnumKind")
      case False
      then show ?thesis
        by (auto simp: synthesizeCodingKeysEnum_def Let_def split: prod.splits)
    next
      case True
      have "\<exists>found. lookupEvaluatedCodingKeysEnum (members (Nominal derived)) Id_CodingKeys = Inr found"
      proof (cases "lookupDirect (members (Nominal derived)) Id_CodingKeys")
        case Nil
        then show ?thesis by (simp add: lookupEvaluatedCodingKeysEnum_def)
      next
        case (Cons front others)
        with cl NeedsSynthesizedCodingKeys obtain ck ds0 where
          "validateCodingKeysProtocolConformance front = (Some ck, ds0)"
          unfolding classifyCodingKeys_enum[OF True]
          by (cases "validateCodingKeysProtocolConformance front") (auto split: option.splits)
        from lookupEvaluatedCodingKeysEnum_valid[OF Cons this] show ?thesis by blast
      qed
      then obtain found where
        "lookupEvaluatedCodingKeysEnum (members (Nominal derived)) Id_CodingKeys = Inr found" by blast
      from synthesizeCodingKeysEnum_enum_returns[OF this] True show ?thesis
        by (simp add: synthesizeCodingKeysEnum_def)
    qed
    with None cl NeedsSynthesizedCodingKeys show ?thesis
      by (auto simp: canSynthesize_def)
  qed
qed

lemma deriveDecodable_returns:
  "\<exists>witness derived' diags. deriveDecodable derived requirement = Inr (witness, derived', diags)"
proof -
  obtain ok d ds where "canSynthesize derived requirement = Inr (ok, d, ds)"
    using canSynthesize_returns by blast
  then show ?thesis
    by (cases ok) (auto simp: deriveDecodable_def split: option.splits prod.splits)
qed

lemma deriveEncodable_returns:
  "\<exists>witness derived' diags. deriveEncodable derived requirement = Inr (witness, derived', diags)"
proof -
  obtain ok d ds where "canSynthesize derived requirement = Inr (ok, d, ds)"
    using canSynthesize_returns by blast
  then show ?thesis
    by (cases ok) (auto simp: deriveEncodable_def split: option.splits prod.splits)
qed
end
